(* ===== verification/Go_Prelude.thy ===== *)
theory Go_Prelude
  imports Main "HOL-Library.Word" "HOL-Library.Sublist" "HOL-Library.AList"
begin

text \<open>
  The parts of Go and of its standard library that every component of the gateway uses:
  error values with \<^verbatim>\<open>errors.Is\<close> and \<^verbatim>\<open>errors.As\<close>, the \<^verbatim>\<open>strings\<close> functions, decimal printing,
  64-bit signed arithmetic and the log. A Go string is a byte sequence, modelled as
  \<^typ>\<open>string\<close>. The named collections of the development are declared here.
\<close>

named_theorems go_str \<open>characterisations of the string functions\<close>
named_theorems clk_mono \<open>no operation moves the clock backwards\<close>

section \<open>Error values\<close>

text \<open>
  \<open>Sentinel\<close> is a package variable made with \<^verbatim>\<open>errors.New\<close>, identified by its text (the texts
  of the program's sentinels are distinct); \<open>Typed\<close> an error of a named Go type with its
  full text; \<open>Errorf\<close> any other error without a cause; \<open>Wrapf a e b\<close> is
  \<^verbatim>\<open>fmt.Errorf("a%wb", e)\<close>.
\<close>

datatype go_error =
    Sentinel string
  | Typed string string
  | Errorf string
  | Wrapf string go_error string

type_synonym 'a result = "go_error + 'a"

primrec Error :: "go_error \<Rightarrow> string" where
  "Error (Sentinel m) = m"
| "Error (Typed t m) = m"
| "Error (Errorf m) = m"
| "Error (Wrapf a e b) = a @ Error e @ b"

primrec errors_Is :: "go_error \<Rightarrow> go_error \<Rightarrow> bool" where
  "errors_Is (Sentinel m) t = (t = Sentinel m)"
| "errors_Is (Typed ty m) t = (t = Typed ty m)"
| "errors_Is (Errorf m) t = (t = Errorf m)"
| "errors_Is (Wrapf a e b) t = (t = Wrapf a e b \<or> errors_Is e t)"

primrec errors_As :: "go_error \<Rightarrow> string \<Rightarrow> bool" where
  "errors_As (Sentinel m) ty = False"
| "errors_As (Typed ty' m) ty = (ty' = ty)"
| "errors_As (Errorf m) ty = False"
| "errors_As (Wrapf a e b) ty = errors_As e ty"

lemma errors_Is_refl [simp]: "errors_Is e e"
  by (cases e) auto

definition context_Canceled :: go_error where
  "context_Canceled = Sentinel ''context canceled''"

definition context_DeadlineExceeded :: go_error where
  "context_DeadlineExceeded = Typed ''deadlineExceededError'' ''context deadline exceeded''"

section \<open>The log\<close>

text \<open>A log line keeps its level and message; the key-value attributes are left out.\<close>

datatype level = LInfo | LWarn | LError

type_synonym log = "(level \<times> string) list"

section \<open>Strings\<close>

definition HasPrefix :: "string \<Rightarrow> string \<Rightarrow> bool" where
  "HasPrefix s p \<longleftrightarrow> length p \<le> length s \<and> take (length p) s = p"

definition HasSuffix :: "string \<Rightarrow> string \<Rightarrow> bool" where
  "HasSuffix s q \<longleftrightarrow> length q \<le> length s \<and> drop (length s - length q) s = q"

definition TrimPrefix :: "string \<Rightarrow> string \<Rightarrow> string" where
  "TrimPrefix s p = (if HasPrefix s p then drop (length p) s else s)"

definition TrimSuffix :: "string \<Rightarrow> string \<Rightarrow> string" where
  "TrimSuffix s q = (if HasSuffix s q then take (length s - length q) s else s)"

fun Contains :: "string \<Rightarrow> string \<Rightarrow> bool" where
  "Contains [] sub = (sub = [])"
| "Contains (c # s) sub = (HasPrefix (c # s) sub \<or> Contains s sub)"

fun IndexByte_from :: "int \<Rightarrow> string \<Rightarrow> char \<Rightarrow> int" where
  "IndexByte_from i [] b = -1"
| "IndexByte_from i (c # s) b = (if c = b then i else IndexByte_from (i + 1) s b)"

definition IndexByte :: "string \<Rightarrow> char \<Rightarrow> int" where
  "IndexByte s b = IndexByte_from 0 s b"

fun Join :: "string list \<Rightarrow> string \<Rightarrow> string" where
  "Join [] sep = []"
| "Join [x] sep = x"
| "Join (x # xs) sep = x @ sep @ Join xs sep"

definition lower_byte :: "char \<Rightarrow> char" where
  "lower_byte c = (if 65 \<le> (of_char c :: nat) \<and> (of_char c :: nat) \<le> 90
                   then char_of (of_char c + 32 :: nat) else c)"

text \<open>\<^verbatim>\<open>strings.ToLower\<close> on ASCII input, the only input the program gives it.\<close>

definition ToLower :: "string \<Rightarrow> string" where
  "ToLower s = map lower_byte s"

lemma HasPrefix_iff [go_str]: "HasPrefix s p \<longleftrightarrow> prefix p s"
proof
  assume "HasPrefix s p"
  then have "s = p @ drop (length p) s"
    unfolding HasPrefix_def by (metis append_take_drop_id)
  then show "prefix p s" by (rule prefixI)
next
  assume "prefix p s"
  then show "HasPrefix s p" by (auto simp: HasPrefix_def prefix_def)
qed

lemma HasSuffix_iff: "HasSuffix s q \<longleftrightarrow> suffix q s"
proof
  assume "HasSuffix s q"
  then have "s = take (length s - length q) s @ q"
    unfolding HasSuffix_def by (metis append_take_drop_id)
  then show "suffix q s" by (rule suffixI)
next
  assume "suffix q s"
  then show "HasSuffix s q" by (auto simp: HasSuffix_def suffix_def)
qed

lemma TrimPrefix_append [simp]: "TrimPrefix (p @ s) p = s"
  by (simp add: TrimPrefix_def HasPrefix_iff)

lemma TrimSuffix_append [simp]: "TrimSuffix (s @ q) q = s"
  by (simp add: TrimSuffix_def HasSuffix_iff suffix_def)

lemma HasSuffix_char [go_str]: "HasSuffix s [c] \<longleftrightarrow> s \<noteq> [] \<and> last s = c"
  by (cases s rule: rev_cases) (auto simp: HasSuffix_iff suffix_def)

lemma TrimSuffix_char [go_str]: "HasSuffix s [c] \<Longrightarrow> TrimSuffix s [c] = butlast s"
  by (cases s rule: rev_cases) (auto simp: HasSuffix_iff suffix_def)

lemma IndexByte_from_ge: "c \<in> set s \<Longrightarrow> i \<le> IndexByte_from i s c"
proof (induction s arbitrary: i)
  case (Cons x s)
  then show ?case by (auto intro: order_trans [of i "i + 1"])
qed simp

lemma IndexByte_from_absent: "c \<notin> set s \<Longrightarrow> IndexByte_from i s c = -1"
  by (induction s arbitrary: i) auto

lemma IndexByte_from_append:
  "c \<notin> set s \<Longrightarrow> IndexByte_from i (s @ c # t) c = i + int (length s)"
  by (induction s arbitrary: i) auto

lemma IndexByte_absent [go_str]: "0 \<le> IndexByte s c \<longleftrightarrow> c \<in> set s"
proof
  assume "0 \<le> IndexByte s c"
  then show "c \<in> set s" using IndexByte_from_absent [of c s 0] by (force simp: IndexByte_def)
next
  assume "c \<in> set s"
  then show "0 \<le> IndexByte s c" using IndexByte_from_ge [of c s 0] by (simp add: IndexByte_def)
qed

lemma IndexByte_split:
  assumes "c \<in> set s"
  obtains u v where "s = u @ c # v" and "c \<notin> set u" and "IndexByte s c = int (length u)"
proof -
  from assms obtain u v where s: "s = u @ c # v" and u: "c \<notin> set u"
    by (meson split_list_first)
  then have "IndexByte s c = int (length u)"
    using IndexByte_from_append [of c u 0 v] by (simp add: IndexByte_def)
  with s u show thesis by (rule that)
qed

section \<open>Decimal printing\<close>

fun digits_of :: "nat \<Rightarrow> string" where
  "digits_of n = (if n < 10 then [char_of (48 + n)]
                  else digits_of (n div 10) @ [char_of (48 + n mod 10)])"

declare digits_of.simps [simp del]

text \<open>\<^verbatim>\<open>%d\<close> of \<^verbatim>\<open>fmt\<close> and \<^verbatim>\<open>strconv.Itoa\<close>.\<close>

definition itoa :: "int \<Rightarrow> string" where
  "itoa i = (if i < 0 then ''-'' @ digits_of (nat (- i)) else digits_of (nat i))"

section \<open>64-bit signed integers\<close>

text \<open>The value of an \<^verbatim>\<open>int64\<close> computation whose mathematical result is \<open>x\<close>.\<close>

definition wrap64 :: "int \<Rightarrow> int" where
  "wrap64 x = sint (word_of_int x :: 64 word)"

lemma wrap64_id: "- (2 ^ 63) \<le> x \<Longrightarrow> x < 2 ^ 63 \<Longrightarrow> wrap64 x = x"
  unfolding wrap64_def by (simp add: sint_sbintrunc' signed_take_bit_int_eq_self)

lemma wrap64_bounds: "- (2 ^ 63) \<le> wrap64 x \<and> wrap64 x < 2 ^ 63"
  unfolding wrap64_def using sint_range_size [of "word_of_int x :: 64 word"] by (simp add: word_size)

section \<open>Separator-joined keys\<close>

text \<open>
  Several components build a map key by joining strings with a separator byte. The join
  is injective when the separator occurs in neither left part.
\<close>

lemma sep_append_inj:
  assumes "s @ c # t = s' @ c # t'" and "c \<notin> set s" and "c \<notin> set s'"
  shows "s = s' \<and> t = t'"
  using assms
proof (induction s arbitrary: s')
  case Nil
  then show ?case by (cases s') auto
next
  case (Cons x s)
  then show ?case by (cases s') auto
qed

lemma count_list_zero: "count_list xs c = 0 \<longleftrightarrow> c \<notin> set xs"
  by (induction xs) auto

end
