(* ===== verification/Go_Time.thy ===== *)
theory Go_Time
  imports Go_Prelude
begin

text \<open>
  Instants, durations, contexts and the process clock. An instant is the number of
  nanoseconds since the Unix epoch, a duration a number of nanoseconds (Go's \<^verbatim>\<open>int64\<close>,
  written with \<^const>\<open>wrap64\<close> where the program multiplies by an unbounded factor).

  The clock of the process carries the current instant and an oracle for how long each
  piece of work takes. Durations of work are natural numbers, so time never runs
  backwards; they are otherwise arbitrary, so a theorem about a clock holds for every
  timing. \<open>clk_pick\<close> resolves a \<^verbatim>\<open>select\<close> with two ready cases, which Go leaves open.
\<close>

type_synonym time = int
type_synonym duration = int

definition Second :: duration where "Second = 1000000000"
definition Minute :: duration where "Minute = 60 * Second"
definition Hour :: duration where "Hour = 60 * Minute"

lemmas durations = Second_def Minute_def Hour_def

text \<open>\<^verbatim>\<open>Time.Sub\<close> saturates at the bounds of \<^verbatim>\<open>int64\<close>.\<close>

definition time_Sub :: "time \<Rightarrow> time \<Rightarrow> duration" where
  "time_Sub t u = max (- (2 ^ 63)) (min (2 ^ 63 - 1) (t - u))"

definition time_Unix :: "time \<Rightarrow> int" where
  "time_Unix t = t div Second"

text \<open>The zero \<^verbatim>\<open>time.Time\<close>: midnight of 1 January of year 1, UTC.\<close>

definition time_zero :: time where
  "time_zero = - 62135596800 * Second"

definition IsZero :: "time \<Rightarrow> bool" where
  "IsZero t \<longleftrightarrow> t = time_zero"

lemma time_Sub_le: "d < 2 ^ 63 - 1 \<Longrightarrow> time_Sub t u \<le> d \<longleftrightarrow> - (2 ^ 63) \<le> d \<and> t - u \<le> d"
  by (auto simp: time_Sub_def)

lemma time_Sub_le_small:
  "0 \<le> d \<Longrightarrow> d < 2 ^ 63 - 1 \<Longrightarrow> time_Sub t u \<le> d \<longleftrightarrow> t - u \<le> d"
  by (auto simp: time_Sub_le)

section \<open>The clock\<close>

record clock =
  clk_now :: time
  clk_work :: "nat \<Rightarrow> nat"
  clk_pick :: "nat \<Rightarrow> bool"
  clk_tick :: nat

definition elapse :: "clock \<Rightarrow> clock" where
  "elapse c = c\<lparr>clk_now := clk_now c + int (clk_work c (clk_tick c)), clk_tick := Suc (clk_tick c)\<rparr>"

text \<open>Time passes until instant \<open>t\<close>, or not at all when \<open>t\<close> is past.\<close>

definition advance_to :: "time \<Rightarrow> clock \<Rightarrow> clock" where
  "advance_to t c = c\<lparr>clk_now := max t (clk_now c), clk_tick := Suc (clk_tick c)\<rparr>"

text \<open>\<^verbatim>\<open>time.Now()\<close>\<close>

definition Now :: "clock \<Rightarrow> time \<times> clock" where
  "Now c = (clk_now c, elapse c)"

lemma elapse_mono [clk_mono, simp]: "clk_now c \<le> clk_now (elapse c)"
  by (simp add: elapse_def)

lemma advance_to_mono [clk_mono, simp]: "clk_now c \<le> clk_now (advance_to t c)"
  by (simp add: advance_to_def)

lemma advance_to_ge: "t \<le> clk_now (advance_to t c)"
  by (simp add: advance_to_def)

lemma fst_Now [simp]: "fst (Now c) = clk_now c"
  by (simp add: Now_def)

lemma snd_Now [simp]: "snd (Now c) = elapse c"
  by (simp add: Now_def)

section \<open>Contexts\<close>

text \<open>
  A context is the instant at which its \<^verbatim>\<open>Done\<close> channel closes, by cancellation or by its
  deadline, if there is one.
\<close>

type_synonym go_context = "time option"

definition Background :: go_context where
  "Background = None"

definition WithTimeout :: "go_context \<Rightarrow> duration \<Rightarrow> time \<Rightarrow> go_context" where
  "WithTimeout ctx d now = (case ctx of None \<Rightarrow> Some (now + d) | Some t \<Rightarrow> Some (min t (now + d)))"

text \<open>\<^verbatim>\<open>ctx.Err() != nil\<close> at an instant\<close>

definition ctx_done :: "go_context \<Rightarrow> time \<Rightarrow> bool" where
  "ctx_done ctx now = (case ctx of None \<Rightarrow> False | Some t \<Rightarrow> t \<le> now)"

lemma WithTimeout_Background [simp]: "WithTimeout Background d now = Some (now + d)"
  by (simp add: WithTimeout_def Background_def)

lemma ctx_done_mono: "ctx_done ctx t \<Longrightarrow> t \<le> u \<Longrightarrow> ctx_done ctx u"
  by (auto simp: ctx_done_def split: option.splits)

text \<open>
  \<^verbatim>\<open>sleepCtx\<close>: wait for the context or for \<open>d\<close>, whichever comes first; \<^const>\<open>True\<close> when the
  sleep ran its course. When both fall on the same instant, or both are over on entry,
  the choice is open.
\<close>

definition sleepCtx :: "go_context \<Rightarrow> duration \<Rightarrow> clock \<Rightarrow> bool \<times> clock" where
  "sleepCtx ctx d c =
     (let fire = max (clk_now c) (clk_now c + d) in
      case ctx of
        None \<Rightarrow> (True, advance_to fire c)
      | Some t \<Rightarrow>
          let over = max (clk_now c) t in
          if over < fire then (False, advance_to over c)
          else if fire < over then (True, advance_to fire c)
          else (clk_pick c (clk_tick c), advance_to fire c))"

lemma sleepCtx_mono [clk_mono]: "sleepCtx ctx d c = (r, c') \<Longrightarrow> clk_now c \<le> clk_now c'"
  by (auto simp: sleepCtx_def Let_def split: option.splits if_splits)

lemma sleepCtx_True: "sleepCtx ctx d c = (True, c') \<Longrightarrow> clk_now c + d \<le> clk_now c'"
  by (auto simp: sleepCtx_def Let_def advance_to_def split: option.splits if_splits)

lemma sleepCtx_False: "sleepCtx ctx d c = (False, c') \<Longrightarrow> ctx_done ctx (clk_now c')"
  by (auto simp: sleepCtx_def ctx_done_def Let_def advance_to_def split: option.splits if_splits)

lemma sleepCtx_within_context:
  "sleepCtx (Some t) d c = (r, c') \<Longrightarrow> clk_now c' \<le> max t (clk_now c)"
  by (auto simp: sleepCtx_def Let_def advance_to_def split: if_splits)

end
