(* ===== verification/Store.thy ===== *)
theory Store
  imports Go_Time
begin

text \<open>
  Package \<^verbatim>\<open>internal/store\<close>: the operation record, the \<^verbatim>\<open>Store\<close> interface and its contract.
  A status is a string, as in Go, so a row read from a table may hold a status the program
  does not know. Fields are named as in the struct, with the prefix \<open>Op_\<close>. The interface
  is the record \<open>store_api\<close> of state-passing functions; what its clients rely on is the
  locale \<open>store_contract\<close>, interpreted by each implementation.
\<close>

section \<open>Operations\<close>

type_synonym OperationStatus = string

definition StatusRunning :: OperationStatus where "StatusRunning = ''running''"
definition StatusSucceeded :: OperationStatus where "StatusSucceeded = ''succeeded''"
definition StatusFailed :: OperationStatus where "StatusFailed = ''failed''"
definition StatusTimeout :: OperationStatus where "StatusTimeout = ''timeout''"
definition StatusDenied :: OperationStatus where "StatusDenied = ''denied''"

lemmas status_defs =
  StatusRunning_def StatusSucceeded_def StatusFailed_def StatusTimeout_def StatusDenied_def

definition ErrNotFound :: go_error where
  "ErrNotFound = Sentinel ''operation not found''"

definition ErrAlreadyTerminal :: go_error where
  "ErrAlreadyTerminal = Sentinel ''operation already terminal''"

record AuditEvent =
  Event :: string
  At :: time

record Operation =
  Op_OperationID :: string
  Op_Repository :: string
  Op_RepositoryID :: string
  Op_RepositoryOwner :: string
  Op_Actor :: string
  Op_Workflow :: string
  Op_WorkflowRef :: string
  Op_RunID :: string
  Op_RunAttempt :: string
  Op_EventName :: string
  Op_Action :: string
  Op_Namespace :: string
  Op_Deployment :: string
  Op_Container :: string
  Op_Image :: string
  Op_NsDep :: string
  Op_Status :: OperationStatus
  Op_ErrorCode :: string
  Op_ErrorMessage :: string
  Op_RequestedAt :: time
  Op_CompletedAt :: "time option"
  Op_ExpiresAt :: int
  Op_Events :: "AuditEvent list"

definition Terminal :: "Operation \<Rightarrow> bool" where
  "Terminal op \<longleftrightarrow> Op_Status op \<noteq> StatusRunning"

record TerminalUpdate =
  Upd_Status :: OperationStatus
  Upd_Event :: string
  Upd_ErrorCode :: string
  Upd_ErrorMessage :: string
  Upd_CompletedAt :: time

text \<open>
  The effect of a terminal update on a row; \<open>at\<close> is the time of the appended audit event,
  which the implementations take from different places.
\<close>

definition terminal_row :: "Operation \<Rightarrow> TerminalUpdate \<Rightarrow> time \<Rightarrow> Operation" where
  "terminal_row op upd at =
     op\<lparr>Op_Status := Upd_Status upd, Op_ErrorCode := Upd_ErrorCode upd,
        Op_ErrorMessage := Upd_ErrorMessage upd, Op_CompletedAt := Some (Upd_CompletedAt upd),
        Op_Events := Op_Events op @ [\<lparr>Event = Upd_Event upd, At = at\<rparr>]\<rparr>"

lemma terminal_row_sel [simp]:
  "Op_OperationID (terminal_row op upd at) = Op_OperationID op"
  "Op_Status (terminal_row op upd at) = Upd_Status upd"
  "Op_RequestedAt (terminal_row op upd at) = Op_RequestedAt op"
  "Op_Events (terminal_row op upd at) = Op_Events op @ [\<lparr>Event = Upd_Event upd, At = at\<rparr>]"
  by (simp_all add: terminal_row_def)

section \<open>The interface\<close>

text \<open>
  \<open>UpdateTerminal\<close> takes the instant at which it runs, for implementations that stamp the
  audit event themselves.
\<close>

record 's store_api =
  PutOperation :: "Operation \<Rightarrow> 's \<Rightarrow> go_error option \<times> 's"
  GetOperation :: "string \<Rightarrow> 's \<Rightarrow> Operation result \<times> 's"
  UpdateTerminal :: "string \<Rightarrow> TerminalUpdate \<Rightarrow> time \<Rightarrow> 's \<Rightarrow> go_error option \<times> 's"
  ListRunningPastDeadline :: "time \<Rightarrow> 's \<Rightarrow> Operation list result \<times> 's"
  Ping :: "'s \<Rightarrow> go_error option \<times> 's"

type_synonym rows = "string \<Rightarrow> Operation option"

text \<open>A store holds a row under its own operation id.\<close>

definition keyed :: "rows \<Rightarrow> bool" where
  "keyed R \<longleftrightarrow> (\<forall>i op. R i = Some op \<longrightarrow> Op_OperationID op = i)"

text \<open>The update of a row by a terminal write: only a running row has one.\<close>

definition terminal_write :: "rows \<Rightarrow> string \<Rightarrow> TerminalUpdate \<Rightarrow> rows \<Rightarrow> bool" where
  "terminal_write R i upd R' \<longleftrightarrow>
     (\<exists>op at. R i = Some op \<and> \<not> Terminal op \<and> R' = R(i \<mapsto> terminal_row op upd at))"

text \<open>
  Racing writers: watcher, sweeper and reads each attempt the terminal write, in some order.
  \<open>run_updates\<close> makes the attempts one after the other and lists their results.
\<close>

type_synonym attempt = "string \<times> TerminalUpdate \<times> time"

fun run_updates ::
  "'s store_api \<Rightarrow> attempt list \<Rightarrow> 's \<Rightarrow> (string \<times> go_error option) list \<times> 's" where
  "run_updates st [] s = ([], s)"
| "run_updates st ((i, upd, now) # as) s =
     (case UpdateTerminal st i upd now s of (r, s1) \<Rightarrow>
       (case run_updates st as s1 of (rs, s2) \<Rightarrow> ((i, r) # rs, s2)))"

definition wins :: "string \<Rightarrow> (string \<times> go_error option) list \<Rightarrow> nat" where
  "wins i rs = length (filter (\<lambda>(j, r). j = i \<and> r = None) rs)"

lemma wins_simps [simp]:
  "wins i [] = 0"
  "wins i ((j, r) # rs) = (if j = i \<and> r = None then Suc (wins i rs) else wins i rs)"
  by (simp_all add: wins_def)

section \<open>The contract\<close>

text \<open>
  \<open>rows\<close> is what is durably stored and \<open>inv\<close> what the implementation keeps true of its own
  state. A call that returns an error may still have taken effect (its response was lost),
  so an error only promises that the effect is none or the whole one. Nothing is said of what a
  read returns: a read may be stale. Reads of the present state are the locale \<open>fresh_store\<close>.
\<close>

locale store_contract =
  fixes st :: "'s store_api" and rows :: "'s \<Rightarrow> rows" and inv :: "'s \<Rightarrow> bool"
  assumes put_ok: "inv s \<Longrightarrow> PutOperation st op s = (None, s') \<Longrightarrow>
      rows s (Op_OperationID op) = None \<Longrightarrow> inv s' \<and> rows s' = (rows s)(Op_OperationID op \<mapsto> op)"
    and put_err: "inv s \<Longrightarrow> PutOperation st op s = (Some e, s') \<Longrightarrow>
      rows s (Op_OperationID op) = None \<Longrightarrow>
      inv s' \<and> (rows s' = rows s \<or> rows s' = (rows s)(Op_OperationID op \<mapsto> op))"
    and get_rows: "inv s \<Longrightarrow> GetOperation st i s = (rg, s') \<Longrightarrow> inv s' \<and> rows s' = rows s"
    and update_ok: "inv s \<Longrightarrow> UpdateTerminal st i upd now s = (None, s') \<Longrightarrow>
      inv s' \<and> terminal_write (rows s) i upd (rows s')"
    and update_err: "inv s \<Longrightarrow> UpdateTerminal st i upd now s = (Some e, s') \<Longrightarrow>
      inv s' \<and> (rows s' = rows s \<or> terminal_write (rows s) i upd (rows s'))"
    and list_rows: "inv s \<Longrightarrow> ListRunningPastDeadline st t s = (rl, s') \<Longrightarrow>
      inv s' \<and> rows s' = rows s"
    and ping_rows: "inv s \<Longrightarrow> Ping st s = (rp, s') \<Longrightarrow> inv s' \<and> rows s' = rows s"
    and rows_keyed: "inv s \<Longrightarrow> keyed (rows s)"
begin

lemma update_rows:
  assumes "inv s" and "UpdateTerminal st i upd now s = (r, s')"
  shows "inv s' \<and> (rows s' = rows s \<or> terminal_write (rows s) i upd (rows s'))"
  using assms update_ok update_err by (cases r) blast+

lemma put_rows:
  assumes "inv s" and "PutOperation st op s = (r, s')" and "rows s (Op_OperationID op) = None"
  shows "inv s' \<and> (rows s' = rows s \<or> rows s' = (rows s)(Op_OperationID op \<mapsto> op))"
  using assms put_ok put_err by (cases r) blast+

lemma second_update_fails:
  assumes "inv s" and "rows s i = Some op" and "Terminal op"
    and "UpdateTerminal st i upd now s = (r, s')"
  shows "r \<noteq> None \<and> rows s' = rows s"
proof (cases r)
  case None
  with assms update_ok [of s i upd now s'] show ?thesis by (auto simp: terminal_write_def)
next
  case (Some e)
  with assms update_err [of s i upd now e s'] show ?thesis by (auto simp: terminal_write_def)
qed

lemma update_other:
  assumes "inv s" and "UpdateTerminal st i upd now s = (r, s')" and "j \<noteq> i"
  shows "rows s' j = rows s j"
  using update_rows [OF assms(1,2)] assms(3) by (auto simp: terminal_write_def)

lemma no_win_after_terminal:
  assumes "inv s" and "rows s i = Some op" and "Terminal op" and "run_updates st as s = (rs, s')"
  shows "wins i rs = 0 \<and> rows s' i = Some op"
  using assms
proof (induction as arbitrary: s rs)
  case (Cons a as)
  obtain j upd now where a: "a = (j, upd, now)" by (cases a)
  obtain r s1 where u: "UpdateTerminal st j upd now s = (r, s1)" by fastforce
  obtain rs1 where run: "run_updates st as s1 = (rs1, s')" and rs: "rs = (j, r) # rs1"
    using Cons.prems(4) a u by (auto split: prod.splits)
  have inv: "inv s1" using update_rows [OF Cons.prems(1) u] by blast
  have nowin: "j = i \<Longrightarrow> r \<noteq> None" and same: "j = i \<Longrightarrow> rows s1 = rows s"
    using second_update_fails [OF Cons.prems(1-3)] u by blast+
  have row: "rows s1 i = Some op"
    using same update_other [OF Cons.prems(1) u, of i] Cons.prems(2) by (cases "j = i") simp_all
  have "wins i rs1 = 0 \<and> rows s' i = Some op"
    using Cons.IH [OF inv row Cons.prems(3) run] .
  with rs nowin show ?case by auto
qed auto

lemma at_most_one_win:
  assumes "inv s" and "run_updates st as s = (rs, s')"
    and "\<And>j upd now. (j, upd, now) \<in> set as \<Longrightarrow> Upd_Status upd \<noteq> StatusRunning"
  shows "wins i rs \<le> 1"
  using assms
proof (induction as arbitrary: s rs)
  case (Cons a as)
  obtain j upd now where a: "a = (j, upd, now)" by (cases a)
  obtain r s1 where u: "UpdateTerminal st j upd now s = (r, s1)" by fastforce
  obtain rs1 where run: "run_updates st as s1 = (rs1, s')" and rs: "rs = (j, r) # rs1"
    using Cons.prems(2) a u by (auto split: prod.splits)
  have inv: "inv s1" using update_rows [OF Cons.prems(1) u] by blast
  show ?case
  proof (cases "j = i \<and> r = None")
    case True
    then have "terminal_write (rows s) i upd (rows s1)"
      using update_ok [OF Cons.prems(1)] u by blast
    then obtain old at where row: "rows s1 i = Some (terminal_row old upd at)"
      by (auto simp: terminal_write_def)
    have "Terminal (terminal_row old upd at)" using Cons.prems(3) a by (auto simp: Terminal_def)
    from no_win_after_terminal [OF inv row this run] rs show ?thesis by simp
  next
    case False
    have "wins i rs1 \<le> 1" using Cons.IH [OF inv run] Cons.prems(3) by (meson list.set_intros(2))
    with rs False show ?thesis by auto
  qed
qed auto

end

section \<open>Histories of rows\<close>

text \<open>
  What any sequence of store calls can do to the rows: add a row under a new id, or write a
  terminal update to a running one. \<open>evolves\<close> is the reflexive and transitive closure.
\<close>

inductive row_step :: "rows \<Rightarrow> rows \<Rightarrow> bool" where
  put: "R (Op_OperationID op) = None \<Longrightarrow> row_step R (R(Op_OperationID op \<mapsto> op))"
| update: "terminal_write R i upd R' \<Longrightarrow> Upd_Status upd \<noteq> StatusRunning \<Longrightarrow> row_step R R'"

inductive_cases row_stepE: "row_step R R'"

abbreviation evolves :: "rows \<Rightarrow> rows \<Rightarrow> bool" where
  "evolves \<equiv> row_step\<^sup>*\<^sup>*"

text \<open>
  What an evolution keeps: a row never disappears, keeps its identity fields, its audit
  events only grow, and a terminal row never changes again.
\<close>

definition row_le :: "Operation \<Rightarrow> Operation \<Rightarrow> bool" where
  "row_le op op' \<longleftrightarrow>
     op' = op \<or>
     (\<not> Terminal op \<and> Terminal op' \<and>
      (\<exists>upd at. op' = terminal_row op upd at))"

lemma row_le_refl [simp]: "row_le op op"
  by (simp add: row_le_def)

lemma row_le_trans: "row_le a b \<Longrightarrow> row_le b c \<Longrightarrow> row_le a c"
  by (auto simp: row_le_def)

lemma row_le_terminal: "row_le op op' \<Longrightarrow> Terminal op \<Longrightarrow> op' = op"
  by (auto simp: row_le_def)

lemma row_step_le:
  assumes "row_step R R'" and "R i = Some op"
  shows "\<exists>op'. R' i = Some op' \<and> row_le op op'"
  using assms(1)
proof (cases rule: row_step.cases)
  case (put op')
  with assms(2) show ?thesis by auto
next
  case (update j upd)
  then obtain old at where old: "R j = Some old" "\<not> Terminal old"
    and R': "R' = R(j \<mapsto> terminal_row old upd at)"
    by (auto simp: terminal_write_def)
  from update(2) have "Terminal (terminal_row old upd at)" by (simp add: Terminal_def)
  with old have "row_le old (terminal_row old upd at)" unfolding row_le_def by blast
  with old R' assms(2) show ?thesis by (cases "i = j") auto
qed

lemma evolves_le:
  assumes "evolves R R'" and "R i = Some op"
  shows "\<exists>op'. R' i = Some op' \<and> row_le op op'"
  using assms
proof (induction rule: rtranclp_induct)
  case base
  then show ?case by auto
next
  case (step R1 R2)
  then show ?case by (meson row_le_trans row_step_le)
qed

lemma evolves_put: "R (Op_OperationID op) = None \<Longrightarrow> evolves R (R(Op_OperationID op \<mapsto> op))"
  by (blast intro: row_step.put)

lemma evolves_update: "terminal_write R i upd R' \<Longrightarrow> Upd_Status upd \<noteq> StatusRunning \<Longrightarrow> evolves R R'"
  by (blast intro: row_step.update)

context store_contract
begin

lemma put_evolves:
  assumes "inv s" and "PutOperation st op s = (r, s')" and "rows s (Op_OperationID op) = None"
  shows "inv s' \<and> evolves (rows s) (rows s')"
  using put_rows [OF assms] assms(3) by (auto intro: evolves_put)

lemma update_evolves:
  assumes "inv s" and "UpdateTerminal st i upd now s = (r, s')"
    and "Upd_Status upd \<noteq> StatusRunning"
  shows "inv s' \<and> evolves (rows s) (rows s')"
  using update_rows [OF assms(1,2)] assms(3) by (auto intro: evolves_update)

end

section \<open>Fresh reads\<close>

locale fresh_store = store_contract +
  assumes get_ok: "inv s \<Longrightarrow> GetOperation st i s = (Inr op, s') \<Longrightarrow> rows s i = Some op"
    and list_ok: "inv s \<Longrightarrow> ListRunningPastDeadline st t s = (Inr ops, s') \<Longrightarrow> op \<in> set ops \<Longrightarrow>
      rows s (Op_OperationID op) = Some op \<and> \<not> Terminal op"
begin

lemma read_own_put:
  assumes "inv s" and "rows s (Op_OperationID op) = None" and "PutOperation st op s = (None, s1)"
    and "GetOperation st (Op_OperationID op) s1 = (Inr op', s2)"
  shows "op' = op"
  using put_ok [OF assms(1,3,2)] get_ok [OF _ assms(4)] by auto

lemma read_own_update:
  assumes "inv s" and "UpdateTerminal st i upd now s = (None, s1)" and "GetOperation st i s1 = (Inr op', s2)"
  shows "\<exists>op at. rows s i = Some op \<and> op' = terminal_row op upd at"
  using update_ok [OF assms(1,2)] get_ok [OF _ assms(3)] by (auto simp: terminal_write_def)

end

end
