(* ===== verification/Kube.thy ===== *)
theory Kube
  imports Go_Time
begin

text \<open>
  Package \<^verbatim>\<open>internal/kube\<close>: the part of a Kubernetes \<^verbatim>\<open>Deployment\<close> the gateway reads, the
  rollout evaluation and the \<^verbatim>\<open>Kube\<close> interface. The client that implements it is in
  \<open>Kube_Client\<close>. Integers are the
  values of Go's \<^verbatim>\<open>int32\<close> and \<^verbatim>\<open>int64\<close> fields, which the program only compares and prints.
\<close>

section \<open>Deployments\<close>

record DeploymentCondition =
  Cond_Type :: string
  Cond_Status :: string
  Cond_Reason :: string

record Container =
  Container_Name :: string
  Container_Image :: string

record Deployment =
  Generation :: int
  Spec_Replicas :: "int option"
  ProgressDeadlineSeconds :: "int option"
  Containers :: "Container list"
  ObservedGeneration :: int
  Status_Replicas :: int
  UpdatedReplicas :: int
  ReadyReplicas :: int
  AvailableReplicas :: int
  Conditions :: "DeploymentCondition list"

section \<open>Rollout evaluation\<close>

datatype RolloutState = RolloutProgressing | RolloutComplete | RolloutFailed

fun RolloutState_String :: "RolloutState \<Rightarrow> string" where
  "RolloutState_String RolloutComplete = ''complete''"
| "RolloutState_String RolloutFailed = ''failed''"
| "RolloutState_String RolloutProgressing = ''progressing''"

text \<open>The constants are numbered by \<^verbatim>\<open>iota\<close>, which orders them.\<close>

primrec RolloutState_iota :: "RolloutState \<Rightarrow> nat" where
  "RolloutState_iota RolloutProgressing = 0"
| "RolloutState_iota RolloutComplete = 1"
| "RolloutState_iota RolloutFailed = 2"

instantiation RolloutState :: linorder
begin

definition less_eq_RolloutState :: "RolloutState \<Rightarrow> RolloutState \<Rightarrow> bool" where
  "less_eq_RolloutState s t \<longleftrightarrow> RolloutState_iota s \<le> RolloutState_iota t"

definition less_RolloutState :: "RolloutState \<Rightarrow> RolloutState \<Rightarrow> bool" where
  "less_RolloutState s t \<longleftrightarrow> RolloutState_iota s < RolloutState_iota t"

instance
proof
  fix x y z :: RolloutState
  show "x < y \<longleftrightarrow> x \<le> y \<and> \<not> y \<le> x" by (auto simp: less_eq_RolloutState_def less_RolloutState_def)
  show "x \<le> x" by (simp add: less_eq_RolloutState_def)
  show "x \<le> y \<Longrightarrow> y \<le> z \<Longrightarrow> x \<le> z" by (simp add: less_eq_RolloutState_def)
  show "x \<le> y \<Longrightarrow> y \<le> x \<Longrightarrow> x = y" by (cases x; cases y) (simp_all add: less_eq_RolloutState_def)
  show "x \<le> y \<or> y \<le> x" by (auto simp: less_eq_RolloutState_def)
qed

end

record RolloutEvaluation =
  Eval_State :: RolloutState
  Eval_Reason :: string

primrec find_condition :: "DeploymentCondition list \<Rightarrow> string \<Rightarrow> DeploymentCondition option" where
  "find_condition [] t = None"
| "find_condition (c # cs) t = (if Cond_Type c = t then Some c else find_condition cs t)"

definition getCondition :: "Deployment \<Rightarrow> string \<Rightarrow> DeploymentCondition option" where
  "getCondition dep t = find_condition (Conditions dep) t"

definition progress_line :: "Deployment \<Rightarrow> string" where
  "progress_line dep =
     ''observedGeneration='' @ itoa (ObservedGeneration dep) @ '' generation='' @ itoa (Generation dep) @
     '' replicas='' @ itoa (Status_Replicas dep) @ '' updated='' @ itoa (UpdatedReplicas dep) @
     '' ready='' @ itoa (ReadyReplicas dep) @ '' available='' @ itoa (AvailableReplicas dep)"

definition EvaluateRollout :: "Deployment \<Rightarrow> RolloutEvaluation" where
  "EvaluateRollout dep =
     (let deadline_exceeded =
        (case getCondition dep ''Progressing'' of
           None \<Rightarrow> False
         | Some c \<Rightarrow> Cond_Status c = ''False'' \<and> Cond_Reason c = ''ProgressDeadlineExceeded'' \<and>
             Generation dep \<le> ObservedGeneration dep)
      in if deadline_exceeded
         then \<lparr>Eval_State = RolloutFailed, Eval_Reason = ''progress deadline exceeded''\<rparr>
         else
           let desired = (case Spec_Replicas dep of None \<Rightarrow> 1 | Some r \<Rightarrow> r) in
           if Generation dep \<le> ObservedGeneration dep \<and>
              UpdatedReplicas dep = desired \<and> Status_Replicas dep = desired \<and>
              ReadyReplicas dep = desired \<and> AvailableReplicas dep = desired
           then \<lparr>Eval_State = RolloutComplete, Eval_Reason = ''all replicas are new, ready and available''\<rparr>
           else \<lparr>Eval_State = RolloutProgressing, Eval_Reason = progress_line dep\<rparr>)"

text \<open>
  The abstract notion: the controller has seen the current spec; the rollout has failed when
  it says so in the first condition of type Progressing; it is complete when it has not
  failed and every counted pod is an updated, ready and available one of the desired number.
\<close>

definition desired_replicas :: "Deployment \<Rightarrow> int" where
  "desired_replicas dep = (case Spec_Replicas dep of None \<Rightarrow> 1 | Some r \<Rightarrow> r)"

definition observed :: "Deployment \<Rightarrow> bool" where
  "observed dep \<longleftrightarrow> Generation dep \<le> ObservedGeneration dep"

definition gave_up :: "Deployment \<Rightarrow> bool" where
  "gave_up dep \<longleftrightarrow>
     (\<exists>c. find (\<lambda>c. Cond_Type c = ''Progressing'') (Conditions dep) = Some c \<and>
        Cond_Status c = ''False'' \<and> Cond_Reason c = ''ProgressDeadlineExceeded'')"

definition all_new :: "Deployment \<Rightarrow> bool" where
  "all_new dep \<longleftrightarrow>
     {UpdatedReplicas dep, Status_Replicas dep, ReadyReplicas dep, AvailableReplicas dep} =
       {desired_replicas dep}"

lemma find_condition_find: "find_condition cs t = find (\<lambda>c. Cond_Type c = t) cs"
  by (induction cs) auto

lemma getCondition_gave_up:
  "(case getCondition dep ''Progressing'' of None \<Rightarrow> False
    | Some c \<Rightarrow> Cond_Status c = ''False'' \<and> Cond_Reason c = ''ProgressDeadlineExceeded'' \<and> P) \<longleftrightarrow>
   gave_up dep \<and> P"
  by (auto simp: gave_up_def getCondition_def find_condition_find split: option.splits)

lemma EvaluateRollout_state:
  "Eval_State (EvaluateRollout dep) =
     (if \<not> observed dep then RolloutProgressing
      else if gave_up dep then RolloutFailed
      else if all_new dep then RolloutComplete
      else RolloutProgressing)"
  unfolding EvaluateRollout_def getCondition_gave_up Let_def
  by (auto simp: observed_def all_new_def desired_replicas_def)

section \<open>The interface\<close>

text \<open>
  A watch delivers events until its channel closes; an event whose object is not a
  deployment (an error status, a bookmark) is \<^const>\<open>None\<close>. The channel of a watch closes at
  the latest when its context is done, so the events of one watch are a finite list.
  Contexts reach the API server only; a cancelled call is one that returns an error.
\<close>

type_synonym watch_event = "Deployment option"

record 'k kube_api =
  RestartDeployment :: "string \<Rightarrow> string \<Rightarrow> 'k \<Rightarrow> go_error option \<times> 'k"
  RolloutDeployment :: "string \<Rightarrow> string \<Rightarrow> string \<Rightarrow> string \<Rightarrow> 'k \<Rightarrow> go_error option \<times> 'k"
  GetDeployment :: "string \<Rightarrow> string \<Rightarrow> 'k \<Rightarrow> Deployment result \<times> 'k"
  WatchDeployment :: "string \<Rightarrow> string \<Rightarrow> 'k \<Rightarrow> watch_event list result \<times> 'k"

section \<open>Properties\<close>

text \<open>C27. The verdict on a deployment is the abstract one: nothing is concluded before the
  controller has observed the current generation; then a progress deadline exceeded means
  failed, and otherwise the rollout is complete exactly when the updated, total, ready and
  available pod counts all equal the desired number.\<close>

theorem EvaluateRollout_spec:
  "Eval_State (EvaluateRollout dep) =
     (if \<not> observed dep then RolloutProgressing
      else if gave_up dep then RolloutFailed
      else if all_new dep then RolloutComplete
      else RolloutProgressing)"
  by (rule EvaluateRollout_state)

text \<open>A rollout reported complete leaves no pod of an older replica set: the pods that are
  not of the current template, those counted in the total but not among the updated ones,
  number zero, and all the desired pods are ready and available in a generation the
  controller has observed.\<close>

lemma complete_means_no_old_pod:
  assumes "Eval_State (EvaluateRollout dep) = RolloutComplete"
  shows "Status_Replicas dep - UpdatedReplicas dep = 0 \<and>
    ReadyReplicas dep = desired_replicas dep \<and> AvailableReplicas dep = desired_replicas dep \<and>
    Generation dep \<le> ObservedGeneration dep"
  using assms by (auto simp: EvaluateRollout_state observed_def all_new_def split: if_splits)

definition sample_deployment :: Deployment where
  "sample_deployment =
     \<lparr>Generation = 4, Spec_Replicas = Some 2, ProgressDeadlineSeconds = Some 600,
      Containers = [\<lparr>Container_Name = ''api'', Container_Image = ''api:v2''\<rparr>],
      ObservedGeneration = 4, Status_Replicas = 2, UpdatedReplicas = 2, ReadyReplicas = 2,
      AvailableReplicas = 2, Conditions = []\<rparr>"

lemma sample_complete: "Eval_State (EvaluateRollout sample_deployment) = RolloutComplete"
  by (simp add: EvaluateRollout_def sample_deployment_def getCondition_def)

text \<open>A deadline condition left over from an earlier rollout never fails a fresh one: while
  the observed generation lags behind the spec's, the rollout counts as progressing whatever
  the conditions and counters say.\<close>

lemma stale_status_is_progressing:
  assumes "ObservedGeneration dep < Generation dep"
  shows "Eval_State (EvaluateRollout dep) = RolloutProgressing \<and>
    Eval_Reason (EvaluateRollout dep) = progress_line dep"
  using assms by (auto simp: EvaluateRollout_def Let_def split: option.splits)

end
