(* ===== verification/Notify_Format.thy ===== *)
theory Notify_Format
  imports Store
begin

text \<open>
  \<^verbatim>\<open>internal/notify/format.go\<close>: rendering an operation as a Telegram HTML message, and the
  two methods of \<^verbatim>\<open>time.Duration\<close> it uses. Non-ASCII characters are their UTF-8 bytes.
\<close>

section \<open>Durations\<close>

text \<open>\<^verbatim>\<open>Duration.Round\<close> for a positive \<open>m\<close>: half away from zero, saturating at \<^verbatim>\<open>int64\<close>.\<close>

definition Duration_Round :: "duration \<Rightarrow> duration \<Rightarrow> duration" where
  "Duration_Round d m =
     (if m \<le> 0 then d
      else if d < 0 then
        let r = (- d) mod m in
        if 2 * r < m then d + r
        else if - (2 ^ 63) \<le> d - m + r then d - m + r else - (2 ^ 63)
      else
        let r = d mod m in
        if 2 * r < m then d - r
        else if d + m - r < 2 ^ 63 then d + m - r else 2 ^ 63 - 1)"

definition pad_digits :: "nat \<Rightarrow> nat \<Rightarrow> string" where
  "pad_digits k n = replicate (k - length (digits_of n)) (CHR ''0'') @ digits_of n"

definition strip_zeros :: "string \<Rightarrow> string" where
  "strip_zeros s = rev (dropWhile (\<lambda>c. c = CHR ''0'') (rev s))"

text \<open>The fractional part of \<open>n / 10\<^sup>k\<close>, without trailing zeros.\<close>

definition frac_part :: "nat \<Rightarrow> nat \<Rightarrow> string" where
  "frac_part k n =
     (let f = strip_zeros (pad_digits k (n mod 10 ^ k)) in if f = [] then [] else ''.'' @ f)"

definition Duration_String :: "duration \<Rightarrow> string" where
  "Duration_String d =
     (let u = nat \<bar>d\<bar>; sign = (if d < 0 then ''-'' else '''') in
      if u = 0 then ''0s''
      else if u < 1000 then sign @ digits_of u @ ''ns''
      else if u < 1000000 then
        sign @ digits_of (u div 1000) @ frac_part 3 u @ [CHR 0xC2, CHR 0xB5, CHR ''s'']
      else if u < 1000000000 then sign @ digits_of (u div 1000000) @ frac_part 6 u @ ''ms''
      else
        let s = u div 1000000000; m = s div 60; h = m div 60 in
        sign @ (if h > 0 then digits_of h @ ''h'' else '''') @
        (if m > 0 then digits_of (m mod 60) @ ''m'' else '''') @
        digits_of (s mod 60) @ frac_part 9 u @ ''s'')"

section \<open>Escaping\<close>

definition esc_byte :: "char \<Rightarrow> string" where
  "esc_byte c =
     (if c = CHR ''&'' then ''&amp;'' else if c = CHR ''<'' then ''&lt;''
      else if c = CHR ''>'' then ''&gt;'' else [c])"

definition esc :: "string \<Rightarrow> string" where
  "esc s = concat (map esc_byte s)"

section \<open>Rendering\<close>

definition marker :: "OperationStatus \<Rightarrow> string" where
  "marker status =
     (if status = StatusSucceeded then [CHR 0xE2, CHR 0x9C, CHR 0x85]
      else if status = StatusFailed then [CHR 0xE2, CHR 0x9D, CHR 0x8C]
      else if status = StatusTimeout then [CHR 0xE2, CHR 0x8F, CHR 0xB1]
      else [CHR 0xF0, CHR 0x9F, CHR 0x9F, CHR 0xA1])"

definition dot :: string where
  "dot = '' '' @ [CHR 0xC2, CHR 0xB7] @ '' ''"

definition dash :: string where
  "dash = '' '' @ [CHR 0xE2, CHR 0x80, CHR 0x94] @ '' ''"

definition quote :: string where
  "quote = [CHR 0x22]"

definition runLink :: "Operation \<Rightarrow> string" where
  "runLink op =
     (if Op_RunID op = '''' \<or> Op_Repository op = '''' then ''''
      else
        let url = ''https://github.com/'' @ Op_Repository op @ ''/actions/runs'' @ ''/'' @ Op_RunID op @
              (if Op_RunAttempt op \<noteq> '''' then ''/attempts/'' @ Op_RunAttempt op else '''')
        in ''<a href='' @ quote @ esc url @ quote @ ''>run #'' @ esc (Op_RunID op) @ ''</a>'')"

definition elapsed :: "Operation \<Rightarrow> string" where
  "elapsed op =
     (case Op_CompletedAt op of
        None \<Rightarrow> ''''
      | Some t \<Rightarrow> Duration_String (Duration_Round (time_Sub t (Op_RequestedAt op)) Second))"

definition render_title :: "Operation \<Rightarrow> string" where
  "render_title op =
     marker (Op_Status op) @ '' <b>'' @ esc (TrimPrefix (Op_Action op) ''deployment.'') @ ''</b>'' @ dot @
     esc (Op_Namespace op @ ''/'' @ Op_Deployment op) @
     (if Op_ErrorCode op \<noteq> '''' then dash @ esc (Op_ErrorCode op) else '''')"

definition render_who :: "Operation \<Rightarrow> string" where
  "render_who op =
     ''@'' @ esc (Op_Actor op) @ (let link = runLink op in if link \<noteq> '''' then dot @ link else '''')"

definition render :: "Operation \<Rightarrow> string" where
  "render op =
     Join
       ([render_title op] @
        (if Op_Image op \<noteq> '''' then [''<code>'' @ esc (Op_Image op) @ ''</code>''] else []) @
        (if Op_ErrorMessage op \<noteq> '''' then [esc (Op_ErrorMessage op)] else []) @
        [render_who op] @
        (let d = elapsed op in
         if d \<noteq> '''' then [d @ dot @ ''<code>'' @ esc (Op_OperationID op) @ ''</code>''] else []))
       [CHR 0x0A]"

section \<open>Escaping is faithful and closes markup\<close>

lemma esc_simps [simp]:
  "esc [] = []"
  "esc (s @ t) = esc s @ esc t"
  "esc (c # s) = esc_byte c @ esc s"
  by (simp_all add: esc_def)

lemma esc_no_markup: "CHR ''<'' \<notin> set (esc s) \<and> CHR ''>'' \<notin> set (esc s)"
  by (induction s) (auto simp: esc_byte_def)

text \<open>How Telegram reads text back: the three entities stand for their characters.\<close>

fun unesc :: "string \<Rightarrow> string" where
  "unesc [] = []"
| "unesc (c # s) =
     (if c \<noteq> CHR ''&'' then c # unesc s
      else if HasPrefix s ''amp;'' then CHR ''&'' # unesc (drop 4 s)
      else if HasPrefix s ''lt;'' then CHR ''<'' # unesc (drop 3 s)
      else if HasPrefix s ''gt;'' then CHR ''>'' # unesc (drop 3 s)
      else CHR ''&'' # unesc s)"

text \<open>The opening angle brackets of a text are its tags.\<close>

abbreviation tags :: "string \<Rightarrow> nat" where
  "tags s \<equiv> count_list s (CHR ''<'')"

lemma tags_esc [simp]: "tags (esc s) = 0"
  using esc_no_markup count_list_zero by metis

lemma digits_of_plain: "CHR ''<'' \<notin> set (digits_of n)"
proof (induction n rule: digits_of.induct)
  case (1 n)
  have no: "CHR ''<'' \<noteq> char_of (48 + k)" if "k < 10" for k :: nat
  proof
    assume "CHR ''<'' = char_of (48 + k)"
    then have "(of_char (char_of (48 + k) :: char) :: nat) = of_char CHR ''<''" by simp
    with that show False by (simp add: of_char_of)
  qed
  show ?case using 1 no [of n] no [of "n mod 10"] by (subst digits_of.simps) auto
qed

lemma tags_digits [simp]: "tags (digits_of n) = 0"
  by (simp add: count_list_zero digits_of_plain)

lemma tags_frac [simp]: "tags (frac_part k n) = 0"
  by (auto simp: count_list_zero frac_part_def strip_zeros_def pad_digits_def Let_def digits_of_plain
      dest: set_dropWhileD)

lemma tags_duration [simp]: "tags (Duration_String d) = 0"
  by (simp add: Duration_String_def Let_def)

lemma tags_elapsed [simp]: "tags (elapsed op) = 0"
  by (simp add: elapsed_def split: option.splits)

lemma tags_marker [simp]: "tags (marker st) = 0"
  by (simp add: marker_def)

lemma tags_dot [simp]: "tags dot = 0" and tags_dash [simp]: "tags dash = 0"
  by (simp_all add: dot_def dash_def)

lemma tags_runLink:
  "tags (runLink op) = (if Op_RunID op = '''' \<or> Op_Repository op = '''' then 0 else 2)"
  by (simp add: runLink_def quote_def Let_def del: esc_simps(2,3))

lemma runLink_empty: "runLink op = '''' \<longleftrightarrow> Op_RunID op = '''' \<or> Op_Repository op = ''''"
  by (simp add: runLink_def Let_def)

lemma Duration_String_nonempty: "Duration_String d \<noteq> ''''"
  by (simp add: Duration_String_def Let_def)

lemma elapsed_empty: "elapsed op = '''' \<longleftrightarrow> Op_CompletedAt op = None"
  by (simp add: elapsed_def Duration_String_nonempty split: option.splits)

lemma tags_Join:
  assumes "tags sep = 0"
  shows "tags (Join xs sep) = sum_list (map tags xs)"
  using assms by (induction xs sep rule: Join.induct) auto

section \<open>Properties\<close>


text \<open>Escaping loses nothing: reading the three entities back gives the original text, so the
  chat shows every field exactly as it was.\<close>

lemma esc_roundtrip: "unesc (esc s) = s"
  by (induction s) (auto simp: esc_byte_def HasPrefix_def)

end
