(* ===== verification/Go_Http.thy ===== *)
theory Go_Http
  imports Go_Time
begin

text \<open>
  What the program uses of \<^verbatim>\<open>encoding/json\<close> and \<^verbatim>\<open>net/http\<close>. A body is the JSON value it
  parses to, or \<^const>\<open>None\<close> when it is not JSON; the decoding of a value into a Go struct is
  written out (case-insensitive field names, null leaves a field alone, a value of another
  type is an error that does not stop the decoding of the other fields). The remote server
  is a parameter that answers each request as it likes and says how long it took; the
  timeout of the client and the deadline of the context cut the answer off.
\<close>

section \<open>JSON values\<close>

datatype json =
    JNull
  | JBool bool
  | JInt int
  | JFloat string
  | JStr string
  | JArr "json list"
  | JObj "(string \<times> json) list"

definition json_error :: go_error where
  "json_error = Typed ''UnmarshalTypeError'' ''json: cannot unmarshal''"

definition json_syntax_error :: go_error where
  "json_syntax_error = Typed ''SyntaxError'' ''invalid character''"

text \<open>
  Case folding of member names: besides the ASCII letters, the Kelvin sign folds to k and the
  long s to s, the only non-ASCII characters that fold to ASCII ones.
\<close>

fun fold_name :: "string \<Rightarrow> string" where
  "fold_name (a # b # c # s) =
     (if a = CHR 0xE2 \<and> b = CHR 0x84 \<and> c = CHR 0xAA then CHR ''k'' # fold_name s
      else if a = CHR 0xC5 \<and> b = CHR 0xBF then CHR ''s'' # fold_name (c # s)
      else lower_byte a # fold_name (b # c # s))"
| "fold_name [a, b] =
     (if a = CHR 0xC5 \<and> b = CHR 0xBF then ''s'' else [lower_byte a, lower_byte b])"
| "fold_name [a] = [lower_byte a]"
| "fold_name [] = []"

definition field_is :: "string \<Rightarrow> string \<Rightarrow> bool" where
  "field_is f key \<longleftrightarrow> key = f \<or> fold_name key = fold_name f"

section \<open>Decoding into structs\<close>

text \<open>
  Decoding one field of a struct is a fold over the members of the object; \<open>into\<close> decodes a
  value into the field's current content. The first error is kept to the end.
\<close>

fun dec_members :: "('v \<Rightarrow> json \<Rightarrow> 'v result) \<Rightarrow> string \<Rightarrow> (string \<times> json) list \<Rightarrow> 'v result \<Rightarrow> 'v result" where
  "dec_members into f [] acc = acc"
| "dec_members into f ((k, j) # ms) acc =
     dec_members into f ms
       (if field_is f k then (case acc of Inl e \<Rightarrow> Inl e | Inr v \<Rightarrow> into v j) else acc)"

definition dec_field :: "('v \<Rightarrow> json \<Rightarrow> 'v result) \<Rightarrow> string \<Rightarrow> 'v \<Rightarrow> json \<Rightarrow> 'v result" where
  "dec_field into f zero j =
     (case j of JObj ms \<Rightarrow> dec_members into f ms (Inr zero) | JNull \<Rightarrow> Inr zero | _ \<Rightarrow> Inl json_error)"

definition set_str :: "string \<Rightarrow> json \<Rightarrow> string result" where
  "set_str v j = (case j of JStr s \<Rightarrow> Inr s | JNull \<Rightarrow> Inr v | _ \<Rightarrow> Inl json_error)"

definition set_bool :: "bool \<Rightarrow> json \<Rightarrow> bool result" where
  "set_bool v j = (case j of JBool b \<Rightarrow> Inr b | JNull \<Rightarrow> Inr v | _ \<Rightarrow> Inl json_error)"

definition set_int64 :: "int \<Rightarrow> json \<Rightarrow> int result" where
  "set_int64 v j =
     (case j of
        JInt n \<Rightarrow> if - (2 ^ 63) \<le> n \<and> n < 2 ^ 63 then Inr n else Inl json_error
      | JNull \<Rightarrow> Inr v
      | _ \<Rightarrow> Inl json_error)"

abbreviation str_field :: "string \<Rightarrow> json \<Rightarrow> string result" where
  "str_field f j \<equiv> dec_field set_str f '''' j"

text \<open>Slices: null is the empty slice, and an error in an element is the error of the whole.\<close>

fun dec_elems :: "(json \<Rightarrow> 'v result) \<Rightarrow> json list \<Rightarrow> 'v list result" where
  "dec_elems d [] = Inr []"
| "dec_elems d (j # js) =
     (case d j of
        Inl e \<Rightarrow> Inl e
      | Inr v \<Rightarrow> (case dec_elems d js of Inl e \<Rightarrow> Inl e | Inr vs \<Rightarrow> Inr (v # vs)))"

definition dec_slice :: "(json \<Rightarrow> 'v result) \<Rightarrow> json \<Rightarrow> 'v list result" where
  "dec_slice d j = (case j of JArr js \<Rightarrow> dec_elems d js | JNull \<Rightarrow> Inr [] | _ \<Rightarrow> Inl json_error)"

text \<open>A \<^verbatim>\<open>map[string][]string\<close>: member names are taken as they are, later members win.\<close>

definition dec_strings :: "json \<Rightarrow> string list result" where
  "dec_strings = dec_slice (set_str '''')"

fun set_str_map_members ::
  "(string \<Rightarrow> string list option) \<Rightarrow> (string \<times> json) list \<Rightarrow> (string \<Rightarrow> string list option) result" where
  "set_str_map_members m [] = Inr m"
| "set_str_map_members m ((k, j) # ms) =
     (case dec_strings j of
        Inl e \<Rightarrow> Inl e
      | Inr v \<Rightarrow> set_str_map_members (m(k \<mapsto> v)) ms)"

definition set_str_map ::
  "(string \<Rightarrow> string list option) \<Rightarrow> json \<Rightarrow> (string \<Rightarrow> string list option) result" where
  "set_str_map m j =
     (case j of JObj ms \<Rightarrow> set_str_map_members m ms | JNull \<Rightarrow> Inr Map.empty | _ \<Rightarrow> Inl json_error)"

text \<open>\<^verbatim>\<open>json.Unmarshal\<close> and \<^verbatim>\<open>Decoder.Decode\<close> of a body\<close>

definition unmarshal :: "(json \<Rightarrow> 'v result) \<Rightarrow> json option \<Rightarrow> 'v result" where
  "unmarshal d body = (case body of None \<Rightarrow> Inl json_syntax_error | Some j \<Rightarrow> d j)"

section \<open>HTTP\<close>

datatype http_body = NoBody | FormBody "(string \<times> string) list" | JsonBody json

record http_request =
  hr_verb :: string
  hr_url :: string
  hr_auth :: string
  hr_ctype :: string
  hr_body :: http_body

text \<open>
  What a server does with a request: fail the exchange after some nanoseconds, or answer
  with a status after \<open>hdr\<close> nanoseconds and a body that takes another \<open>len\<close>; the last field
  is a failure while the body is read. Failures carry the text of an error of the network; the
  verb and URL that \<^verbatim>\<open>*url.Error\<close> puts before it are left out.
\<close>

datatype http_answer =
    NetFail nat string
  | Answer int nat "json option" nat "string option"

type_synonym 'h http_server = "time \<Rightarrow> http_request \<Rightarrow> 'h \<Rightarrow> http_answer \<times> 'h"

text \<open>
  The surroundings of an HTTP client: the server behind its transport, and which URLs
  \<^verbatim>\<open>http.NewRequest\<close> accepts.
\<close>

record 'h http_env =
  he_server :: "'h http_server"
  he_url_ok :: "string \<Rightarrow> bool"

record http_response =
  resp_status :: int
  resp_body :: "json option"
  resp_readErr :: "go_error option"

text \<open>
  The instant at which the client gives up: the client's timeout (none when it is not
  positive) or the end of the context.
\<close>

definition give_up_at :: "duration \<Rightarrow> go_context \<Rightarrow> time \<Rightarrow> time option" where
  "give_up_at timeout ctx now =
     (if timeout > 0 then WithTimeout ctx timeout now else ctx)"

definition too_late :: "time option \<Rightarrow> time \<Rightarrow> bool" where
  "too_late limit t = (case limit of None \<Rightarrow> False | Some l \<Rightarrow> l < t)"

definition cut :: "time option \<Rightarrow> time \<Rightarrow> time" where
  "cut limit t = (case limit of None \<Rightarrow> t | Some l \<Rightarrow> min l t)"

text \<open>
  \<^verbatim>\<open>client.Do\<close> followed by reading the whole body: the exchange with the server that starts at \<open>now\<close>, and
  the instant at which the caller has its result. \<open>http_Do\<close> is the call on the process clock.
\<close>

definition http_exchange ::
  "'h http_server \<Rightarrow> duration \<Rightarrow> go_context \<Rightarrow> http_request \<Rightarrow> time \<Rightarrow> 'h \<Rightarrow>
     http_response result \<times> time \<times> 'h" where
  "http_exchange srv timeout ctx req now h =
     (let limit = give_up_at timeout ctx now in
       if ctx_done ctx now then (Inl context_DeadlineExceeded, now, h)
       else
         (case srv now req h of (ans, h1) \<Rightarrow>
           (case ans of
              NetFail n msg \<Rightarrow>
                (Inl (if too_late limit (now + int n) then context_DeadlineExceeded else Errorf msg),
                 cut limit (now + int n), h1)
            | Answer status hdr body len readErr \<Rightarrow>
                if too_late limit (now + int hdr)
                then (Inl context_DeadlineExceeded, cut limit (now + int hdr), h1)
                else if too_late limit (now + int hdr + int len)
                then (Inr \<lparr>resp_status = status, resp_body = None,
                           resp_readErr = Some context_DeadlineExceeded\<rparr>,
                      cut limit (now + int hdr + int len), h1)
                else (Inr \<lparr>resp_status = status, resp_body = body, resp_readErr = map_option Errorf readErr\<rparr>,
                      now + int hdr + int len, h1))))"

definition http_Do ::
  "'h http_server \<Rightarrow> duration \<Rightarrow> go_context \<Rightarrow> http_request \<Rightarrow> clock \<times> 'h \<Rightarrow>
     http_response result \<times> (clock \<times> 'h)" where
  "http_Do srv timeout ctx req st =
     (case st of (c, h) \<Rightarrow>
       (case http_exchange srv timeout ctx req (clk_now c) h of (r, t, h1) \<Rightarrow> (r, (advance_to t c, h1))))"

lemma cut_le: "limit = Some l \<Longrightarrow> cut limit t \<le> l"
  by (simp add: cut_def)

lemma http_Do_mono [clk_mono]:
  "http_Do srv timeout ctx req (c, h) = (r, c', h') \<Longrightarrow> clk_now c \<le> clk_now c'"
  by (auto simp: http_Do_def split: prod.splits)

lemma http_exchange_by:
  assumes "http_exchange srv timeout ctx req now h = (r, t, h')" and "give_up_at timeout ctx now = Some m"
  shows "t \<le> max m now"
  using assms
  by (auto simp: http_exchange_def Let_def too_late_def cut_def split: if_splits prod.splits http_answer.splits)

lemma http_exchange_within_context:
  assumes "http_exchange srv timeout (Some l) req now h = (r, t, h')"
  shows "t \<le> max l now"
proof -
  obtain m where "give_up_at timeout (Some l) now = Some m" and "m \<le> l"
    by (cases "0 < timeout") (auto simp: give_up_at_def WithTimeout_def)
  with http_exchange_by [OF assms] show ?thesis by auto
qed

lemma http_Do_within_context:
  assumes "http_Do srv timeout (Some l) req (c, h) = (r, c', h')"
  shows "clk_now c' \<le> max l (clk_now c)"
  using assms http_exchange_within_context
  by (fastforce simp: http_Do_def advance_to_def split: prod.splits)

lemma http_Do_within_timeout:
  assumes "http_Do srv timeout ctx req (c, h) = (r, c', h')" and "timeout > 0"
  shows "clk_now c' \<le> clk_now c + timeout"
proof -
  obtain m where "give_up_at timeout ctx (clk_now c) = Some m" and "m \<le> clk_now c + timeout"
    using assms(2) by (cases ctx) (auto simp: give_up_at_def WithTimeout_def)
  moreover obtain t where "http_exchange srv timeout ctx req (clk_now c) h = (r, t, h')" "c' = advance_to t c"
    using assms(1) by (auto simp: http_Do_def split: prod.splits)
  ultimately show ?thesis using http_exchange_by assms(2) by (fastforce simp: advance_to_def)
qed

end
