(* ===== verification/Notify.thy ===== *)
theory Notify
  imports Notify_Format Go_Http
begin

text \<open>
  \<^verbatim>\<open>internal/notify/notify.go\<close> and \<^verbatim>\<open>telegram.go\<close>: the \<^verbatim>\<open>Notifier\<close> interface, the Telegram
  notifier with its background sends, and the Bot API transport with its retries. A
  \<^verbatim>\<open>*Message\<close> is an index into the heap of handles; a handle that is settled records when its
  channel was closed and the message id. Starting a goroutine appends a job; the job's body
  is a function of the clock, the server and the heap. The bot token is part of the URL.
\<close>

section \<open>The Bot API transport\<close>

definition sendTimeout :: duration where "sendTimeout = 5 * Second"
definition callTimeout :: duration where "callTimeout = 30 * Second"
definition maxAttempts :: nat where "maxAttempts = 3"

record transport =
  tp_baseURL :: string
  tp_token :: string
  tp_retryBase :: duration

definition newTransport :: "string \<Rightarrow> string \<Rightarrow> transport" where
  "newTransport baseURL token =
     \<lparr>tp_baseURL = TrimSuffix baseURL ''/'', tp_token = token, tp_retryBase = Second\<rparr>"

record apiResponse =
  api_OK :: bool
  api_MessageID :: int
  api_Description :: string
  api_RetryAfter :: int

text \<open>A struct inside a struct: each member of that name decodes into the same field.\<close>

definition set_inner :: "('v \<Rightarrow> json \<Rightarrow> 'v result) \<Rightarrow> string \<Rightarrow> 'v \<Rightarrow> json \<Rightarrow> 'v result" where
  "set_inner into f v j = dec_field into f v j"

definition dec_apiResponse :: "json \<Rightarrow> apiResponse result" where
  "dec_apiResponse j =
     (case dec_field set_bool ''ok'' False j of
        Inl e \<Rightarrow> Inl e
      | Inr ok \<Rightarrow>
     (case dec_field (set_inner set_int64 ''message_id'') ''result'' 0 j of
        Inl e \<Rightarrow> Inl e
      | Inr mid \<Rightarrow>
     (case str_field ''description'' j of
        Inl e \<Rightarrow> Inl e
      | Inr desc \<Rightarrow>
     (case dec_field (set_inner set_int64 ''retry_after'') ''parameters'' 0 j of
        Inl e \<Rightarrow> Inl e
      | Inr ra \<Rightarrow>
          Inr \<lparr>api_OK = ok, api_MessageID = mid, api_Description = desc, api_RetryAfter = ra\<rparr>))))"

text \<open>
  One attempt: the decoded envelope (absent on an error), the HTTP status (0 when no response
  arrived) and the error.
\<close>

definition once ::
  "'h http_env \<Rightarrow> transport \<Rightarrow> go_context \<Rightarrow> string \<Rightarrow> json \<Rightarrow> clock \<times> 'h \<Rightarrow>
     (apiResponse option \<times> int \<times> go_error option) \<times> (clock \<times> 'h)" where
  "once env tp ctx verb payload st =
     (let url = tp_baseURL tp @ ''/bot'' @ tp_token tp @ ''/'' @ verb in
      if \<not> he_url_ok env url
      then ((None, 0, Some (Errorf (''telegram '' @ verb @ '': build request''))), st)
      else
        (case http_Do (he_server env) sendTimeout ctx
            \<lparr>hr_verb = ''POST'', hr_url = url, hr_auth = '''', hr_ctype = ''application/json'',
             hr_body = JsonBody payload\<rparr> st of
           (Inl e, st1) \<Rightarrow>
             ((None, 0, Some (Errorf (''telegram '' @ verb @ '': request failed''))), st1)
         | (Inr resp, st1) \<Rightarrow>
             (case (case resp_readErr resp of
                      Some e \<Rightarrow> Inl e
                    | None \<Rightarrow> unmarshal dec_apiResponse (resp_body resp)) of
                Inl e \<Rightarrow>
                  ((None, resp_status resp,
                    Some (Wrapf (''telegram '' @ verb @ '': decode response: '') e '''')), st1)
              | Inr out \<Rightarrow> ((Some out, resp_status resp, None), st1))))"

text \<open>
  The retry loop: \<open>n\<close> attempts are left, so this is attempt number \<open>maxAttempts - n + 1\<close>. The
  loop returns on its last attempt at the latest; the first equation is never reached from
  \<open>call\<close>. The retry delay asked for by the server is multiplied in 64 bits.
\<close>

fun call_loop ::
  "'h http_env \<Rightarrow> transport \<Rightarrow> go_context \<Rightarrow> string \<Rightarrow> json \<Rightarrow> nat \<Rightarrow> go_error \<Rightarrow> clock \<times> 'h \<Rightarrow>
     apiResponse result \<times> (clock \<times> 'h)" where
  "call_loop env tp ctx verb payload 0 lastErr st = (Inl lastErr, st)"
| "call_loop env tp ctx verb payload (Suc n) lastErr st =
     (case once env tp ctx verb payload st of ((resp, status, err), c, h) \<Rightarrow>
       (case resp of
          Some r \<Rightarrow>
            if err = None \<and> status = 200 \<and> api_OK r then (Inr r, c, h)
            else
              let lastErr' = (case err of Some e \<Rightarrow> e
                | None \<Rightarrow> Errorf (''telegram '' @ verb @ '': status '' @ itoa status @ '': '' @
                    api_Description r));
                  retryable = (err \<noteq> None \<or> status = 429 \<or> status \<ge> 500);
                  attempt = maxAttempts - n;
                  delay = (if api_RetryAfter r > 0 then wrap64 (api_RetryAfter r * Second)
                           else int attempt * tp_retryBase tp)
              in if \<not> retryable \<or> n = 0 then (Inl lastErr', c, h)
                 else (case sleepCtx ctx delay c of (ok, c1) \<Rightarrow>
                        if \<not> ok then (Inl lastErr', c1, h)
                        else call_loop env tp ctx verb payload n lastErr' (c1, h))
        | None \<Rightarrow>
            let lastErr' = (case err of Some e \<Rightarrow> e | None \<Rightarrow> lastErr);
                attempt = maxAttempts - n
            in if n = 0 then (Inl lastErr', c, h)
               else (case sleepCtx ctx (int attempt * tp_retryBase tp) c of (ok, c1) \<Rightarrow>
                      if \<not> ok then (Inl lastErr', c1, h)
                      else call_loop env tp ctx verb payload n lastErr' (c1, h))))"

definition tg_call ::
  "'h http_env \<Rightarrow> transport \<Rightarrow> go_context \<Rightarrow> string \<Rightarrow> json \<Rightarrow> clock \<times> 'h \<Rightarrow>
     apiResponse result \<times> (clock \<times> 'h)" where
  "tg_call env tp ctx verb payload st =
     call_loop env tp ctx verb payload maxAttempts (Errorf '''') st"

definition send ::
  "'h http_env \<Rightarrow> transport \<Rightarrow> go_context \<Rightarrow> string \<Rightarrow> string \<Rightarrow> clock \<times> 'h \<Rightarrow>
     (int \<times> go_error option) \<times> (clock \<times> 'h)" where
  "send env tp ctx chatID txt st =
     (case tg_call env tp ctx ''sendMessage''
        (JObj [(''chat_id'', JStr chatID), (''text'', JStr txt), (''parse_mode'', JStr ''HTML''),
               (''disable_web_page_preview'', JBool True)]) st of
        (Inl e, st1) \<Rightarrow> ((0, Some e), st1)
      | (Inr r, st1) \<Rightarrow> ((api_MessageID r, None), st1))"

definition edit ::
  "'h http_env \<Rightarrow> transport \<Rightarrow> go_context \<Rightarrow> string \<Rightarrow> int \<Rightarrow> string \<Rightarrow> clock \<times> 'h \<Rightarrow>
     go_error option \<times> (clock \<times> 'h)" where
  "edit env tp ctx chatID messageID txt st =
     (case tg_call env tp ctx ''editMessageText''
        (JObj [(''chat_id'', JStr chatID), (''message_id'', JInt messageID), (''text'', JStr txt),
               (''parse_mode'', JStr ''HTML''), (''disable_web_page_preview'', JBool True)]) st of
        (Inl e, st1) \<Rightarrow> (Some e, st1)
      | (Inr r, st1) \<Rightarrow> (None, st1))"

section \<open>The notifier interface\<close>

type_synonym msg_ref = "nat option"

record 'n notifier =
  Started :: "Operation \<Rightarrow> 'n \<Rightarrow> msg_ref \<times> 'n"
  Resolved :: "Operation \<Rightarrow> msg_ref \<Rightarrow> 'n \<Rightarrow> 'n"

definition Disabled :: "'n notifier" where
  "Disabled = \<lparr>Started = (\<lambda>op n. (None, n)), Resolved = (\<lambda>op msg n. n)\<rparr>"

section \<open>The Telegram notifier\<close>

text \<open>\<^verbatim>\<open>handleWait\<close>\<close>

definition handleWait :: duration where
  "handleWait = callTimeout + Second"

text \<open>A handle: when its channel was closed and with which id, once it is.\<close>

type_synonym message = "(time \<times> int) option"

datatype job =
    StartJob nat string string
  | ResolveJob msg_ref string string

record telegram =
  tg_heap :: "message list"
  tg_jobs :: "job list"

definition telegram_Started :: "Operation \<Rightarrow> telegram \<Rightarrow> msg_ref \<times> telegram" where
  "telegram_Started op t =
     (let msg = length (tg_heap t) in
      (Some msg, t\<lparr>tg_heap := tg_heap t @ [None],
                   tg_jobs := tg_jobs t @ [StartJob msg (Op_OperationID op) (render op)]\<rparr>))"

definition telegram_Resolved :: "Operation \<Rightarrow> msg_ref \<Rightarrow> telegram \<Rightarrow> telegram" where
  "telegram_Resolved op msg t =
     t\<lparr>tg_jobs := tg_jobs t @ [ResolveJob msg (Op_OperationID op) (render op)]\<rparr>"

definition telegram_notifier :: "telegram notifier" where
  "telegram_notifier = \<lparr>Started = telegram_Started, Resolved = telegram_Resolved\<rparr>"

record notify_Config =
  BotToken :: string
  ChatID :: string
  APIBase :: string

definition notify_New :: "notify_Config \<Rightarrow> telegram notifier \<times> transport option \<times> log" where
  "notify_New cfg =
     (if BotToken cfg = '''' \<or> ChatID cfg = ''''
      then (Disabled, None, [(LInfo, ''telegram notifications disabled'')])
      else
        let base = (if APIBase cfg = '''' then ''https://api.telegram.org'' else APIBase cfg) in
        (telegram_notifier, Some (newTransport base (BotToken cfg)),
         [(LInfo, ''telegram notifications enabled'')]))"

text \<open>\<^verbatim>\<open>settle\<close> closes the channel of a handle; closing it twice panics, which is \<^const>\<open>None\<close>.\<close>

definition settle :: "nat \<Rightarrow> int \<Rightarrow> time \<Rightarrow> message list \<Rightarrow> message list option" where
  "settle msg mid now heap =
     (if msg < length heap \<and> heap ! msg = None then Some (heap[msg := Some (now, mid)]) else None)"

text \<open>
  \<^verbatim>\<open>wait\<close>: the id once the handle is settled, or 0 for a nil handle and after the timeout. The
  handle is given as it will be: when its channel closes, if it does.
\<close>

definition wait :: "message option \<Rightarrow> duration \<Rightarrow> clock \<Rightarrow> int \<times> clock" where
  "wait handle timeout c =
     (case handle of
        None \<Rightarrow> (0, c)
      | Some m \<Rightarrow>
          let fire = clk_now c + timeout in
          (case m of
             None \<Rightarrow> (0, advance_to fire c)
           | Some (ready, mid) \<Rightarrow>
               if ready < fire then (mid, advance_to ready c)
               else if fire < ready then (0, advance_to fire c)
               else (if clk_pick c (clk_tick c) then mid else 0, advance_to fire c)))"

text \<open>The goroutine of \<^verbatim>\<open>Started\<close>\<close>

definition run_start ::
  "'h http_env \<Rightarrow> transport \<Rightarrow> string \<Rightarrow> nat \<Rightarrow> string \<Rightarrow> message list \<Rightarrow> clock \<times> 'h \<Rightarrow>
     (message list option \<times> log) \<times> (clock \<times> 'h)" where
  "run_start env tp chatID msg txt heap st =
     (case send env tp (WithTimeout Background callTimeout (clk_now (fst st))) chatID txt st of
        ((mid, err), c1, h1) \<Rightarrow>
          ((settle msg mid (clk_now c1) heap,
            (if err \<noteq> None then [(LWarn, ''telegram start notification failed'')] else [])), (c1, h1)))"

text \<open>The goroutine of \<^verbatim>\<open>Resolved\<close>\<close>

definition run_resolve ::
  "'h http_env \<Rightarrow> transport \<Rightarrow> string \<Rightarrow> message option \<Rightarrow> string \<Rightarrow> clock \<times> 'h \<Rightarrow>
     log \<times> (clock \<times> 'h)" where
  "run_resolve env tp chatID handle txt st =
     (case wait handle handleWait (fst st) of (mid, c1) \<Rightarrow>
       let ctx = WithTimeout Background callTimeout (clk_now c1) in
       if mid = 0 then
         (case send env tp ctx chatID txt (c1, snd st) of ((_, err), st2) \<Rightarrow>
           ((if err \<noteq> None then [(LWarn, ''telegram terminal notification failed'')] else []), st2))
       else
         (case edit env tp ctx chatID mid txt (c1, snd st) of (err, st2) \<Rightarrow>
           ((if err \<noteq> None then [(LWarn, ''telegram terminal edit failed'')] else []), st2)))"

section \<open>A call ends within its context\<close>

lemma once_within_context:
  assumes "once env tp (Some l) verb payload (c, h) = (r, c', h')"
  shows "clk_now c' \<le> max l (clk_now c)"
  using assms
  by (auto simp: once_def Let_def split: if_splits prod.splits sum.splits
      dest: http_Do_within_context)

lemma call_loop_within_context:
  assumes "call_loop env tp (Some l) verb payload n e (c, h) = (r, c', h')"
  shows "clk_now c' \<le> max l (clk_now c)"
  using assms
proof (induction n arbitrary: e c h)
  case (Suc n)
  obtain resp status err c1 h1
    where o: "once env tp (Some l) verb payload (c, h) = ((resp, status, err), c1, h1)"
    by (metis surj_pair)
  have c1: "clk_now c1 \<le> max l (clk_now c)" by (rule once_within_context [OF o])
  have sleep: "clk_now c2 \<le> max l (clk_now c)" if "sleepCtx (Some l) d c1 = (b, c2)" for d b c2
    using sleepCtx_within_context [OF that] c1 by simp
  have rec: "clk_now c' \<le> max l (clk_now c)"
    if "sleepCtx (Some l) d c1 = (b, c2)"
      and "call_loop env tp (Some l) verb payload n e' (c2, h1) = (r, c', h')" for d b c2 e'
    using Suc.IH [OF that(2)] sleep [OF that(1)] by simp
  show ?case using Suc.prems o c1
    by (auto simp: Let_def split: option.splits if_splits prod.splits intro: sleep rec)
qed simp

lemma send_within_context:
  assumes "send env tp (Some l) chatID txt (c, h) = (r, c', h')"
  shows "clk_now c' \<le> max l (clk_now c)"
  using assms
  by (auto simp: send_def tg_call_def split: prod.splits sum.splits dest: call_loop_within_context)

lemma start_settles:
  assumes "msg < length heap" and "heap ! msg = None"
    and "run_start env tp chatID msg txt heap (c, h) = ((heap', lg), c', h')"
  shows "\<exists>t mid. heap' = Some (heap[msg := Some (t, mid)]) \<and> t \<le> clk_now c + callTimeout"
proof -
  obtain mid err c1 h1
    where s: "send env tp (Some (clk_now c + callTimeout)) chatID txt (c, h) = ((mid, err), c1, h1)"
    by (metis surj_pair)
  have "clk_now c1 \<le> clk_now c + callTimeout"
    using send_within_context [OF s] by (simp add: callTimeout_def Second_def)
  then show ?thesis using assms s by (auto simp: run_start_def settle_def)
qed

section \<open>Properties\<close>

text \<open>C37. A start notification is over within the call budget: whatever the Bot API does (hang,
  fail, rate-limit with any retry delay), the background send settles its handle at most 30
  seconds after it began, and settles it exactly once.\<close>

theorem start_settles_within_callTimeout:
  assumes "msg < length heap" and "heap ! msg = None"
    and "run_start env tp chatID msg txt heap (c, h) = ((heap', lg), c', h')"
  shows "\<exists>t mid. heap' = Some (heap[msg := Some (t, mid)]) \<and> t \<le> clk_now c + callTimeout"
  using assms by (rule start_settles)

definition idle_clock :: "time \<Rightarrow> clock" where
  "idle_clock t = \<lparr>clk_now = t, clk_work = (\<lambda>_. 0), clk_pick = (\<lambda>_. True), clk_tick = 0\<rparr>"

definition hanging_server :: "unit http_env" where
  "hanging_server =
     \<lparr>he_server = (\<lambda>now req h. (NetFail (60 * 1000000000) ''timeout'', h)), he_url_ok = (\<lambda>_. True)\<rparr>"

theorem start_settles_within_callTimeout_witness:
  "\<exists>t mid. fst (fst (run_start hanging_server (newTransport ''https://t'' ''1:a'') ''-100'' 0 ''hi''
      [None] (idle_clock 0, ()))) = Some ([None][0 := Some (t, mid)]) \<and> t \<le> 0 + callTimeout"
proof -
  obtain heap' lg c' h' where r: "run_start hanging_server (newTransport ''https://t'' ''1:a'')
      ''-100'' 0 ''hi'' [None] (idle_clock 0, ()) = ((heap', lg), c', h')"
    by (metis surj_pair)
  have "(0::nat) < length [None :: message]" and "[None :: message] ! 0 = None" by simp_all
  from start_settles_within_callTimeout [OF this r] r show ?thesis by (simp add: idle_clock_def)
qed



end
