(* ===== verification/Go_Monad.thy ===== *)
theory Go_Monad
  imports Main "HOL-Library.State_Monad"
begin

text \<open>
  The state monad in which the components with effects are written, and a small logic of
  invariants for it.
\<close>

abbreviation pure :: "'r \<Rightarrow> ('w, 'r) state" where
  "pure \<equiv> State_Monad.return"

text \<open>A loop over a list in which every iteration runs to its end.\<close>

primrec each :: "('x \<Rightarrow> ('w, unit) state) \<Rightarrow> 'x list \<Rightarrow> ('w, unit) state" where
  "each f [] = pure ()"
| "each f (x # xs) = do { f x; each f xs }"

section \<open>Invariants with results\<close>

text \<open>
  \<open>keeps I a R\<close>: every run of \<open>a\<close> that starts in a state with \<open>I\<close> ends in one, with a result
  satisfying \<open>R\<close>. The continuation of a bind may rely on what the first action returned.
\<close>

definition keeps :: "('w \<Rightarrow> bool) \<Rightarrow> ('w, 'r) state \<Rightarrow> ('r \<Rightarrow> bool) \<Rightarrow> bool" where
  "keeps I a R \<longleftrightarrow> (\<forall>w x w'. I w \<longrightarrow> run_state a w = (x, w') \<longrightarrow> I w' \<and> R x)"

abbreviation any :: "'r \<Rightarrow> bool" where
  "any \<equiv> \<lambda>_. True"

lemma keepsD: "keeps I a R \<Longrightarrow> I w \<Longrightarrow> run_state a w = (x, w') \<Longrightarrow> I w' \<and> R x"
  unfolding keeps_def by blast

lemma keeps_pure: "R x \<Longrightarrow> keeps I (pure x) R"
  by (simp add: keeps_def)

lemma keeps_bind:
  assumes "keeps I a R" and "\<And>x. R x \<Longrightarrow> keeps I (f x) S"
  shows "keeps I (a \<bind> f) S"
  unfolding keeps_def
proof (intro allI impI)
  fix w x w'
  assume "I w" and run: "run_state (a \<bind> f) w = (x, w')"
  obtain y v where a: "run_state a w = (y, v)" by (rule prod.exhaust)
  from keepsD [OF assms(1) \<open>I w\<close> a] have "I v" and "R y" by auto
  moreover from run a have "run_state (f y) v = (x, w')" by simp
  ultimately show "I w' \<and> S x" using keepsD [OF assms(2)] by blast
qed

lemma keeps_weaken: "keeps I a R \<Longrightarrow> (\<And>x. R x \<Longrightarrow> S x) \<Longrightarrow> keeps I a S"
  by (simp add: keeps_def)

lemma keeps_if:
  "(p \<Longrightarrow> keeps I a R) \<Longrightarrow> (\<not> p \<Longrightarrow> keeps I b R) \<Longrightarrow> keeps I (if p then a else b) R"
  by simp

lemma keeps_sum:
  "(\<And>e. r = Inl e \<Longrightarrow> keeps I (f e) R) \<Longrightarrow> (\<And>x. r = Inr x \<Longrightarrow> keeps I (g x) R) \<Longrightarrow>
     keeps I (case r of Inl e \<Rightarrow> f e | Inr x \<Rightarrow> g x) R"
  by (cases r) auto

lemma keeps_option:
  "(opt = None \<Longrightarrow> keeps I a R) \<Longrightarrow> (\<And>x. opt = Some x \<Longrightarrow> keeps I (f x) R) \<Longrightarrow>
     keeps I (case opt of None \<Rightarrow> a | Some x \<Rightarrow> f x) R"
  by (cases opt) auto

lemma keeps_each: "(\<And>x. x \<in> set xs \<Longrightarrow> keeps I (f x) any) \<Longrightarrow> keeps I (each f xs) any"
  by (induction xs) (auto intro!: keeps_pure keeps_bind [where R = any])

lemma keeps_prod: "(\<And>x y. p = (x, y) \<Longrightarrow> keeps I (f x y) R) \<Longrightarrow> keeps I (case p of (x, y) \<Rightarrow> f x y) R"
  by (cases p) auto

lemma keeps_get: "(\<And>s. I s \<Longrightarrow> R (f s)) \<Longrightarrow> keeps I (State_Monad.State (\<lambda>s. (f s, s))) R"
  by (simp add: keeps_def)

end
