(* ===== verification/Runtime.thy ===== *)
theory Runtime
  imports Store Kube Notify Go_Monad
begin

text \<open>
  The process in which the manager and the request handlers run: the states of the store, of
  the cluster, of the notifier and of the authorizer, the clock, the supply of ULIDs, the log
  and the watcher goroutines that have been started. Code that acts on it is written in the
  state monad. A call to another component takes an arbitrary time.

  The locales at the end carry the proofs about effects: a preorder on process states that the
  elementary actions respect is respected by everything composed of them.
\<close>

record ('s, 'k, 'n, 'a) rt =
  rt_store :: 's
  rt_kube :: 'k
  rt_notify :: 'n
  rt_authz :: 'a
  rt_clock :: clock
  rt_ulid :: "nat \<Rightarrow> string"
  rt_ulids :: nat
  rt_log :: log
  rt_watchers :: "(Operation \<times> msg_ref) list"

type_synonym ('s, 'k, 'n, 'a, 'r) act = "(('s, 'k, 'n, 'a) rt, 'r) state"

section \<open>Elementary actions\<close>

definition store_call :: "('s \<Rightarrow> 'r \<times> 's) \<Rightarrow> ('s, 'k, 'n, 'a, 'r) act" where
  "store_call f = State_Monad.State (\<lambda>w. case f (rt_store w) of (r, s) \<Rightarrow>
     (r, w\<lparr>rt_store := s, rt_clock := elapse (rt_clock w)\<rparr>))"

text \<open>A store call that is told the instant at which it runs.\<close>

definition store_call_now :: "(time \<Rightarrow> 's \<Rightarrow> 'r \<times> 's) \<Rightarrow> ('s, 'k, 'n, 'a, 'r) act" where
  "store_call_now f = State_Monad.State (\<lambda>w. case f (clk_now (rt_clock w)) (rt_store w) of (r, s) \<Rightarrow>
     (r, w\<lparr>rt_store := s, rt_clock := elapse (rt_clock w)\<rparr>))"

definition kube_call :: "('k \<Rightarrow> 'r \<times> 'k) \<Rightarrow> ('s, 'k, 'n, 'a, 'r) act" where
  "kube_call f = State_Monad.State (\<lambda>w. case f (rt_kube w) of (r, k) \<Rightarrow>
     (r, w\<lparr>rt_kube := k, rt_clock := elapse (rt_clock w)\<rparr>))"

definition notify_call :: "('n \<Rightarrow> 'r \<times> 'n) \<Rightarrow> ('s, 'k, 'n, 'a, 'r) act" where
  "notify_call f = State_Monad.State (\<lambda>w. case f (rt_notify w) of (r, n) \<Rightarrow> (r, w\<lparr>rt_notify := n\<rparr>))"

definition authz_call :: "(clock \<times> 'a \<Rightarrow> 'r \<times> (clock \<times> 'a)) \<Rightarrow> ('s, 'k, 'n, 'a, 'r) act" where
  "authz_call f = State_Monad.State (\<lambda>w. case f (rt_clock w, rt_authz w) of (r, c, a) \<Rightarrow>
     (r, w\<lparr>rt_clock := c, rt_authz := a\<rparr>))"

definition time_Now :: "('s, 'k, 'n, 'a, time) act" where
  "time_Now = State_Monad.State (\<lambda>w. case Now (rt_clock w) of (t, c) \<Rightarrow> (t, w\<lparr>rt_clock := c\<rparr>))"

text \<open>The current instant without reading the clock as a step of its own: \<^verbatim>\<open>ctx.Err()\<close>.\<close>

definition ctx_Err :: "go_context \<Rightarrow> ('s, 'k, 'n, 'a, bool) act" where
  "ctx_Err ctx = State_Monad.State (\<lambda>w. (ctx_done ctx (clk_now (rt_clock w)), w))"

definition sleep :: "go_context \<Rightarrow> duration \<Rightarrow> ('s, 'k, 'n, 'a, bool) act" where
  "sleep ctx d = State_Monad.State (\<lambda>w. case sleepCtx ctx d (rt_clock w) of (b, c) \<Rightarrow> (b, w\<lparr>rt_clock := c\<rparr>))"

definition next_ulid :: "('s, 'k, 'n, 'a, string) act" where
  "next_ulid = State_Monad.State (\<lambda>w. (rt_ulid w (rt_ulids w), w\<lparr>rt_ulids := Suc (rt_ulids w)\<rparr>))"

definition log_line :: "level \<Rightarrow> string \<Rightarrow> ('s, 'k, 'n, 'a, unit) act" where
  "log_line l msg = State_Monad.State (\<lambda>w. ((), w\<lparr>rt_log := rt_log w @ [(l, msg)]\<rparr>))"

text \<open>\<^verbatim>\<open>go m.watchRollout(op, msg)\<close>\<close>

definition go_watch :: "Operation \<Rightarrow> msg_ref \<Rightarrow> ('s, 'k, 'n, 'a, unit) act" where
  "go_watch op msg = State_Monad.State (\<lambda>w. ((), w\<lparr>rt_watchers := rt_watchers w @ [(op, msg)]\<rparr>))"

lemma run_actions [simp]:
  "run_state (store_call f) w =
     (fst (f (rt_store w)), w\<lparr>rt_store := snd (f (rt_store w)), rt_clock := elapse (rt_clock w)\<rparr>)"
  "run_state (store_call_now g) w =
     (fst (g (clk_now (rt_clock w)) (rt_store w)),
      w\<lparr>rt_store := snd (g (clk_now (rt_clock w)) (rt_store w)), rt_clock := elapse (rt_clock w)\<rparr>)"
  "run_state (kube_call h) w =
     (fst (h (rt_kube w)), w\<lparr>rt_kube := snd (h (rt_kube w)), rt_clock := elapse (rt_clock w)\<rparr>)"
  "run_state (notify_call n) w = (fst (n (rt_notify w)), w\<lparr>rt_notify := snd (n (rt_notify w))\<rparr>)"
  "run_state time_Now w = (clk_now (rt_clock w), w\<lparr>rt_clock := elapse (rt_clock w)\<rparr>)"
  "run_state (ctx_Err ctx) w = (ctx_done ctx (clk_now (rt_clock w)), w)"
  "run_state next_ulid w = (rt_ulid w (rt_ulids w), w\<lparr>rt_ulids := Suc (rt_ulids w)\<rparr>)"
  "run_state (log_line l msg) w = ((), w\<lparr>rt_log := rt_log w @ [(l, msg)]\<rparr>)"
  "run_state (go_watch op m) w = ((), w\<lparr>rt_watchers := rt_watchers w @ [(op, m)]\<rparr>)"
  by (simp_all add: store_call_def store_call_now_def kube_call_def notify_call_def time_Now_def
      ctx_Err_def next_ulid_def log_line_def go_watch_def Now_def split: prod.splits)

lemma run_sleep:
  "run_state (sleep ctx d) w =
     (fst (sleepCtx ctx d (rt_clock w)), w\<lparr>rt_clock := snd (sleepCtx ctx d (rt_clock w))\<rparr>)"
  by (simp add: sleep_def split: prod.splits)

lemma run_authz_call:
  "run_state (authz_call f) w =
     (let (r, c, a) = f (rt_clock w, rt_authz w) in (r, w\<lparr>rt_clock := c, rt_authz := a\<rparr>))"
  by (simp add: authz_call_def split: prod.splits)

section \<open>Preorders on process states\<close>

text \<open>
  \<open>state_io_rel Q a\<close> says that every run of \<open>a\<close> ends in a state related to its start. For a
  preorder it follows the structure of the code.
\<close>

locale run_preorder =
  fixes Q :: "'w \<Rightarrow> 'w \<Rightarrow> bool"
  assumes run_refl: "Q w w"
    and run_trans: "Q u v \<Longrightarrow> Q v w \<Longrightarrow> Q u w"
begin

lemma io_pure: "state_io_rel Q (pure x)"
  by (auto simp: run_refl)

lemma io_bind:
  assumes "state_io_rel Q a" and "\<And>x. state_io_rel Q (f x)"
  shows "state_io_rel Q (a \<bind> f)"
proof (rule state_io_relI)
  fix r w w'
  assume "run_state (a \<bind> f) w = (r, w')"
  then obtain x v where "run_state a w = (x, v)" and "run_state (f x) v = (r, w')"
    by (auto split: prod.splits)
  then show "Q w w'" using assms run_trans by blast
qed

lemma io_if: "state_io_rel Q a \<Longrightarrow> state_io_rel Q b \<Longrightarrow> state_io_rel Q (if p then a else b)"
  by simp

lemma io_option:
  "state_io_rel Q a \<Longrightarrow> (\<And>x. state_io_rel Q (f x)) \<Longrightarrow>
     state_io_rel Q (case opt of None \<Rightarrow> a | Some x \<Rightarrow> f x)"
  by (cases opt) auto

lemma io_sum:
  "(\<And>e. state_io_rel Q (f e)) \<Longrightarrow> (\<And>x. state_io_rel Q (g x)) \<Longrightarrow>
     state_io_rel Q (case r of Inl e \<Rightarrow> f e | Inr x \<Rightarrow> g x)"
  by (cases r) auto

lemma io_state:
  "state_io_rel Q a \<Longrightarrow> state_io_rel Q b \<Longrightarrow> state_io_rel Q c \<Longrightarrow>
     state_io_rel Q (case s of RolloutProgressing \<Rightarrow> a | RolloutComplete \<Rightarrow> b | RolloutFailed \<Rightarrow> c)"
  by (cases s) auto

lemma io_list:
  "state_io_rel Q a \<Longrightarrow> (\<And>x ys. state_io_rel Q (f x ys)) \<Longrightarrow>
     state_io_rel Q (case xs of [] \<Rightarrow> a | x # ys \<Rightarrow> f x ys)"
  by (cases xs) auto

lemma io_prod:
  "(\<And>x y. state_io_rel Q (f x y)) \<Longrightarrow> state_io_rel Q (case p of (x, y) \<Rightarrow> f x y)"
  by (cases p) auto

lemma io_each: "(\<And>x. state_io_rel Q (f x)) \<Longrightarrow> state_io_rel Q (each f xs)"
  by (induction xs) (auto intro: io_pure io_bind)

lemmas io_rules = io_pure io_bind io_if io_option io_sum io_state io_list io_prod io_each

end

text \<open>Time does not run backwards.\<close>

definition later :: "('s, 'k, 'n, 'a) rt \<Rightarrow> ('s, 'k, 'n, 'a) rt \<Rightarrow> bool" where
  "later w w' \<longleftrightarrow> clk_now (rt_clock w) \<le> clk_now (rt_clock w')"

interpretation later: run_preorder later
  by unfold_locales (auto simp: later_def)

lemma later_actions [clk_mono]:
  "state_io_rel later (store_call f)" "state_io_rel later (store_call_now g)"
  "state_io_rel later (kube_call h)" "state_io_rel later (notify_call n)"
  "state_io_rel later time_Now" "state_io_rel later (ctx_Err ctx)" "state_io_rel later next_ulid"
  "state_io_rel later (log_line l msg)" "state_io_rel later (go_watch op m)"
  "state_io_rel later (sleep ctx d)"
  by (auto simp: later_def run_sleep intro!: state_io_relI dest: sleepCtx_mono)
    (metis prod.collapse sleepCtx_mono)

end
