(* ===== verification/Authn.thy ===== *)
theory Authn
  imports Go_Prelude
begin

text \<open>
  Package \<^verbatim>\<open>internal/authn\<close>: the identity in a GitHub OIDC token and the verifiers. Signature,
  issuer, audience and expiry are checked by go-oidc, the parameter \<open>verifyToken\<close>; its claims
  decoding is the parameter \<open>claimsOf\<close>.
\<close>

record GitHubIdentity =
  Id_Subject :: string
  Id_Repository :: string
  Id_RepositoryID :: string
  Id_RepositoryOwner :: string
  Id_Ref :: string
  Id_Workflow :: string
  Id_WorkflowRef :: string
  Id_Environment :: string
  Id_Actor :: string
  Id_EventName :: string
  Id_RunID :: string
  Id_RunAttempt :: string

text \<open>
  \<^verbatim>\<open>NewVerifier\<close>: \<open>newProvider\<close> is the discovery of go-oidc and \<open>verifierFor\<close> the token check of a provider
  for an audience.
\<close>

definition NewVerifier ::
  "(string \<Rightarrow> 'prov result) \<Rightarrow> ('prov \<Rightarrow> string \<Rightarrow> string \<Rightarrow> 'token result) \<Rightarrow> string \<Rightarrow> string \<Rightarrow>
     (string \<Rightarrow> 'token result) result" where
  "NewVerifier newProvider verifierFor issuer aud =
     (case newProvider issuer of
        Inl e \<Rightarrow> Inl (Wrapf ''oidc discovery: '' e '''')
      | Inr provider \<Rightarrow> Inr (verifierFor provider aud))"

definition Verifier_Verify ::
  "(string \<Rightarrow> 'token result) \<Rightarrow> ('token \<Rightarrow> GitHubIdentity result) \<Rightarrow> string \<Rightarrow> GitHubIdentity result" where
  "Verifier_Verify verifyToken claimsOf rawToken =
     (case verifyToken rawToken of
        Inl e \<Rightarrow> Inl (Wrapf ''verify token: '' e '''')
      | Inr idToken \<Rightarrow>
          (case claimsOf idToken of
             Inl e \<Rightarrow> Inl (Wrapf ''extract claims: '' e '''')
           | Inr i \<Rightarrow>
               if Id_Repository i = '''' then Inl (Errorf ''missing repository claim'') else Inr i))"

definition staticVerifier_Verify :: "GitHubIdentity \<Rightarrow> string \<Rightarrow> GitHubIdentity result" where
  "staticVerifier_Verify identity rawToken = Inr identity"

text \<open>
  What the request handlers rely on: a verified identity names a repository. The identity of
  the static verifier is whatever its creator put there, so only the real one promises it.
\<close>

locale verifier_contract =
  fixes verify :: "string \<Rightarrow> GitHubIdentity result"
  assumes names_repository: "verify raw = Inr i \<Longrightarrow> Id_Repository i \<noteq> ''''"

interpretation oidc_verifier: verifier_contract "Verifier_Verify verifyToken claimsOf"
  for verifyToken claimsOf
  by unfold_locales (auto simp: Verifier_Verify_def split: sum.splits if_splits)

end
