(* ===== verification/Manager.thy ===== *)
theory Manager
  imports Runtime Authn
begin

text \<open>
  Package \<^verbatim>\<open>internal/operation\<close>: starting restarts and rollouts (\<^verbatim>\<open>manager.go\<close>), following them
  to a terminal state, and reconciling operations left running (\<^verbatim>\<open>reconcile.go\<close>). Every function
  is an action on the process of \<open>Runtime\<close>; the manager itself holds the three interfaces it
  calls. A run of \<^verbatim>\<open>Rollout\<close> that panics returns \<^const>\<open>None\<close>.
\<close>

section \<open>The manager\<close>

definition ActionRestart :: string where "ActionRestart = ''deployment.restart''"
definition ActionRollout :: string where "ActionRollout = ''deployment.rollout''"

definition ErrAmbiguousContainer :: go_error where
  "ErrAmbiguousContainer =
     Sentinel ''deployment has multiple containers; container must be specified''"

record ('s, 'k, 'n) Manager =
  mgr_kube :: "'k kube_api"
  mgr_store :: "'s store_api"
  mgr_notify :: "'n notifier"
  mgr_defaultDeadline :: duration

definition NewManager ::
  "'k kube_api \<Rightarrow> 's store_api \<Rightarrow> 'n notifier option \<Rightarrow> duration \<Rightarrow> ('s, 'k, 'n) Manager" where
  "NewManager k st n defaultDeadline =
     \<lparr>mgr_kube = k, mgr_store = st,
      mgr_notify = (case n of None \<Rightarrow> Disabled | Some n' \<Rightarrow> n'),
      mgr_defaultDeadline = (if defaultDeadline \<le> 0 then 10 * Minute else defaultDeadline)\<rparr>"

definition NewOperationID :: "('s, 'k, 'n, 'a, string) act" where
  "NewOperationID = do { u \<leftarrow> next_ulid; pure (''op_'' @ ToLower u) }"

text \<open>
  The operation of a request in its first state; the literals of the source differ in the
  fields set below where they are built.
\<close>

definition new_operation ::
  "GitHubIdentity \<Rightarrow> string \<Rightarrow> string \<Rightarrow> string \<Rightarrow> string \<Rightarrow> time \<Rightarrow> Operation" where
  "new_operation i oid action namespace deployment now =
     \<lparr>Op_OperationID = oid, Op_Repository = Id_Repository i, Op_RepositoryID = Id_RepositoryID i,
      Op_RepositoryOwner = Id_RepositoryOwner i, Op_Actor = Id_Actor i, Op_Workflow = Id_Workflow i,
      Op_WorkflowRef = Id_WorkflowRef i, Op_RunID = Id_RunID i, Op_RunAttempt = Id_RunAttempt i,
      Op_EventName = Id_EventName i, Op_Action = action, Op_Namespace = namespace,
      Op_Deployment = deployment, Op_Container = '''', Op_Image = '''',
      Op_NsDep = namespace @ ''#'' @ deployment, Op_Status = StatusRunning,
      Op_ErrorCode = '''', Op_ErrorMessage = '''', Op_RequestedAt = now, Op_CompletedAt = None,
      Op_ExpiresAt = time_Unix (now + 365 * 24 * Hour),
      Op_Events = [\<lparr>Event = ''REQUESTED'', At = now\<rparr>, \<lparr>Event = ''STARTED'', At = now\<rparr>]\<rparr>"

text \<open>Building an operation under a fresh id and writing it to the store.\<close>

definition persist_new ::
  "('s, 'k, 'n) Manager \<Rightarrow> (string \<Rightarrow> Operation) \<Rightarrow> ('s, 'k, 'n, 'a, Operation \<times> go_error option) act" where
  "persist_new m build = do {
     oid \<leftarrow> NewOperationID;
     let op = build oid;
     err \<leftarrow> store_call (PutOperation (mgr_store m) op);
     pure (op, err)
   }"

section \<open>The terminal write\<close>

definition applyTerminal :: "Operation \<Rightarrow> TerminalUpdate \<Rightarrow> Operation" where
  "applyTerminal op upd =
     op\<lparr>Op_Status := Upd_Status upd, Op_ErrorCode := Upd_ErrorCode upd,
        Op_ErrorMessage := Upd_ErrorMessage upd, Op_CompletedAt := Some (Upd_CompletedAt upd)\<rparr>"

definition logTerminalWriteErr :: "string \<Rightarrow> go_error \<Rightarrow> ('s, 'k, 'n, 'a, unit) act" where
  "logTerminalWriteErr what err =
     (if errors_Is err ErrAlreadyTerminal then log_line LInfo (what @ '' skipped: already terminal'')
      else log_line LError what)"

definition resolve ::
  "('s, 'k, 'n) Manager \<Rightarrow> Operation \<Rightarrow> msg_ref \<Rightarrow> string \<Rightarrow> TerminalUpdate \<Rightarrow> ('s, 'k, 'n, 'a, unit) act" where
  "resolve m op msg what upd = do {
     err \<leftarrow> store_call_now (UpdateTerminal (mgr_store m) (Op_OperationID op) upd);
     case err of
       Some e \<Rightarrow> logTerminalWriteErr what e
     | None \<Rightarrow> notify_call (\<lambda>n. ((), Resolved (mgr_notify m) (applyTerminal op upd) msg n))
   }"

definition failOperation ::
  "('s, 'k, 'n) Manager \<Rightarrow> Operation \<Rightarrow> msg_ref \<Rightarrow> string \<Rightarrow> string \<Rightarrow> ('s, 'k, 'n, 'a, unit) act" where
  "failOperation m op msg code errMsg = do {
     now \<leftarrow> time_Now;
     resolve m op msg ''mark operation failed''
       \<lparr>Upd_Status = StatusFailed, Upd_Event = ''FAILED'', Upd_ErrorCode = code,
        Upd_ErrorMessage = errMsg, Upd_CompletedAt = now\<rparr>
   }"

definition completeOperation ::
  "('s, 'k, 'n) Manager \<Rightarrow> Operation \<Rightarrow> msg_ref \<Rightarrow> string \<Rightarrow> ('s, 'k, 'n, 'a, unit) act" where
  "completeOperation m op msg reason = do {
     now \<leftarrow> time_Now;
     resolve m op msg ''mark operation succeeded''
       \<lparr>Upd_Status = StatusSucceeded, Upd_Event = ''SUCCEEDED'', Upd_ErrorCode = '''',
        Upd_ErrorMessage = '''', Upd_CompletedAt = now\<rparr>;
     log_line LInfo ''rollout succeeded''
   }"

definition timeoutOperation ::
  "('s, 'k, 'n) Manager \<Rightarrow> Operation \<Rightarrow> msg_ref \<Rightarrow> string \<Rightarrow> ('s, 'k, 'n, 'a, unit) act" where
  "timeoutOperation m op msg errMsg = do {
     now \<leftarrow> time_Now;
     resolve m op msg ''mark operation timeout''
       \<lparr>Upd_Status = StatusTimeout, Upd_Event = ''TIMEOUT'', Upd_ErrorCode = ''TIMEOUT'',
        Upd_ErrorMessage = errMsg, Upd_CompletedAt = now\<rparr>
   }"

section \<open>Starting operations\<close>

definition Restart ::
  "('s, 'k, 'n) Manager \<Rightarrow> GitHubIdentity \<Rightarrow> string \<Rightarrow> string \<Rightarrow>
     ('s, 'k, 'n, 'a, string \<times> go_error option) act" where
  "Restart m i namespace deployment = do {
     now \<leftarrow> time_Now;
     (op, err) \<leftarrow> persist_new m (\<lambda>oid. new_operation i oid ActionRestart namespace deployment now);
     case err of
       Some e \<Rightarrow> pure ('''', Some (Wrapf ''persist operation: '' e ''''))
     | None \<Rightarrow> do {
         perr \<leftarrow> kube_call (RestartDeployment (mgr_kube m) namespace deployment);
         case perr of
           Some e \<Rightarrow> do {
             failOperation m op None ''K8S_PATCH_FAILED'' (Error e);
             pure (Op_OperationID op, Some (Wrapf ''patch deployment: '' e ''''))
           }
         | None \<Rightarrow> do {
             log_line LInfo ''restart started'';
             msg \<leftarrow> notify_call (Started (mgr_notify m) op);
             go_watch op msg;
             pure (Op_OperationID op, None)
           }
       }
   }"

definition resolveContainer ::
  "('s, 'k, 'n) Manager \<Rightarrow> string \<Rightarrow> string \<Rightarrow> ('s, 'k, 'n, 'a, string result) act" where
  "resolveContainer m namespace deployment = do {
     r \<leftarrow> kube_call (GetDeployment (mgr_kube m) namespace deployment);
     case r of
       Inl e \<Rightarrow> pure (Inl (Wrapf ''get deployment: '' e ''''))
     | Inr dep \<Rightarrow>
         (case Containers dep of
            [] \<Rightarrow> pure (Inl (Errorf (''deployment '' @ namespace @ ''/'' @ deployment @ '' has no containers'')))
          | [c] \<Rightarrow> pure (Inr (Container_Name c))
          | _ \<Rightarrow> pure (Inl ErrAmbiguousContainer))
   }"

definition recordFailedRollout ::
  "('s, 'k, 'n) Manager \<Rightarrow> GitHubIdentity \<Rightarrow> string \<Rightarrow> string \<Rightarrow> string \<Rightarrow> string \<Rightarrow> string \<Rightarrow> string \<Rightarrow>
     ('s, 'k, 'n, 'a, string) act" where
  "recordFailedRollout m i namespace deployment container img code msg = do {
     now \<leftarrow> time_Now;
     (op, err) \<leftarrow> persist_new m (\<lambda>oid.
       (new_operation i oid ActionRollout namespace deployment now)
         \<lparr>Op_RepositoryOwner := '''', Op_Container := container, Op_Image := img,
          Op_Events := [\<lparr>Event = ''REQUESTED'', At = now\<rparr>]\<rparr>);
     case err of
       Some e \<Rightarrow> do { log_line LError ''persist failed rollout operation''; pure '''' }
     | None \<Rightarrow> do { failOperation m op None code msg; pure (Op_OperationID op) }
   }"

text \<open>The part of \<^verbatim>\<open>Rollout\<close> after the container is known\<close>

definition start_rollout ::
  "('s, 'k, 'n) Manager \<Rightarrow> GitHubIdentity \<Rightarrow> string \<Rightarrow> string \<Rightarrow> string \<Rightarrow> string \<Rightarrow>
     ('s, 'k, 'n, 'a, string \<times> go_error option) act" where
  "start_rollout m i namespace deployment container img = do {
     now \<leftarrow> time_Now;
     (op, err) \<leftarrow> persist_new m (\<lambda>oid.
       (new_operation i oid ActionRollout namespace deployment now)
         \<lparr>Op_Container := container, Op_Image := img\<rparr>);
     case err of
       Some e \<Rightarrow> pure ('''', Some (Wrapf ''persist operation: '' e ''''))
     | None \<Rightarrow> do {
         perr \<leftarrow> kube_call (RolloutDeployment (mgr_kube m) namespace deployment container img);
         case perr of
           Some e \<Rightarrow> do {
             failOperation m op None ''K8S_PATCH_FAILED'' (Error e);
             pure (Op_OperationID op, Some (Wrapf ''patch deployment: '' e ''''))
           }
         | None \<Rightarrow> do {
             log_line LInfo ''rollout started'';
             msg \<leftarrow> notify_call (Started (mgr_notify m) op);
             go_watch op msg;
             pure (Op_OperationID op, None)
           }
       }
   }"

text \<open>
  A resolved but empty container name enters the error branch with a nil error, and calling
  \<^verbatim>\<open>Error\<close> on it panics before anything is recorded.
\<close>

definition Rollout ::
  "('s, 'k, 'n) Manager \<Rightarrow> GitHubIdentity \<Rightarrow> string \<Rightarrow> string \<Rightarrow> string \<Rightarrow> string \<Rightarrow>
     ('s, 'k, 'n, 'a, (string \<times> go_error option) option) act" where
  "Rollout m i namespace deployment container img =
     (if container = '''' then do {
        r \<leftarrow> resolveContainer m namespace deployment;
        case r of
          Inl e \<Rightarrow>
            if errors_Is e ErrAmbiguousContainer then pure (Some ('''', Some ErrAmbiguousContainer))
            else do {
              opID \<leftarrow> recordFailedRollout m i namespace deployment '''' img ''K8S_PATCH_FAILED''
                (''resolve container: '' @ Error e);
              pure (Some (opID, Some e))
            }
        | Inr resolved \<Rightarrow>
            if resolved = '''' then pure None
            else do {
              res \<leftarrow> start_rollout m i namespace deployment resolved img;
              pure (Some res)
            }
      }
      else do {
        res \<leftarrow> start_rollout m i namespace deployment container img;
        pure (Some res)
      })"

section \<open>Following a rollout\<close>

text \<open>The product of an \<^verbatim>\<open>int32\<close> number of seconds is computed in 64 bits.\<close>

definition progressDeadline :: "('s, 'k, 'n) Manager \<Rightarrow> Deployment \<Rightarrow> duration" where
  "progressDeadline m dep =
     (case ProgressDeadlineSeconds dep of
        Some n \<Rightarrow> if n > 0 then wrap64 (n * Second) else mgr_defaultDeadline m
      | None \<Rightarrow> mgr_defaultDeadline m)"

text \<open>The verdict on an observed deployment: resolve the operation if it is terminal.\<close>

definition judge ::
  "('s, 'k, 'n) Manager \<Rightarrow> Operation \<Rightarrow> msg_ref \<Rightarrow> Deployment \<Rightarrow> ('s, 'k, 'n, 'a, bool) act" where
  "judge m op msg dep =
     (let ev = EvaluateRollout dep in
      case Eval_State ev of
        RolloutProgressing \<Rightarrow> pure False
      | RolloutComplete \<Rightarrow> do { completeOperation m op msg (Eval_Reason ev); pure True }
      | RolloutFailed \<Rightarrow> do { failOperation m op msg ''ROLLOUT_FAILED'' (Eval_Reason ev); pure True })"

definition evalOnce ::
  "('s, 'k, 'n) Manager \<Rightarrow> Operation \<Rightarrow> msg_ref \<Rightarrow> ('s, 'k, 'n, 'a, bool) act" where
  "evalOnce m op msg = do {
     r \<leftarrow> kube_call (GetDeployment (mgr_kube m) (Op_Namespace op) (Op_Deployment op));
     case r of
       Inl e \<Rightarrow> do { log_line LWarn ''re-get deployment''; pure False }
     | Inr dep \<Rightarrow> judge m op msg dep
   }"

text \<open>\<^verbatim>\<open>for event := range w.ResultChan()\<close>; \<^const>\<open>True\<close> when an event resolved the operation.\<close>

primrec watch_events ::
  "('s, 'k, 'n) Manager \<Rightarrow> Operation \<Rightarrow> msg_ref \<Rightarrow> watch_event list \<Rightarrow> ('s, 'k, 'n, 'a, bool) act" where
  "watch_events m op msg [] = pure False"
| "watch_events m op msg (ev # evs) =
     (case ev of
        None \<Rightarrow> watch_events m op msg evs
      | Some dep \<Rightarrow> do {
          b \<leftarrow> judge m op msg dep;
          if b then pure True else watch_events m op msg evs
        })"

definition maxBackoff :: duration where "maxBackoff = 15 * Second"

text \<open>One iteration of the loop of \<^verbatim>\<open>watchRollout\<close>; \<^const>\<open>True\<close> when the function returns.\<close>

definition watch_body ::
  "('s, 'k, 'n) Manager \<Rightarrow> go_context \<Rightarrow> Operation \<Rightarrow> msg_ref \<Rightarrow> duration \<Rightarrow> ('s, 'k, 'n, 'a, bool) act" where
  "watch_body m ctx op msg backoff = do {
     expired \<leftarrow> ctx_Err ctx;
     if expired then do {
       timeoutOperation m op msg ''watch deadline exceeded before rollout resolved'';
       pure True
     } else do {
       resolved \<leftarrow> evalOnce m op msg;
       if resolved then pure True
       else do {
         w \<leftarrow> kube_call (WatchDeployment (mgr_kube m) (Op_Namespace op) (Op_Deployment op));
         case w of
           Inl e \<Rightarrow> do {
             log_line LWarn ''watch start failed'';
             ok \<leftarrow> sleep ctx backoff;
             if \<not> ok then do { timeoutOperation m op msg ''watch deadline exceeded''; pure True }
             else pure False
           }
         | Inr events \<Rightarrow> do {
             over \<leftarrow> watch_events m op msg events;
             if over then pure True
             else do {
               ok \<leftarrow> sleep ctx backoff;
               if \<not> ok then do {
                 timeoutOperation m op msg ''watch deadline exceeded after reconnect'';
                 pure True
               } else pure False
             }
           }
       }
     }
   }"

text \<open>The loop: \<^const>\<open>None\<close> would mean that it never returns.\<close>

partial_function (option) watch_loop ::
  "('s, 'k, 'n) Manager \<Rightarrow> go_context \<Rightarrow> Operation \<Rightarrow> msg_ref \<Rightarrow> duration \<Rightarrow>
     ('s, 'k, 'n, 'a) rt \<Rightarrow> ('s, 'k, 'n, 'a) rt option" where
  "watch_loop m ctx op msg backoff w =
     (case run_state (watch_body m ctx op msg backoff) w of
        (over, w1) \<Rightarrow>
          if over then Some w1
          else watch_loop m ctx op msg (min (2 * backoff) maxBackoff) w1)"

definition watch_deadline ::
  "('s, 'k, 'n) Manager \<Rightarrow> Operation \<Rightarrow> ('s, 'k, 'n, 'a, duration) act" where
  "watch_deadline m op = do {
     r \<leftarrow> kube_call (GetDeployment (mgr_kube m) (Op_Namespace op) (Op_Deployment op));
     pure (case r of Inr dep \<Rightarrow> progressDeadline m dep | Inl e \<Rightarrow> mgr_defaultDeadline m)
   }"

definition watchRollout ::
  "('s, 'k, 'n) Manager \<Rightarrow> Operation \<Rightarrow> msg_ref \<Rightarrow> ('s, 'k, 'n, 'a) rt \<Rightarrow> ('s, 'k, 'n, 'a) rt option" where
  "watchRollout m op msg w =
     (case run_state (watch_deadline m op) w of (deadline, w1) \<Rightarrow>
        watch_loop m
          (WithTimeout Background (wrap64 (deadline + 2 * Minute)) (clk_now (rt_clock w1)))
          op msg Second w1)"

section \<open>Reconciliation\<close>

definition staleAfter :: duration where "staleAfter = 2 * Hour"
definition sweepInterval :: duration where "sweepInterval = 60 * Second"

definition resolveRunning ::
  "('s, 'k, 'n) Manager \<Rightarrow> go_context \<Rightarrow> Operation \<Rightarrow> ('s, 'k, 'n, 'a, unit) act" where
  "resolveRunning m ctx op = do {
     r \<leftarrow> kube_call (GetDeployment (mgr_kube m) (Op_Namespace op) (Op_Deployment op));
     case r of
       Inl e \<Rightarrow> do {
         ended \<leftarrow> ctx_Err ctx;
         if errors_Is e context_Canceled \<or> ended then log_line LWarn ''resolve skipped: context done''
         else timeoutOperation m op None
           (''deployment no longer readable while operation running: '' @ Error e)
       }
     | Inr dep \<Rightarrow>
         (let ev = EvaluateRollout dep in
          case Eval_State ev of
            RolloutProgressing \<Rightarrow> timeoutOperation m op None
              (''operation stale and rollout still not terminal: '' @ Eval_Reason ev)
          | RolloutComplete \<Rightarrow> completeOperation m op None (Eval_Reason ev)
          | RolloutFailed \<Rightarrow> failOperation m op None ''ROLLOUT_FAILED'' (Eval_Reason ev))
   }"

definition ReconcileSweep ::
  "('s, 'k, 'n) Manager \<Rightarrow> go_context \<Rightarrow> ('s, 'k, 'n, 'a, unit) act" where
  "ReconcileSweep m ctx = do {
     now \<leftarrow> time_Now;
     r \<leftarrow> store_call (ListRunningPastDeadline (mgr_store m) (now - staleAfter));
     case r of
       Inl e \<Rightarrow> log_line LError ''sweeper list''
     | Inr stale \<Rightarrow> each (resolveRunning m ctx) stale
   }"

text \<open>
  The sweeper's \<^verbatim>\<open>select\<close> loop, driven by what becomes ready: a tick of the ticker or the end of
  the context, after which nothing more happens.
\<close>

datatype sweeper_event = Tick | Done

primrec StartSweeper ::
  "('s, 'k, 'n) Manager \<Rightarrow> go_context \<Rightarrow> sweeper_event list \<Rightarrow> ('s, 'k, 'n, 'a, unit) act" where
  "StartSweeper m ctx [] = pure ()"
| "StartSweeper m ctx (e # es) =
     (case e of Done \<Rightarrow> pure () | Tick \<Rightarrow> do { ReconcileSweep m ctx; StartSweeper m ctx es })"

definition Get ::
  "('s, 'k, 'n) Manager \<Rightarrow> go_context \<Rightarrow> string \<Rightarrow> ('s, 'k, 'n, 'a, Operation result) act" where
  "Get m ctx opID = do {
     r \<leftarrow> store_call (GetOperation (mgr_store m) opID);
     case r of
       Inl e \<Rightarrow> pure (Inl e)
     | Inr op \<Rightarrow>
         if Op_Status op = StatusRunning then do {
           now \<leftarrow> time_Now;
           if time_Sub now (Op_RequestedAt op) > staleAfter then do {
             resolveRunning m ctx op;
             r2 \<leftarrow> store_call (GetOperation (mgr_store m) opID);
             pure (case r2 of Inr refreshed \<Rightarrow> Inr refreshed | Inl e \<Rightarrow> Inr op)
           } else pure (Inr op)
         } else pure (Inr op)
   }"

end
