(* ===== verification/Authz.thy ===== *)
theory Authz
  imports Go_Time
begin

text \<open>
  Package \<^verbatim>\<open>internal/authz\<close>: the authorization question and answer, the static policy, ref
  constraints, the file authorizer and the shadow authorizer. The Go interface
  \<^verbatim>\<open>Authorizer\<close> is the record \<open>authorizer\<close> of state-passing functions over the state type
  of the implementation; the optional field \<open>Ready\<close> is the interface \<^verbatim>\<open>ReadinessChecker\<close> of
  \<^verbatim>\<open>internal/api\<close>, which an authorizer may or may not implement. Its contract is the locale
  \<open>authorizer_contract\<close>.
\<close>

section \<open>Requests, decisions and the interface\<close>

record Request =
  Req_Repository :: string
  Req_Action :: string
  Req_Namespace :: string
  Req_Deployment :: string
  Req_Ref :: string

record Decision =
  Allowed :: bool
  Reason :: string

abbreviation Permit :: Decision where
  "Permit \<equiv> \<lparr>Allowed = True, Reason = []\<rparr>"

record 'a authorizer =
  Authorize :: "go_context \<Rightarrow> Request \<Rightarrow> clock \<times> 'a \<Rightarrow> Decision result \<times> (clock \<times> 'a)"
  Ready :: "(go_context \<Rightarrow> clock \<times> 'a \<Rightarrow> go_error option \<times> (clock \<times> 'a)) option"

section \<open>The static policy\<close>

record Permission =
  Perm_Action :: string
  Namespaces :: "string list"
  Deployments :: "string list"

record RepositoryEntry =
  Entry_Repository :: string
  Permissions :: "Permission list"

record Policy =
  Version :: int
  Repositories :: "RepositoryEntry list"

text \<open>
  \<^verbatim>\<open>os.ReadFile\<close> and \<^verbatim>\<open>yaml.Unmarshal\<close> are the parameters \<open>readFile\<close> and \<open>unmarshal\<close>.
\<close>

definition LoadPolicy ::
  "(string \<Rightarrow> string result) \<Rightarrow> (string \<Rightarrow> Policy result) \<Rightarrow> string \<Rightarrow> Policy result" where
  "LoadPolicy readFile unmarshal path =
     (case readFile path of
        Inl e \<Rightarrow> Inl (Wrapf ''read policy: '' e '''')
      | Inr raw \<Rightarrow>
          (case unmarshal raw of
             Inl e \<Rightarrow> Inl (Wrapf ''parse policy: '' e '''')
           | Inr p \<Rightarrow>
               if Version p \<noteq> 1 then Inl (Errorf (''unsupported policy version '' @ itoa (Version p)))
               else Inr p))"

primrec matchList :: "string list \<Rightarrow> string \<Rightarrow> bool" where
  "matchList [] val = False"
| "matchList (v # vs) val = (if v = ''*'' \<or> v = val then True else matchList vs val)"

text \<open>The inner loop of \<^verbatim>\<open>Policy.Authorize\<close>: \<^const>\<open>True\<close> is its early return.\<close>

primrec perms_allow :: "Permission list \<Rightarrow> string \<Rightarrow> string \<Rightarrow> string \<Rightarrow> bool" where
  "perms_allow [] action namespace deployment = False"
| "perms_allow (perm # perms) action namespace deployment =
     (if Perm_Action perm = action \<and> matchList (Namespaces perm) namespace \<and>
         matchList (Deployments perm) deployment
      then True else perms_allow perms action namespace deployment)"

primrec entries_allow ::
  "RepositoryEntry list \<Rightarrow> string \<Rightarrow> string \<Rightarrow> string \<Rightarrow> string \<Rightarrow> bool" where
  "entries_allow [] repo action namespace deployment = False"
| "entries_allow (entry # entries) repo action namespace deployment =
     (if Entry_Repository entry \<noteq> repo then entries_allow entries repo action namespace deployment
      else if perms_allow (Permissions entry) action namespace deployment then True
      else entries_allow entries repo action namespace deployment)"

definition Policy_Authorize :: "Policy \<Rightarrow> string \<Rightarrow> string \<Rightarrow> string \<Rightarrow> string \<Rightarrow> bool" where
  "Policy_Authorize p repo action namespace deployment =
     entries_allow (Repositories p) repo action namespace deployment"

lemma matchList_iff: "matchList vs x \<longleftrightarrow> ''*'' \<in> set vs \<or> x \<in> set vs"
  by (induction vs) auto

lemma perms_allow_iff:
  "perms_allow perms a ns dep \<longleftrightarrow>
     (\<exists>perm\<in>set perms. Perm_Action perm = a \<and> matchList (Namespaces perm) ns \<and>
        matchList (Deployments perm) dep)"
  by (induction perms) auto

lemma entries_allow_iff:
  "entries_allow es repo a ns dep \<longleftrightarrow>
     (\<exists>e\<in>set es. Entry_Repository e = repo \<and> perms_allow (Permissions e) a ns dep)"
  by (induction es) auto

section \<open>The file authorizer\<close>

definition file_denied :: "Request \<Rightarrow> Decision" where
  "file_denied req =
     \<lparr>Allowed = False,
      Reason = ''policy does not allow '' @ Req_Action req @ '' on '' @ Req_Namespace req @ ''/'' @
        Req_Deployment req\<rparr>"

definition FileAuthorizer_Authorize ::
  "Policy \<Rightarrow> go_context \<Rightarrow> Request \<Rightarrow> clock \<times> 'a \<Rightarrow> Decision result \<times> (clock \<times> 'a)" where
  "FileAuthorizer_Authorize p ctx req s =
     (if Policy_Authorize p (Req_Repository req) (Req_Action req) (Req_Namespace req) (Req_Deployment req)
      then (Inr Permit, s)
      else (Inr (file_denied req), s))"

text \<open>The file authorizer keeps no state of its own, so it fits every state type.\<close>

definition FileAuthorizer :: "Policy \<Rightarrow> 'a authorizer" where
  "FileAuthorizer p = \<lparr>Authorize = FileAuthorizer_Authorize p, Ready = None\<rparr>"

definition NewFileAuthorizer ::
  "(string \<Rightarrow> string result) \<Rightarrow> (string \<Rightarrow> Policy result) \<Rightarrow> string \<Rightarrow> 'a authorizer result" where
  "NewFileAuthorizer readFile unmarshal path =
     (case LoadPolicy readFile unmarshal path of
        Inl e \<Rightarrow> Inl e
      | Inr p \<Rightarrow> Inr (FileAuthorizer p))"

section \<open>Ref constraints\<close>

definition ErrMalformedRefConstraint :: go_error where
  "ErrMalformedRefConstraint = Sentinel ''malformed ref constraint''"

text \<open>The validation loop: \<^const>\<open>False\<close> when a pattern is malformed.\<close>

primrec refs_valid :: "string list \<Rightarrow> bool" where
  "refs_valid [] = True"
| "refs_valid (p # ps) =
     (if p = ''*'' then refs_valid ps
      else if p = '''' then False
      else let i = IndexByte p (CHR ''*'') in
        if 0 \<le> i \<and> i \<noteq> int (length p) - 1 then False else refs_valid ps)"

primrec refs_match :: "string list \<Rightarrow> string \<Rightarrow> bool" where
  "refs_match [] ref = False"
| "refs_match (p # ps) ref =
     (if p = ''*'' then True
      else if HasSuffix p ''*'' then
        (if HasPrefix ref (TrimSuffix p ''*'') then True else refs_match ps ref)
      else if p = ref then True
      else refs_match ps ref)"

definition MatchRef :: "string list \<Rightarrow> string \<Rightarrow> bool result" where
  "MatchRef allowed ref =
     (if length allowed = 0 then Inr True
      else if \<not> refs_valid allowed then Inl ErrMalformedRefConstraint
      else if ref = '''' then Inr False
      else Inr (refs_match allowed ref))"

text \<open>
  The documented pattern language, stated without the code's index arithmetic: a pattern
  is well formed when it is not empty and no star precedes its last character; it matches a
  ref that it equals, or that extends the part before its final star.
\<close>

definition wf_pattern :: "string \<Rightarrow> bool" where
  "wf_pattern p \<longleftrightarrow> p \<noteq> '''' \<and> CHR ''*'' \<notin> set (butlast p)"

definition pattern_matches :: "string \<Rightarrow> string \<Rightarrow> bool" where
  "pattern_matches p ref \<longleftrightarrow>
     p = ref \<or> (p \<noteq> '''' \<and> last p = CHR ''*'' \<and> prefix (butlast p) ref)"

lemma star_position:
  assumes "p \<noteq> ''''"
  shows "(0 \<le> IndexByte p c \<and> IndexByte p c \<noteq> int (length p) - 1) \<longleftrightarrow> c \<in> set (butlast p)"
proof (cases "c \<in> set p")
  case False
  then show ?thesis using IndexByte_absent [of p c] by (auto dest: in_set_butlastD)
next
  case True
  then obtain u v where p: "p = u @ c # v" and u: "c \<notin> set u" and i: "IndexByte p c = int (length u)"
    by (rule IndexByte_split)
  show ?thesis
  proof (cases "v = ''''")
    case True
    with p i u show ?thesis by simp
  next
    case False
    with p i show ?thesis by (simp add: butlast_append)
  qed
qed

lemma refs_valid_iff: "refs_valid ps \<longleftrightarrow> \<not> (\<exists>p\<in>set ps. \<not> wf_pattern p)"
proof (induction ps)
  case (Cons p ps)
  then show ?case
    using star_position [of p "CHR ''*''"] by (auto simp: Let_def wf_pattern_def)
qed simp

lemma refs_match_iff: "refs_match ps ref \<longleftrightarrow> (\<exists>p\<in>set ps. pattern_matches p ref)"
proof (induction ps)
  case (Cons p ps)
  have "refs_match (p # ps) ref \<longleftrightarrow> pattern_matches p ref \<or> refs_match ps ref"
  proof (cases "HasSuffix p ''*''")
    case True
    then have "TrimSuffix p ''*'' = butlast p" by (rule TrimSuffix_char)
    with True show ?thesis
      by (auto simp: pattern_matches_def go_str prefixeq_butlast)
  next
    case False
    then show ?thesis by (auto simp: pattern_matches_def go_str)
  qed
  with Cons show ?case by (simp del: refs_match.simps)
qed simp

section \<open>The shadow authorizer\<close>

definition shadowTimeout :: duration where
  "shadowTimeout = 3 * Second"

text \<open>
  The shadow's state is that of both authorizers beside each other and the log. The clock
  is shared, because the two run one after the other on the caller's goroutine.
\<close>

definition shadow_line ::
  "Decision result \<Rightarrow> Decision result \<Rightarrow> level \<times> string" where
  "shadow_line prim shad =
     (case shad of
        Inl _ \<Rightarrow> (LWarn, ''shadow authorizer unavailable'')
      | Inr sd \<Rightarrow>
          (case prim of
             Inl _ \<Rightarrow> (LWarn, ''primary authorizer unavailable, shadow not compared'')
           | Inr d \<Rightarrow>
               if Allowed sd \<noteq> Allowed d then (LWarn, ''shadow authorizer disagrees'')
               else (LInfo, ''shadow authorizer agrees'')))"

definition Shadow_Authorize ::
  "'a authorizer \<Rightarrow> 'b authorizer \<Rightarrow> go_context \<Rightarrow> Request \<Rightarrow> clock \<times> ('a \<times> 'b \<times> log) \<Rightarrow>
     Decision result \<times> (clock \<times> ('a \<times> 'b \<times> log))" where
  "Shadow_Authorize primary shadow ctx req st =
     (case st of (c, a, b, lg) \<Rightarrow>
       (case Authorize primary ctx req (c, a) of (dec, c1, a1) \<Rightarrow>
         (case Authorize shadow (WithTimeout ctx shadowTimeout (clk_now c1)) req (c1, b) of
            (shadowDec, c2, b1) \<Rightarrow>
              (dec, (c2, a1, b1, lg @ [shadow_line dec shadowDec])))))"

text \<open>\<^verbatim>\<open>Shadow\<close> has no \<^verbatim>\<open>Ready\<close> method, so readiness never consults it.\<close>

definition Shadow :: "'a authorizer \<Rightarrow> 'b authorizer \<Rightarrow> ('a \<times> 'b \<times> log) authorizer" where
  "Shadow primary shadow = \<lparr>Authorize = Shadow_Authorize primary shadow, Ready = None\<rparr>"

section \<open>The contract of the interface\<close>

text \<open>
  What the request handlers rely on: a denial states its reason, which becomes the
  \<^verbatim>\<open>ErrorMessage\<close> of the audit row, and an approval carries none.
\<close>

locale authorizer_contract =
  fixes az :: "'a authorizer"
  assumes denial_has_reason:
    "Authorize az ctx req s = (Inr d, s') \<Longrightarrow> \<not> Allowed d \<Longrightarrow> Reason d \<noteq> ''''"
    and approval_has_none:
    "Authorize az ctx req s = (Inr d, s') \<Longrightarrow> Allowed d \<Longrightarrow> Reason d = ''''"
begin

lemma decision_by_reason:
  assumes "Authorize az ctx req s = (Inr d, s')"
  shows "Allowed d \<longleftrightarrow> Reason d = ''''"
  using assms denial_has_reason approval_has_none by blast

end

interpretation file_authorizer: authorizer_contract "FileAuthorizer p" for p
  by unfold_locales
    (auto simp: FileAuthorizer_def FileAuthorizer_Authorize_def file_denied_def split: if_splits)

text \<open>A shadow fulfils the contract of its primary, whatever its shadow does.\<close>

locale shadowed_authorizer = authorizer_contract primary for primary :: "'a authorizer" +
  fixes shadow :: "'b authorizer"

sublocale shadowed_authorizer \<subseteq> shadow_pair: authorizer_contract "Shadow primary shadow"
proof
  fix ctx req s d s'
  assume eq: "Authorize (Shadow primary shadow) ctx req s = (Inr d, s')"
  then obtain sp sp' where prim: "Authorize primary ctx req sp = (Inr d, sp')"
    by (auto simp: Shadow_def Shadow_Authorize_def split: prod.splits)
  show "Reason d \<noteq> ''''" if "\<not> Allowed d" using prim that by (rule denial_has_reason)
  show "Reason d = ''''" if "Allowed d" using prim that by (rule approval_has_none)
qed

interpretation file_shadow: shadowed_authorizer "FileAuthorizer p" shadow for p shadow
  by unfold_locales

section \<open>Properties\<close>

text \<open>C32. The static policy allows a request exactly when some entry of the repository holds a
  permission for the action whose namespace and deployment lists each contain the value or a
  star: the nested loops with their early returns compute this existential.\<close>

theorem Policy_Authorize_spec:
  "Policy_Authorize p repo action namespace deployment \<longleftrightarrow>
     (\<exists>e\<in>set (Repositories p). Entry_Repository e = repo \<and>
       (\<exists>perm\<in>set (Permissions e). Perm_Action perm = action \<and>
         (''*'' \<in> set (Namespaces perm) \<or> namespace \<in> set (Namespaces perm)) \<and>
         (''*'' \<in> set (Deployments perm) \<or> deployment \<in> set (Deployments perm))))"
  unfolding Policy_Authorize_def entries_allow_iff perms_allow_iff matchList_iff by blast

text \<open>C31. Ref matching computes the documented pattern language: an empty list is unrestricted, a
  malformed pattern anywhere in the list is an error even when another pattern matches, an
  empty ref matches nothing, and otherwise the ref must equal a pattern or extend the part
  before its final star.\<close>

theorem MatchRef_spec:
  "MatchRef allowed ref =
     (if allowed = [] then Inr True
      else if \<exists>p\<in>set allowed. \<not> wf_pattern p then Inl ErrMalformedRefConstraint
      else Inr (ref \<noteq> '''' \<and> (\<exists>p\<in>set allowed. pattern_matches p ref)))"
  unfolding MatchRef_def refs_valid_iff refs_match_iff by simp

text \<open>Writing any-ref explicitly is stricter than writing nothing: only the absent constraint
  accepts a request without a ref.\<close>

lemma MatchRef_star_stricter_than_absent:
  "MatchRef [''*''] ref = Inr (ref \<noteq> '''') \<and> MatchRef [] ref = Inr True"
  by (simp add: MatchRef_def)

text \<open>In shadow mode the response is the primary's: for every shadow authorizer and every
  state of it, the decision or error returned and the primary's new state are those of the
  primary run alone; the shadow can only add one log line, the warning of a disagreement
  exactly when both reached a decision and the decisions differ.\<close>

lemma Shadow_returns_primary:
  assumes "Authorize (Shadow primary shadow) ctx req (c, a, b, lg) = (r, c', a', b', lg')"
  shows "(\<exists>c1. Authorize primary ctx req (c, a) = (r, c1, a')) \<and>
    (\<exists>line. lg' = lg @ [line] \<and>
      (line = (LWarn, ''shadow authorizer disagrees'') \<longleftrightarrow>
        (\<exists>d sd. r = Inr d \<and>
          fst (Authorize shadow (WithTimeout ctx shadowTimeout
            (clk_now (fst (snd (Authorize primary ctx req (c, a))))))
            req (fst (snd (Authorize primary ctx req (c, a))), b)) = Inr sd \<and>
          Allowed sd \<noteq> Allowed d)))"
  using assms
  by (auto simp: Shadow_def Shadow_Authorize_def shadow_line_def split: prod.splits sum.splits)

definition sample_request :: Request where
  "sample_request =
     \<lparr>Req_Repository = ''org/api'', Req_Action = ''deployment.restart'', Req_Namespace = ''backend'',
      Req_Deployment = ''api'', Req_Ref = ''refs/heads/main''\<rparr>"

definition empty_policy :: Policy where
  "empty_policy = \<lparr>Version = 1, Repositories = []\<rparr>"

end
