(* ===== verification/Api.thy ===== *)
theory Api
  imports Manager Authz Go_Http
begin

text \<open>
  Package \<^verbatim>\<open>internal/api\<close>: authentication, the three outcomes of authorization, the handlers and the
  routes. chi's routing is a parameter: a request arrives with the route it matched. Its
  \<^verbatim>\<open>Timeout\<close> middleware gives every request a context of thirty seconds. A handler that panics
  returns \<^const>\<open>None\<close>, which chi's \<^verbatim>\<open>Recoverer\<close> turns into a response of its own. Header writes and
  the JSON encoding of a response are its status and body; \<^verbatim>\<open>encoding/json\<close> sorts map keys.
\<close>

datatype api_body = JsonReply json | TextReply string

record api_response =
  Api_Status :: int
  Api_Body :: api_body

record api_request =
  Rq_Authorization :: string
  Rq_Body :: "json option"
  Rq_Context :: go_context

record ('s, 'k, 'n, 'a) Deps =
  dp_Verifier :: "string \<Rightarrow> GitHubIdentity result"
  dp_Authz :: "'a authorizer"
  dp_Ops :: "('s, 'k, 'n) Manager"
  dp_Store :: "'s store_api"
  dp_AuthzTimeout :: duration

definition defaultAuthzTimeout :: duration where
  "defaultAuthzTimeout = 7 * Second"

definition writeError :: "int \<Rightarrow> string \<Rightarrow> string \<Rightarrow> api_response" where
  "writeError status errCode msg =
     \<lparr>Api_Status = status,
      Api_Body = JsonReply (JObj [(''error'', JObj [(''code'', JStr errCode), (''message'', JStr msg)])])\<rparr>"

section \<open>Authentication and authorization\<close>

definition authenticate ::
  "('s, 'k, 'n, 'a) Deps \<Rightarrow> (GitHubIdentity \<Rightarrow> ('s, 'k, 'n, 'a, api_response option) act) \<Rightarrow> api_request \<Rightarrow>
     ('s, 'k, 'n, 'a, api_response option) act" where
  "authenticate d next_handler rq =
     (if \<not> HasPrefix (Rq_Authorization rq) ''Bearer ''
      then pure (Some (writeError 401 ''UNAUTHENTICATED'' ''missing bearer token''))
      else
        (case dp_Verifier d (TrimPrefix (Rq_Authorization rq) ''Bearer '') of
           Inl e \<Rightarrow> do {
             log_line LWarn ''token rejected'';
             pure (Some (writeError 401 ''UNAUTHENTICATED'' ''invalid token''))
           }
         | Inr i \<Rightarrow> next_handler i))"

definition denied_row ::
  "GitHubIdentity \<Rightarrow> string \<Rightarrow> string \<Rightarrow> string \<Rightarrow> string \<Rightarrow> string \<Rightarrow> string \<Rightarrow> string \<Rightarrow> time \<Rightarrow> Operation" where
  "denied_row i oid action namespace deployment container img reason now =
     (new_operation i oid action namespace deployment now)
       \<lparr>Op_Container := container, Op_Image := img, Op_Status := StatusDenied,
        Op_ErrorCode := ''DENIED'', Op_ErrorMessage := reason,
        Op_Events := [\<lparr>Event = ''DENIED'', At = now\<rparr>]\<rparr>"

definition recordDenied ::
  "('s, 'k, 'n, 'a) Deps \<Rightarrow> GitHubIdentity \<Rightarrow> string \<Rightarrow> string \<Rightarrow> string \<Rightarrow> string \<Rightarrow> string \<Rightarrow> string \<Rightarrow>
     ('s, 'k, 'n, 'a, unit) act" where
  "recordDenied d i action namespace deployment container img reason = do {
     now \<leftarrow> time_Now;
     oid \<leftarrow> NewOperationID;
     err \<leftarrow> store_call (PutOperation (dp_Store d)
       (denied_row i oid action namespace deployment container img reason now));
     (if err \<noteq> None then log_line LError ''denied audit write failed'' else pure ());
     log_line LWarn ''denied''
   }"

definition authz_request :: "GitHubIdentity \<Rightarrow> string \<Rightarrow> string \<Rightarrow> string \<Rightarrow> Request" where
  "authz_request i action namespace deployment =
     \<lparr>Req_Repository = Id_Repository i, Req_Action = action, Req_Namespace = namespace,
      Req_Deployment = deployment, Req_Ref = Id_Ref i\<rparr>"

text \<open>The context of one authorization, made at the instant \<open>now\<close>\<close>

definition authz_context :: "('s, 'k, 'n, 'a) Deps \<Rightarrow> go_context \<Rightarrow> time \<Rightarrow> go_context" where
  "authz_context d ctx now =
     WithTimeout ctx (if dp_AuthzTimeout d = 0 then defaultAuthzTimeout else dp_AuthzTimeout d) now"

text \<open>\<^const>\<open>None\<close> when the handler may go on, the response that has been written otherwise\<close>

definition authorize ::
  "('s, 'k, 'n, 'a) Deps \<Rightarrow> go_context \<Rightarrow> GitHubIdentity \<Rightarrow> string \<Rightarrow> string \<Rightarrow> string \<Rightarrow> string \<Rightarrow> string \<Rightarrow>
     ('s, 'k, 'n, 'a, api_response option) act" where
  "authorize d ctx i action namespace deployment container img = do {
     now \<leftarrow> State_Monad.State (\<lambda>w. (clk_now (rt_clock w), w));
     dec \<leftarrow> authz_call (Authorize (dp_Authz d) (authz_context d ctx now)
       (authz_request i action namespace deployment));
     case dec of
       Inl e \<Rightarrow> do {
         log_line LError ''authorization unavailable'';
         pure (Some (writeError 503 ''AUTHZ_UNAVAILABLE'' ''authorization service unavailable''))
       }
     | Inr decision \<Rightarrow>
         if \<not> Allowed decision then do {
           recordDenied d i action namespace deployment container img (Reason decision);
           pure (Some (writeError 403 ''FORBIDDEN'' ''not allowed''))
         } else pure None
   }"

section \<open>Handlers\<close>

definition accepted :: "string \<Rightarrow> api_response" where
  "accepted opID =
     \<lparr>Api_Status = 202,
      Api_Body = JsonReply (JObj [(''operation_id'', JStr opID), (''status'', JStr ''running'')])\<rparr>"

definition k8s_unavailable :: "string \<Rightarrow> api_response" where
  "k8s_unavailable opID =
     \<lparr>Api_Status = 502,
      Api_Body = JsonReply (JObj
        [(''error'', JObj [(''code'', JStr ''K8S_UNAVAILABLE''), (''message'', JStr ''kubernetes api call failed'')]),
         (''operation_id'', JStr opID)])\<rparr>"

definition store_unavailable :: api_response where
  "store_unavailable = writeError 503 ''STORE_UNAVAILABLE'' ''operation could not be recorded''"

definition dec_restart :: "json \<Rightarrow> (string \<times> string) result" where
  "dec_restart j =
     (case str_field ''namespace'' j of
        Inl e \<Rightarrow> Inl e
      | Inr ns \<Rightarrow> (case str_field ''deployment'' j of Inl e \<Rightarrow> Inl e | Inr dep \<Rightarrow> Inr (ns, dep)))"

definition dec_rollout :: "json \<Rightarrow> (string \<times> string \<times> string \<times> string) result" where
  "dec_rollout j =
     (case dec_restart j of
        Inl e \<Rightarrow> Inl e
      | Inr (ns, dep) \<Rightarrow>
          (case str_field ''container'' j of
             Inl e \<Rightarrow> Inl e
           | Inr c \<Rightarrow> (case str_field ''image'' j of Inl e \<Rightarrow> Inl e | Inr img \<Rightarrow> Inr (ns, dep, c, img))))"

text \<open>The response to a finished \<^verbatim>\<open>Restart\<close>, and to a finished \<^verbatim>\<open>Rollout\<close>\<close>

definition started_response :: "string \<times> go_error option \<Rightarrow> api_response" where
  "started_response res =
     (case res of (opID, err) \<Rightarrow>
        if err \<noteq> None then (if opID = '''' then store_unavailable else k8s_unavailable opID)
        else accepted opID)"

definition rollout_response :: "string \<times> go_error option \<Rightarrow> api_response" where
  "rollout_response res =
     (case snd res of
        Some e \<Rightarrow>
          if errors_Is e ErrAmbiguousContainer
          then writeError 400 ''AMBIGUOUS_CONTAINER'' (Error ErrAmbiguousContainer)
          else started_response res
      | None \<Rightarrow> started_response res)"

definition handleRestart ::
  "('s, 'k, 'n, 'a) Deps \<Rightarrow> go_context \<Rightarrow> json option \<Rightarrow> GitHubIdentity \<Rightarrow>
     ('s, 'k, 'n, 'a, api_response option) act" where
  "handleRestart d ctx body i =
     (case unmarshal dec_restart body of
        Inl e \<Rightarrow> pure (Some (writeError 400 ''INVALID_REQUEST'' ''namespace and deployment are required''))
      | Inr (namespace, deployment) \<Rightarrow>
          if namespace = '''' \<or> deployment = ''''
          then pure (Some (writeError 400 ''INVALID_REQUEST'' ''namespace and deployment are required''))
          else do {
            refused \<leftarrow> authorize d ctx i ActionRestart namespace deployment '''' '''';
            case refused of
              Some resp \<Rightarrow> pure (Some resp)
            | None \<Rightarrow> do {
                res \<leftarrow> Restart (dp_Ops d) i namespace deployment;
                pure (Some (started_response res))
              }
          })"

definition handleRollout ::
  "('s, 'k, 'n, 'a) Deps \<Rightarrow> go_context \<Rightarrow> json option \<Rightarrow> GitHubIdentity \<Rightarrow>
     ('s, 'k, 'n, 'a, api_response option) act" where
  "handleRollout d ctx body i =
     (case unmarshal dec_rollout body of
        Inl e \<Rightarrow> pure (Some (writeError 400 ''INVALID_REQUEST'' ''namespace, deployment and image are required''))
      | Inr (namespace, deployment, container, img) \<Rightarrow>
          if namespace = '''' \<or> deployment = '''' \<or> img = ''''
          then pure (Some (writeError 400 ''INVALID_REQUEST'' ''namespace, deployment and image are required''))
          else do {
            refused \<leftarrow> authorize d ctx i ActionRollout namespace deployment container img;
            case refused of
              Some resp \<Rightarrow> pure (Some resp)
            | None \<Rightarrow> do {
                res \<leftarrow> Rollout (dp_Ops d) i namespace deployment container img;
                pure (map_option rollout_response res)
              }
          })"

definition errBody :: "Operation \<Rightarrow> json" where
  "errBody op =
     (if Op_ErrorCode op = '''' then JNull
      else JObj [(''code'', JStr (Op_ErrorCode op)), (''message'', JStr (Op_ErrorMessage op))])"

definition operation_body :: "Operation \<Rightarrow> json" where
  "operation_body op =
     JObj [(''action'', JStr (Op_Action op)), (''deployment'', JStr (Op_Deployment op)),
       (''error'', errBody op), (''namespace'', JStr (Op_Namespace op)),
       (''operation_id'', JStr (Op_OperationID op)), (''status'', JStr (Op_Status op))]"

definition handleGetOperation ::
  "('s, 'k, 'n, 'a) Deps \<Rightarrow> go_context \<Rightarrow> string \<Rightarrow> GitHubIdentity \<Rightarrow>
     ('s, 'k, 'n, 'a, api_response option) act" where
  "handleGetOperation d ctx opID i = do {
     r \<leftarrow> Get (dp_Ops d) ctx opID;
     case r of
       Inl e \<Rightarrow>
         if errors_Is e ErrNotFound then pure (Some (writeError 404 ''NOT_FOUND'' ''operation not found''))
         else pure (Some (writeError 503 ''STORE_UNAVAILABLE'' ''operation store unavailable''))
     | Inr op \<Rightarrow> pure (Some \<lparr>Api_Status = 200, Api_Body = JsonReply (operation_body op)\<rparr>)
   }"

definition ok_response :: api_response where
  "ok_response = \<lparr>Api_Status = 200, Api_Body = TextReply ''ok''\<rparr>"

definition handleReadyz ::
  "('s, 'k, 'n, 'a) Deps \<Rightarrow> go_context \<Rightarrow> ('s, 'k, 'n, 'a, api_response option) act" where
  "handleReadyz d ctx = do {
     err \<leftarrow> store_call (Ping (dp_Store d));
     case err of
       Some e \<Rightarrow> do {
         log_line LError ''readiness check failed'';
         pure (Some (writeError 503 ''STORE_UNAVAILABLE'' ''store not reachable''))
       }
     | None \<Rightarrow>
         (case Ready (dp_Authz d) of
            None \<Rightarrow> pure (Some ok_response)
          | Some ready \<Rightarrow> do {
              rerr \<leftarrow> authz_call (ready ctx);
              case rerr of
                Some e \<Rightarrow> do {
                  log_line LError ''readiness check failed'';
                  pure (Some (writeError 503 ''AUTHZ_UNAVAILABLE'' ''authorization service not reachable''))
                }
              | None \<Rightarrow> pure (Some ok_response)
            })
   }"

section \<open>Routes\<close>

datatype route = Healthz | Readyz | RestartRoute | RolloutRoute | OperationRoute string

definition requestTimeout :: duration where
  "requestTimeout = 30 * Second"

definition serve ::
  "('s, 'k, 'n, 'a) Deps \<Rightarrow> route \<Rightarrow> api_request \<Rightarrow> ('s, 'k, 'n, 'a, api_response option) act" where
  "serve d rt rq = do {
     now \<leftarrow> State_Monad.State (\<lambda>w. (clk_now (rt_clock w), w));
     let ctx = WithTimeout (Rq_Context rq) requestTimeout now;
     case rt of
       Healthz \<Rightarrow> pure (Some ok_response)
     | Readyz \<Rightarrow> handleReadyz d ctx
     | RestartRoute \<Rightarrow> authenticate d (handleRestart d ctx (Rq_Body rq)) rq
     | RolloutRoute \<Rightarrow> authenticate d (handleRollout d ctx (Rq_Body rq)) rq
     | OperationRoute opID \<Rightarrow> authenticate d (handleGetOperation d ctx opID) rq
   }"

end
