(* ===== verification/Store_InMem.thy ===== *)
theory Store_InMem
  imports Store
begin

text \<open>
  The in-memory store of \<^verbatim>\<open>internal/store/inmem.go\<close>, with the recording wrapper. Every method
  holds the mutex for its whole body, so a call is one atomic step. The Go map is an
  association list with distinct keys whose order stands for the unspecified iteration
  order; the methods copy operations in and out, so the rows are values.
\<close>

record inMemory =
  ops :: "(string \<times> Operation) list"

definition NewInMemory :: inMemory where
  "NewInMemory = \<lparr>ops = []\<rparr>"

definition inmem_PutOperation :: "Operation \<Rightarrow> inMemory \<Rightarrow> go_error option \<times> inMemory" where
  "inmem_PutOperation op s = (None, s\<lparr>ops := AList.update (Op_OperationID op) op (ops s)\<rparr>)"

definition inmem_GetOperation :: "string \<Rightarrow> inMemory \<Rightarrow> Operation result \<times> inMemory" where
  "inmem_GetOperation i s =
     (case map_of (ops s) i of None \<Rightarrow> (Inl ErrNotFound, s) | Some op \<Rightarrow> (Inr op, s))"

definition inmem_UpdateTerminal ::
  "string \<Rightarrow> TerminalUpdate \<Rightarrow> time \<Rightarrow> inMemory \<Rightarrow> go_error option \<times> inMemory" where
  "inmem_UpdateTerminal i upd now s =
     (case map_of (ops s) i of
        None \<Rightarrow> (Some ErrNotFound, s)
      | Some op \<Rightarrow>
          if Op_Status op \<noteq> StatusRunning then (Some ErrAlreadyTerminal, s)
          else
            let op' = op\<lparr>Op_Status := Upd_Status upd, Op_ErrorCode := Upd_ErrorCode upd,
                         Op_ErrorMessage := Upd_ErrorMessage upd,
                         Op_CompletedAt := Some (Upd_CompletedAt upd),
                         Op_Events := Op_Events op @ [\<lparr>Event = Upd_Event upd, At = now\<rparr>]\<rparr>
            in (None, s\<lparr>ops := AList.update i op' (ops s)\<rparr>))"

definition inmem_ListRunningPastDeadline ::
  "time \<Rightarrow> inMemory \<Rightarrow> Operation list result \<times> inMemory" where
  "inmem_ListRunningPastDeadline olderThan s =
     (Inr (filter (\<lambda>op. Op_Status op = StatusRunning \<and> Op_RequestedAt op < olderThan)
             (map snd (ops s))), s)"

definition inmem_Ping :: "inMemory \<Rightarrow> go_error option \<times> inMemory" where
  "inmem_Ping s = (None, s)"

definition inmem_store :: "inMemory store_api" where
  "inmem_store =
     \<lparr>PutOperation = inmem_PutOperation, GetOperation = inmem_GetOperation,
      UpdateTerminal = inmem_UpdateTerminal,
      ListRunningPastDeadline = inmem_ListRunningPastDeadline, Ping = inmem_Ping\<rparr>"

lemmas inmem_defs =
  inmem_store_def inmem_PutOperation_def inmem_GetOperation_def inmem_UpdateTerminal_def
  inmem_ListRunningPastDeadline_def inmem_Ping_def

section \<open>The recording wrapper\<close>

record RecordingStore =
  rec_inner :: inMemory
  rec_puts :: "Operation list"

definition NewRecording :: RecordingStore where
  "NewRecording = \<lparr>rec_inner = NewInMemory, rec_puts = []\<rparr>"

definition recording_PutOperation ::
  "Operation \<Rightarrow> RecordingStore \<Rightarrow> go_error option \<times> RecordingStore" where
  "recording_PutOperation op r =
     (case inmem_PutOperation op (rec_inner r) of (e, s) \<Rightarrow>
        (e, r\<lparr>rec_inner := s, rec_puts := rec_puts r @ [op]\<rparr>))"

definition Recorder :: "RecordingStore \<Rightarrow> Operation list" where
  "Recorder r = rec_puts r"

text \<open>The embedded struct promotes the other methods of the in-memory store.\<close>

definition promoted :: "(inMemory \<Rightarrow> 'r \<times> inMemory) \<Rightarrow> RecordingStore \<Rightarrow> 'r \<times> RecordingStore" where
  "promoted f r = (case f (rec_inner r) of (x, s) \<Rightarrow> (x, r\<lparr>rec_inner := s\<rparr>))"

definition recording_store :: "RecordingStore store_api" where
  "recording_store =
     \<lparr>PutOperation = recording_PutOperation,
      GetOperation = (\<lambda>i. promoted (inmem_GetOperation i)),
      UpdateTerminal = (\<lambda>i upd now. promoted (inmem_UpdateTerminal i upd now)),
      ListRunningPastDeadline = (\<lambda>t. promoted (inmem_ListRunningPastDeadline t)),
      Ping = promoted inmem_Ping\<rparr>"

section \<open>The in-memory store fulfils the contract\<close>

definition inmem_rows :: "inMemory \<Rightarrow> rows" where
  "inmem_rows s = map_of (ops s)"

definition inmem_inv :: "inMemory \<Rightarrow> bool" where
  "inmem_inv s \<longleftrightarrow> distinct (map fst (ops s)) \<and> (\<forall>(i, op) \<in> set (ops s). Op_OperationID op = i)"

lemma inmem_inv_new: "inmem_inv NewInMemory"
  by (simp add: inmem_inv_def NewInMemory_def)

lemma inmem_inv_map_of:
  assumes "inmem_inv s"
  shows "(i, op) \<in> set (ops s) \<longleftrightarrow> map_of (ops s) i = Some op"
  using assms by (simp add: inmem_inv_def)

lemma set_alist_update:
  assumes "(j, x) \<in> set (AList.update k v al)"
  shows "(j, x) = (k, v) \<or> (j, x) \<in> set al"
  using assms by (induction al) (auto split: if_splits)

lemma inmem_inv_update:
  assumes "inmem_inv s" and "Op_OperationID op = i"
  shows "inmem_inv (s\<lparr>ops := AList.update i op (ops s)\<rparr>)"
  using assms by (auto simp: inmem_inv_def distinct_update dest: set_alist_update)

lemma inmem_update_cases:
  "inmem_UpdateTerminal i upd now s =
     (case inmem_rows s i of
        None \<Rightarrow> (Some ErrNotFound, s)
      | Some op \<Rightarrow>
          if Terminal op then (Some ErrAlreadyTerminal, s)
          else (None, s\<lparr>ops := AList.update i (terminal_row op upd now) (ops s)\<rparr>))"
  by (simp add: inmem_UpdateTerminal_def inmem_rows_def Terminal_def terminal_row_def Let_def
      split: option.splits)

lemma inmem_rows_update [simp]:
  "inmem_rows (s\<lparr>ops := AList.update i op (ops s)\<rparr>) = (inmem_rows s)(i \<mapsto> op)"
  by (simp add: inmem_rows_def update_conv')

lemma inmem_keyed: "inmem_inv s \<Longrightarrow> inmem_rows s i = Some op \<Longrightarrow> Op_OperationID op = i"
  by (auto simp: inmem_inv_def inmem_rows_def dest: map_of_SomeD)

lemma inmem_listed:
  assumes "inmem_inv s"
  shows "op \<in> set (map snd (ops s)) \<longleftrightarrow> inmem_rows s (Op_OperationID op) = Some op"
  using assms inmem_inv_map_of [OF assms] by (force simp: inmem_inv_def inmem_rows_def)

interpretation inmem: fresh_store inmem_store inmem_rows inmem_inv
proof
  fix s s' :: inMemory and op :: Operation and i :: string and upd :: TerminalUpdate
    and now t :: time and e :: go_error
  assume inv: "inmem_inv s"
  show "inmem_inv s' \<and> inmem_rows s' = (inmem_rows s)(Op_OperationID op \<mapsto> op)"
    if "PutOperation inmem_store op s = (None, s')"
    using that inv by (auto simp: inmem_store_def inmem_PutOperation_def inmem_inv_update)
  show "inmem_inv s' \<and> (inmem_rows s' = inmem_rows s \<or>
      inmem_rows s' = (inmem_rows s)(Op_OperationID op \<mapsto> op))"
    if "PutOperation inmem_store op s = (Some e, s')"
    using that by (simp add: inmem_store_def inmem_PutOperation_def)
  show "inmem_inv s' \<and> inmem_rows s' = inmem_rows s"
    if "GetOperation inmem_store i s = (rg, s')" for rg
    using that inv by (auto simp: inmem_store_def inmem_GetOperation_def split: option.splits)
  show "inmem_rows s i = Some op" if "GetOperation inmem_store i s = (Inr op, s')"
    using that by (auto simp: inmem_store_def inmem_GetOperation_def inmem_rows_def split: option.splits)
  have upd: "inmem_inv s' \<and> (if r = None then terminal_write (inmem_rows s) i upd (inmem_rows s')
      else inmem_rows s' = inmem_rows s)"
    if "UpdateTerminal inmem_store i upd now s = (r, s')" for r
    using that inv inmem_keyed [OF inv, of i]
    by (auto simp: inmem_store_def inmem_update_cases terminal_write_def inmem_inv_update
        split: option.splits if_splits)
  show "inmem_inv s' \<and> terminal_write (inmem_rows s) i upd (inmem_rows s')"
    if "UpdateTerminal inmem_store i upd now s = (None, s')"
    using upd [OF that] by simp
  show "inmem_inv s' \<and> (inmem_rows s' = inmem_rows s \<or>
      terminal_write (inmem_rows s) i upd (inmem_rows s'))"
    if "UpdateTerminal inmem_store i upd now s = (Some e, s')"
    using upd [OF that] by simp
  show "inmem_inv s' \<and> inmem_rows s' = inmem_rows s"
    if "ListRunningPastDeadline inmem_store t s = (rl, s')" for rl
    using that inv by (auto simp: inmem_store_def inmem_ListRunningPastDeadline_def)
  show "inmem_rows s (Op_OperationID op) = Some op \<and> \<not> Terminal op"
    if "ListRunningPastDeadline inmem_store t s = (Inr ops, s')" and "op \<in> set ops" for ops
    using that inmem_listed [OF inv, of op]
    by (auto simp: inmem_store_def inmem_ListRunningPastDeadline_def Terminal_def)
  show "inmem_inv s' \<and> inmem_rows s' = inmem_rows s" if "Ping inmem_store s = (rp, s')" for rp
    using that inv by (auto simp: inmem_store_def inmem_Ping_def)
  show "keyed (inmem_rows s)" using inmem_keyed [OF inv] by (simp add: keyed_def)
qed

section \<open>Properties\<close>

text \<open>Racing terminal writes have exactly one winner. When an operation is running and several
  writers attempt its terminal update, among attempts on other operations and in any order,
  exactly one attempt on it succeeds, the first, and the row ends as that attempt made it.\<close>

lemma inmem_first_terminal_write_wins:
  assumes "inmem_inv s" and "inmem_rows s i = Some op" and "\<not> Terminal op"
    and "Upd_Status upd \<noteq> StatusRunning" and "i \<notin> fst ` set before"
    and "run_updates inmem_store (before @ (i, upd, now) # after) s = (rs, s')"
  shows "wins i rs = 1 \<and> inmem_rows s' i = Some (terminal_row op upd now)"
  using assms(1,2,5,6)
proof (induction before arbitrary: s rs)
  case Nil
  obtain s1 where u: "UpdateTerminal inmem_store i upd now s = (None, s1)"
    and row: "inmem_rows s1 i = Some (terminal_row op upd now)"
    using Nil.prems assms(3) by (simp add: inmem_store_def inmem_update_cases)
  have inv: "inmem_inv s1" using inmem.update_ok [OF Nil.prems(1) u] by blast
  obtain rs1 where run: "run_updates inmem_store after s1 = (rs1, s')" and rs: "rs = (i, None) # rs1"
    using Nil.prems(4) u by (auto split: prod.splits)
  have "Terminal (terminal_row op upd now)" using assms(4) by (simp add: Terminal_def)
  from inmem.no_win_after_terminal [OF inv row this run] rs show ?case by simp
next
  case (Cons a before)
  obtain j upd' now' where a: "a = (j, upd', now')" by (cases a)
  with Cons.prems have "j \<noteq> i" by auto
  obtain r s1 where u: "UpdateTerminal inmem_store j upd' now' s = (r, s1)" by fastforce
  have inv: "inmem_inv s1" using inmem.update_rows [OF Cons.prems(1) u] by blast
  have row: "inmem_rows s1 i = Some op"
    using inmem.update_other [OF Cons.prems(1) u, of i] Cons.prems(2) \<open>j \<noteq> i\<close> by simp
  obtain rs1 where run: "run_updates inmem_store (before @ (i, upd, now) # after) s1 = (rs1, s')"
    and rs: "rs = (j, r) # rs1"
    using Cons.prems(4) a u by (auto split: prod.splits)
  show ?case using Cons.IH [OF inv row _ run] Cons.prems(3) rs \<open>j \<noteq> i\<close> by simp
qed

definition sample_operation :: Operation where
  "sample_operation =
     \<lparr>Op_OperationID = ''op_1'', Op_Repository = ''org/api'', Op_RepositoryID = ''7'',
      Op_RepositoryOwner = ''org'', Op_Actor = ''octocat'', Op_Workflow = ''cd'',
      Op_WorkflowRef = '''', Op_RunID = ''4711'', Op_RunAttempt = ''1'', Op_EventName = ''push'',
      Op_Action = ''deployment.restart'', Op_Namespace = ''backend'', Op_Deployment = ''api'',
      Op_Container = '''', Op_Image = '''', Op_NsDep = ''backend#api'', Op_Status = StatusRunning,
      Op_ErrorCode = '''', Op_ErrorMessage = '''', Op_RequestedAt = 0, Op_CompletedAt = None,
      Op_ExpiresAt = 31536000, Op_Events = []\<rparr>"

definition sample_update :: "OperationStatus \<Rightarrow> TerminalUpdate" where
  "sample_update st =
     \<lparr>Upd_Status = st, Upd_Event = ''DONE'', Upd_ErrorCode = '''', Upd_ErrorMessage = '''',
      Upd_CompletedAt = 5\<rparr>"

definition sample_store :: inMemory where
  "sample_store = \<lparr>ops = [(''op_1'', sample_operation)]\<rparr>"

lemmas samples = sample_operation_def sample_update_def sample_store_def

lemma sample_store_inv: "inmem_inv sample_store"
  by (simp add: samples inmem_inv_def)

lemma sample_store_row: "inmem_rows sample_store ''op_1'' = Some sample_operation"
  by (simp add: sample_store_def inmem_rows_def)

lemma sample_operation_running: "\<not> Terminal sample_operation"
  by (simp add: sample_operation_def Terminal_def)

text \<open>The sweep query of the in-memory store returns exactly the stored operations that are
  running and were requested strictly before the cutoff.\<close>

lemma inmem_ListRunningPastDeadline_exact:
  assumes "inmem_inv s"
  shows "\<exists>found. ListRunningPastDeadline inmem_store cutoff s = (Inr found, s) \<and>
    set found = {op. inmem_rows s (Op_OperationID op) = Some op \<and> \<not> Terminal op \<and>
                     Op_RequestedAt op < cutoff}"
proof -
  have "set (filter (\<lambda>op. Op_Status op = StatusRunning \<and> Op_RequestedAt op < cutoff)
      (map snd (ops s))) =
    {op. inmem_rows s (Op_OperationID op) = Some op \<and> \<not> Terminal op \<and> Op_RequestedAt op < cutoff}"
    using inmem_listed [OF assms] by (auto simp: Terminal_def)
  then show ?thesis by (simp add: inmem_store_def inmem_ListRunningPastDeadline_def)
qed

end
