(* ===== verification/Go_Threads.thy ===== *)
theory Go_Threads
  imports Go_Monad
begin

text \<open>
  Goroutines that share memory. A program is a sequence of atomic steps on the shared state, written
  in the state monad over its view of an execution: the memory, what the other goroutines do to
  it before each of the program's own steps, and the own steps so far, each with the memory before and
  after it. \<open>th_others\<close> is arbitrary, so a theorem about a view holds for every interleaving; run with
  others that do nothing, the same program is a sequential one.
\<close>

section \<open>Atomic steps\<close>

record 's thread =
  th_mem :: 's
  th_others :: "nat \<Rightarrow> 's \<Rightarrow> 's"
  th_own :: "('s \<times> 's) list"

definition th_found :: "'s thread \<Rightarrow> 's" where
  "th_found w = th_others w (length (th_own w)) (th_mem w)"

definition moved :: "'s thread \<Rightarrow> 's \<Rightarrow> 's thread" where
  "moved w s = w\<lparr>th_mem := s, th_own := th_own w @ [(th_found w, s)]\<rparr>"

definition atomic :: "('s \<Rightarrow> 'r \<times> 's) \<Rightarrow> ('s thread, 'r) state" where
  "atomic f = State_Monad.State (\<lambda>w. case f (th_found w) of (r, s) \<Rightarrow> (r, moved w s))"

abbreviation peek :: "('s \<Rightarrow> 'r) \<Rightarrow> ('s thread, 'r) state" where
  "peek f \<equiv> atomic (\<lambda>s. (f s, s))"

abbreviation change :: "('s \<Rightarrow> 's) \<Rightarrow> ('s thread, unit) state" where
  "change f \<equiv> atomic (\<lambda>s. ((), f s))"

lemma run_atomic: "run_state (atomic f) w = (fst (f (th_found w)), moved w (snd (f (th_found w))))"
  by (simp add: atomic_def split: prod.splits)

lemma moved_simps [simp]:
  "th_mem (moved w s) = s" "th_others (moved w s) = th_others w"
  "th_own (moved w s) = th_own w @ [(th_found w, s)]"
  by (simp_all add: moved_def)

section \<open>Sequential runs\<close>

definition alone :: "'s \<Rightarrow> 's thread" where
  "alone s = \<lparr>th_mem = s, th_others = (\<lambda>_ s. s), th_own = []\<rparr>"

definition solo :: "('s thread, 'r) state \<Rightarrow> 's \<Rightarrow> 'r \<times> 's" where
  "solo m s = (case run_state m (alone s) of (r, w) \<Rightarrow> (r, th_mem w))"

lemma alone_simps [simp]: "th_mem (alone s) = s" "th_own (alone s) = []" "th_others (alone s) = (\<lambda>_ s. s)"
  by (simp_all add: alone_def)

section \<open>Runs under interference\<close>

text \<open>
  \<open>obeys P w\<close>: what the others do between two steps is within \<open>P\<close>. \<open>behaves P m r tr\<close>: in some execution
  whose other goroutines keep to \<open>P\<close>, the program returns \<open>r\<close> after exactly the steps \<open>tr\<close>.
\<close>

definition obeys :: "('s \<Rightarrow> 's \<Rightarrow> bool) \<Rightarrow> 's thread \<Rightarrow> bool" where
  "obeys P w \<longleftrightarrow> (\<forall>n s. P s (th_others w n s))"

definition behaves :: "('s \<Rightarrow> 's \<Rightarrow> bool) \<Rightarrow> ('s thread, 'r) state \<Rightarrow> 'r \<Rightarrow> ('s \<times> 's) list \<Rightarrow> bool" where
  "behaves P m r tr \<longleftrightarrow> (\<exists>w w'. th_own w = [] \<and> obeys P w \<and> run_state m w = (r, w') \<and> th_own w' = tr)"

lemma obeys_moved [simp]: "obeys P (moved w s) = obeys P w"
  by (simp add: obeys_def)

lemma obeys_found: "obeys P w \<Longrightarrow> P (th_mem w) (th_found w)"
  by (simp add: obeys_def th_found_def)

lemma obeys_alone: "(\<And>s. P s s) \<Longrightarrow> obeys P (alone s)"
  by (simp add: obeys_def)

lemma solo_behaves:
  assumes "solo m s = (r, s')" and "\<And>s. P s s"
  shows "\<exists>tr. behaves P m r tr"
proof -
  obtain w' where run: "run_state m (alone s) = (r, w')" using assms(1) by (auto simp: solo_def split: prod.splits)
  have "behaves P m r (th_own w')"
    unfolding behaves_def using run obeys_alone [of P s, OF assms(2)] by (metis alone_simps(2))
  then show ?thesis ..
qed

text \<open>Invariants of a view reduce to its elementary steps.\<close>

lemma keeps_atomic:
  "(\<And>w. I w \<Longrightarrow> I (moved w (snd (f (th_found w)))) \<and> R (fst (f (th_found w)))) \<Longrightarrow> keeps I (atomic f) R"
  by (simp add: keeps_def run_atomic)

section \<open>Interleavings\<close>

text \<open>
  An execution of several goroutines is an interleaving of their steps in which every step starts where
  the one before it ended, up to what may happen when none of them runs.
\<close>

inductive interleaved :: "'a list list \<Rightarrow> 'a list \<Rightarrow> bool" where
  finished: "(\<And>t. t \<in> set ts \<Longrightarrow> t = []) \<Longrightarrow> interleaved ts []"
| next_step: "i < length ts \<Longrightarrow> ts ! i = x # t \<Longrightarrow> interleaved (ts[i := t]) tr \<Longrightarrow> interleaved ts (x # tr)"

fun linked :: "('s \<Rightarrow> 's \<Rightarrow> bool) \<Rightarrow> 's \<Rightarrow> ('s \<times> 's) list \<Rightarrow> bool" where
  "linked P s [] = True"
| "linked P s ((u, v) # tr) = (P s u \<and> linked P v tr)"

lemma at_index:
  assumes "i < length ts" and "ts ! i = x"
  obtains a b where "ts = a @ x # b" and "\<And>y. ts[i := y] = a @ y # b"
  using assms id_take_nth_drop [of i ts] upd_conv_take_nth_drop [of i ts] by blast

lemma interleaved_set: "interleaved ts tr \<Longrightarrow> set tr = \<Union> (set ` set ts)"
proof (induction rule: interleaved.induct)
  case (finished ts)
  then show ?case by fastforce
next
  case (next_step i ts x t tr)
  have "\<Union> (set ` set (a @ (x # t) # b)) = insert x (\<Union> (set ` set (a @ t # b)))" for a b by auto
  moreover obtain a b where "ts = a @ (x # t) # b" "\<And>y. ts[i := y] = a @ y # b"
    using at_index [OF next_step.hyps(1,2)] by blast
  ultimately show ?case using next_step.IH by simp
qed

lemma interleaved_sum:
  fixes f :: "'a \<Rightarrow> 'b :: comm_monoid_add"
  shows "interleaved ts tr \<Longrightarrow> (\<Sum>x \<leftarrow> tr. f x) = (\<Sum>t \<leftarrow> ts. \<Sum>x \<leftarrow> t. f x)"
proof (induction rule: interleaved.induct)
  case (finished ts)
  then have "(\<Sum>x \<leftarrow> t. f x) = 0" if "t \<in> set ts" for t using that by fastforce
  then show ?case by (simp add: sum_list_0 cong: map_cong)
next
  case (next_step i ts x t tr)
  have "(\<Sum>t \<leftarrow> a @ (x # t) # b. \<Sum>x \<leftarrow> t. f x) = f x + (\<Sum>t \<leftarrow> a @ t # b. \<Sum>x \<leftarrow> t. f x)" for a b
    by (simp add: algebra_simps)
  moreover obtain a b where "ts = a @ (x # t) # b" "\<And>y. ts[i := y] = a @ y # b"
    using at_index [OF next_step.hyps(1,2)] by blast
  ultimately show ?case using next_step.IH by simp
qed

text \<open>What every step of every goroutine keeps, and the pauses keep, holds throughout.\<close>

definition final :: "'s \<Rightarrow> ('s \<times> 's) list \<Rightarrow> 's" where
  "final s tr = (if tr = [] then s else snd (last tr))"

lemma final_simps [simp]: "final s [] = s" "final s ((u, v) # tr) = final v tr"
  by (simp_all add: final_def)

lemma linked_invariant:
  assumes "linked P s tr" and "J s" and "\<And>s s'. P s s' \<Longrightarrow> J s \<Longrightarrow> J s'"
    and "\<And>u v. (u, v) \<in> set tr \<Longrightarrow> J u \<Longrightarrow> J v" and "(u, v) \<in> set tr"
  shows "J u \<and> J v"
  using assms
proof (induction P s tr rule: linked.induct)
  case (2 P s a b tr)
  have "J a" using "2.prems"(1-3) by auto
  with "2.prems"(4) [of a b] have "J b" by simp
  with \<open>J a\<close> "2.prems" "2.IH" show ?case by (cases "(u, v) = (a, b)") auto
qed simp

lemma interleaved_invariant:
  assumes "interleaved ts tr" and "linked P s tr" and "J s" and "\<And>s s'. P s s' \<Longrightarrow> J s \<Longrightarrow> J s'"
    and "\<And>t u v. t \<in> set ts \<Longrightarrow> (u, v) \<in> set t \<Longrightarrow> J u \<Longrightarrow> J v" and "t \<in> set ts" and "(u, v) \<in> set t"
  shows "J u \<and> J v"
proof (rule linked_invariant [where J = J, OF assms(2,3)])
  show "J s'" if "P s s'" and "J s" for s s' using that by (rule assms(4))
qed (use assms(5-7) in \<open>auto simp: interleaved_set [OF assms(1)]\<close>)

end
