(* ===== verification/Store_Shared.thy ===== *)
theory Store_Shared
  imports Store Go_Threads
begin

text \<open>
  A store that several goroutines use at once, as each of them sees it: its state is a view of the
  shared memory, every call makes some steps on that memory, and the others run before each step.
  \<open>concurrent_store\<close> is what a caller may rely on. A store whose calls are atomic, as the in-memory one whose
  methods hold its mutex, is made into one by \<open>shared\<close>.
\<close>

section \<open>Steps on the rows\<close>

text \<open>One step changes nothing, adds a row, or makes one terminal write.\<close>

definition lawful :: "('d \<Rightarrow> rows) \<Rightarrow> ('d \<Rightarrow> bool) \<Rightarrow> 'd \<Rightarrow> 'd \<Rightarrow> bool" where
  "lawful rows good u v \<longleftrightarrow> good v \<and> (rows v = rows u \<or> row_step (rows u) (rows v))"

text \<open>The ids under which a step adds a row\<close>

definition adds :: "('d \<Rightarrow> rows) \<Rightarrow> 'd \<Rightarrow> 'd \<Rightarrow> string set" where
  "adds rows u v = {i. rows u i = None \<and> rows v i \<noteq> None}"

text \<open>
  What a goroutine relies on: the others keep the store in order, and add no row under an id that
  is its own, which is what the generator of the ids promises.
\<close>

definition spares :: "('d \<Rightarrow> rows) \<Rightarrow> ('d \<Rightarrow> bool) \<Rightarrow> string set \<Rightarrow> 'd \<Rightarrow> 'd \<Rightarrow> bool" where
  "spares rows good ids s s' \<longleftrightarrow>
     (good s \<longrightarrow> good s') \<and> (\<forall>i \<in> ids. rows s i = None \<longrightarrow> rows s' i = None)"

definition primed :: "('d \<Rightarrow> rows) \<Rightarrow> ('d \<Rightarrow> bool) \<Rightarrow> string set \<Rightarrow> 'd thread \<Rightarrow> bool" where
  "primed rows good ids v \<longleftrightarrow> obeys (spares rows good ids) v \<and> good (th_mem v) \<and>
     (\<forall>i \<in> ids. rows (th_mem v) i = None)"

lemma primed_found:
  assumes "primed rows good ids v"
  shows "good (th_found v)" and "i \<in> ids \<Longrightarrow> rows (th_found v) i = None"
  using assms obeys_found [of "spares rows good ids" v] by (auto simp: primed_def spares_def)

lemma spares_subset: "spares rows good ids s s' \<Longrightarrow> ids' \<subseteq> ids \<Longrightarrow> spares rows good ids' s s'"
  by (auto simp: spares_def)

lemma primed_subset: "primed rows good ids v \<Longrightarrow> ids' \<subseteq> ids \<Longrightarrow> primed rows good ids' v"
  by (auto simp: primed_def obeys_def intro: spares_subset)

lemma primed_moved:
  assumes "primed rows good ids v" and "good s" and "adds rows (th_found v) s \<inter> ids = {}"
  shows "primed rows good ids (moved v s)"
proof -
  have "rows s i = None" if "i \<in> ids" for i
  proof (rule ccontr)
    assume "rows s i \<noteq> None"
    with primed_found(2) [OF assms(1) that] have "i \<in> adds rows (th_found v) s" by (simp add: adds_def)
    with assms(3) that show False by blast
  qed
  with assms(1,2) show ?thesis by (simp add: primed_def)
qed

lemma lawful_spares:
  "(good u \<Longrightarrow> lawful rows good u v) \<Longrightarrow> adds rows u v \<inter> ids = {} \<Longrightarrow> spares rows good ids u v"
  by (auto simp: spares_def lawful_def adds_def)

lemma lawful_evolves: "lawful rows good u v \<Longrightarrow> evolves (rows u) (rows v)"
  by (auto simp: lawful_def)

lemma lawful_same: "good v \<Longrightarrow> rows v = rows u \<Longrightarrow> lawful rows good u v \<and> adds rows u v = {}"
  by (auto simp: lawful_def adds_def)

lemma lawful_put:
  "good v \<Longrightarrow> rows u (Op_OperationID op) = None \<Longrightarrow> rows v = (rows u)(Op_OperationID op \<mapsto> op) \<Longrightarrow>
     lawful rows good u v \<and> adds rows u v \<subseteq> {Op_OperationID op}"
  by (auto simp: lawful_def adds_def intro: row_step.put)

lemma lawful_write:
  "good v \<Longrightarrow> terminal_write (rows u) i upd (rows v) \<Longrightarrow> Upd_Status upd \<noteq> StatusRunning \<Longrightarrow>
     lawful rows good u v \<and> adds rows u v = {}"
  using row_step.update [of "rows u" i upd "rows v"]
  by (auto simp: lawful_def adds_def terminal_write_def split: if_splits)

section \<open>The contract of a shared store\<close>

text \<open>
  \<open>call_steps rows good ids v tr v'\<close>: the call has made the steps \<open>tr\<close>, all lawful, which add rows under \<open>ids\<close> only.
\<close>

definition call_steps ::
  "('d \<Rightarrow> rows) \<Rightarrow> ('d \<Rightarrow> bool) \<Rightarrow> string set \<Rightarrow> 'd thread \<Rightarrow> ('d \<times> 'd) list \<Rightarrow> 'd thread \<Rightarrow> bool" where
  "call_steps rows good ids v tr v' \<longleftrightarrow> th_own v' = th_own v @ tr \<and>
     (\<forall>(u, w) \<in> set tr. lawful rows good u w \<and> adds rows u w \<subseteq> ids)"

definition writes :: "('d \<Rightarrow> rows) \<Rightarrow> string \<Rightarrow> TerminalUpdate \<Rightarrow> ('d \<times> 'd) list \<Rightarrow> bool" where
  "writes rows i upd tr \<longleftrightarrow> (\<exists>(u, w) \<in> set tr. terminal_write (rows u) i upd (rows w))"

locale concurrent_store =
  fixes st :: "'d thread store_api" and rows :: "'d \<Rightarrow> rows" and good :: "'d \<Rightarrow> bool"
  assumes c_put: "primed rows good ids v \<Longrightarrow> Op_OperationID op \<in> ids \<Longrightarrow> PutOperation st op v = (rp, v') \<Longrightarrow>
      \<exists>tr. call_steps rows good {Op_OperationID op} v tr v' \<and> primed rows good (ids - {Op_OperationID op}) v'"
    and c_get: "primed rows good ids v \<Longrightarrow> GetOperation st i v = (rg, v') \<Longrightarrow>
      \<exists>tr. call_steps rows good {} v tr v' \<and> primed rows good ids v'"
    and c_list: "primed rows good ids v \<Longrightarrow> ListRunningPastDeadline st t v = (rl, v') \<Longrightarrow>
      \<exists>tr. call_steps rows good {} v tr v' \<and> primed rows good ids v'"
    and c_ping: "primed rows good ids v \<Longrightarrow> Ping st v = (rn, v') \<Longrightarrow>
      \<exists>tr. call_steps rows good {} v tr v' \<and> primed rows good ids v'"
    and c_update: "primed rows good ids v \<Longrightarrow> Upd_Status upd \<noteq> StatusRunning \<Longrightarrow>
      UpdateTerminal st i upd now v = (ru, v') \<Longrightarrow>
      \<exists>tr. call_steps rows good {} v tr v' \<and> primed rows good ids v' \<and> (ru = None \<longrightarrow> writes rows i upd tr)"

section \<open>Stores with atomic calls\<close>

definition one_step :: "('d \<Rightarrow> 'r \<times> 'd) \<Rightarrow> 'd thread \<Rightarrow> 'r \<times> 'd thread" where
  "one_step f v = (case f (th_found v) of (r, s) \<Rightarrow> (r, moved v s))"

definition shared :: "'d store_api \<Rightarrow> 'd thread store_api" where
  "shared st =
     \<lparr>PutOperation = (\<lambda>op. one_step (PutOperation st op)), GetOperation = (\<lambda>i. one_step (GetOperation st i)),
      UpdateTerminal = (\<lambda>i upd now. one_step (UpdateTerminal st i upd now)),
      ListRunningPastDeadline = (\<lambda>t. one_step (ListRunningPastDeadline st t)), Ping = one_step (Ping st)\<rparr>"

lemma one_step_call:
  assumes "primed rows good ids v" and "one_step f v = (r, v')"
    and "\<And>s s'. good s \<Longrightarrow> (\<forall>i \<in> ids. rows s i = None) \<Longrightarrow> f s = (r, s') \<Longrightarrow>
      lawful rows good s s' \<and> adds rows s s' \<subseteq> new"
  shows "call_steps rows good new v [(th_found v, th_mem v')] v' \<and> primed rows good (ids - new) v' \<and>
    f (th_found v) = (r, th_mem v') \<and> good (th_found v)"
proof -
  from assms(2) obtain s where f: "f (th_found v) = (r, s)" and v': "v' = moved v s"
    by (auto simp: one_step_def split: prod.splits)
  note found = primed_found [OF assms(1)]
  have step: "lawful rows good (th_found v) s" "adds rows (th_found v) s \<subseteq> new"
    using assms(3) [OF found(1) _ f] found(2) by auto
  moreover have "primed rows good (ids - new) (moved v s)"
    by (rule primed_moved [OF primed_subset [OF assms(1)]]) (use step in \<open>auto simp: lawful_def\<close>)
  ultimately show ?thesis using f v' found(1) by (simp add: call_steps_def)
qed

lemma shared_call:
  assumes "primed rows good ids v" and "one_step f v = (r, v')"
    and "\<And>s s'. good s \<Longrightarrow> f s = (r, s') \<Longrightarrow> good s' \<and> rows s' = rows s"
  shows "\<exists>tr. call_steps rows good {} v tr v' \<and> primed rows good ids v'"
  using one_step_call [OF assms(1,2), where new = "{}"] assms(3) lawful_same by (metis Diff_empty order_refl)

lemma shared_put:
  assumes "primed rows good ids v" and "Op_OperationID op \<in> ids" and "one_step f v = (r, v')"
    and "\<And>s s'. good s \<Longrightarrow> rows s (Op_OperationID op) = None \<Longrightarrow> f s = (r, s') \<Longrightarrow>
      good s' \<and> (rows s' = rows s \<or> rows s' = (rows s)(Op_OperationID op \<mapsto> op))"
  shows "\<exists>tr. call_steps rows good {Op_OperationID op} v tr v' \<and> primed rows good (ids - {Op_OperationID op}) v'"
proof -
  have "lawful rows good s s' \<and> adds rows s s' \<subseteq> {Op_OperationID op}"
    if "good s" and "\<forall>i \<in> ids. rows s i = None" and "f s = (r, s')" for s s'
  proof -
    have "rows s (Op_OperationID op) = None" using that(2) assms(2) by blast
    with assms(4) [OF that(1) _ that(3)] show ?thesis
      using lawful_same [of good s' rows s] lawful_put [of good s' rows s op] by blast
  qed
  from one_step_call [OF assms(1,3) this] show ?thesis by blast
qed

lemma shared_update:
  fixes r :: "go_error option"
  assumes "primed rows good ids v" and "Upd_Status upd \<noteq> StatusRunning" and "one_step f v = (r, v')"
    and "\<And>s s'. good s \<Longrightarrow> f s = (r, s') \<Longrightarrow>
      good s' \<and> (terminal_write (rows s) i upd (rows s') \<or> r \<noteq> None \<and> rows s' = rows s)"
  shows "\<exists>tr. call_steps rows good {} v tr v' \<and> primed rows good ids v' \<and> (r = None \<longrightarrow> writes rows i upd tr)"
proof -
  have "lawful rows good s s' \<and> adds rows s s' \<subseteq> {}" if "good s" and "f s = (r, s')" for s s'
    using assms(4) [OF that] lawful_same [of good s' rows s] lawful_write [of good s' rows s i upd] assms(2) by blast
  note call = one_step_call [OF assms(1,3) this]
  have "writes rows i upd [(th_found v, th_mem v')]" if "r = None"
    using call assms(4) [of "th_found v" "th_mem v'"] that by (simp add: writes_def)
  with call show ?thesis by auto
qed

context store_contract
begin

lemma shared_contract: "concurrent_store (shared st) rows inv"
proof
  fix ids v v' op i t upd now rp rg rl ru rn
  assume ready: "primed rows inv ids v"
  show "\<exists>tr. call_steps rows inv {} v tr v' \<and> primed rows inv ids v'" if "GetOperation (shared st) i v = (rg, v')"
    using shared_call [OF ready, of "GetOperation st i"] that get_rows by (simp add: shared_def)
  show "\<exists>tr. call_steps rows inv {} v tr v' \<and> primed rows inv ids v'"
    if "ListRunningPastDeadline (shared st) t v = (rl, v')"
    using shared_call [OF ready, of "ListRunningPastDeadline st t"] that list_rows by (simp add: shared_def)
  show "\<exists>tr. call_steps rows inv {} v tr v' \<and> primed rows inv ids v'" if "Ping (shared st) v = (rn, v')"
    using shared_call [OF ready, of "Ping st"] that ping_rows by (simp add: shared_def)
  show "\<exists>tr. call_steps rows inv {Op_OperationID op} v tr v' \<and> primed rows inv (ids - {Op_OperationID op}) v'"
    if "Op_OperationID op \<in> ids" and "PutOperation (shared st) op v = (rp, v')"
    by (rule shared_put [OF ready that(1), where f = "PutOperation st op" and r = rp])
      (use that put_rows in \<open>auto simp: shared_def\<close>)
  show "\<exists>tr. call_steps rows inv {} v tr v' \<and> primed rows inv ids v' \<and> (ru = None \<longrightarrow> writes rows i upd tr)"
    if "Upd_Status upd \<noteq> StatusRunning" and "UpdateTerminal (shared st) i upd now v = (ru, v')"
  proof (rule shared_update [OF ready that(1)])
    show "one_step (UpdateTerminal st i upd now) v = (ru, v')" using that(2) by (simp add: shared_def)
    show "inv s' \<and> (terminal_write (rows s) i upd (rows s') \<or> ru \<noteq> None \<and> rows s' = rows s)"
      if "inv s" and "UpdateTerminal st i upd now s = (ru, s')" for s s'
      using update_rows [OF that] update_ok [OF that(1)] that(2) by (cases ru) auto
  qed
qed

end

end
