(* ===== verification/Manager_Effects.thy ===== *)
theory Manager_Effects
  imports Manager Store_InMem Store_Shared
begin

text \<open>
  What the manager can do to the process. \<open>manager_kernel\<close> reduces any preorder on process
  states to the elementary actions of the manager; it is interpreted for the clock and for what a
  goroutine of the manager does to a shared store and to the notifications.
\<close>

section \<open>The kernel\<close>

locale manager_kernel = run_preorder Q
  for Q :: "('s, 'k, 'n, 'a) rt \<Rightarrow> ('s, 'k, 'n, 'a) rt \<Rightarrow> bool" +
  fixes m :: "('s, 'k, 'n) Manager"
  assumes q_time: "state_io_rel Q time_Now"
    and q_log: "state_io_rel Q (log_line l t)"
    and q_sleep: "state_io_rel Q (sleep ctx d)"
    and q_kube_restart: "state_io_rel Q (kube_call (RestartDeployment (mgr_kube m) ns dep))"
    and q_kube_rollout: "state_io_rel Q (kube_call (RolloutDeployment (mgr_kube m) ns dep c img))"
    and q_kube_get: "state_io_rel Q (kube_call (GetDeployment (mgr_kube m) ns dep))"
    and q_kube_watch: "state_io_rel Q (kube_call (WatchDeployment (mgr_kube m) ns dep))"
    and q_started: "state_io_rel Q (notify_call (Started (mgr_notify m) op))"
    and q_watch: "state_io_rel Q (go_watch op msg)"
    and q_get: "state_io_rel Q (store_call (GetOperation (mgr_store m) oid))"
    and q_list: "state_io_rel Q (store_call (ListRunningPastDeadline (mgr_store m) older))"
    and q_persist: "(\<And>oid. Op_OperationID (build oid) = oid) \<Longrightarrow> state_io_rel Q (persist_new m build)"
    and q_resolve: "Upd_Status upd \<noteq> StatusRunning \<Longrightarrow> state_io_rel Q (resolve m op msg what upd)"
begin

lemma q_ctx: "state_io_rel Q (ctx_Err ctx)"
  by (auto simp: run_refl)

lemma q_fail: "state_io_rel Q (failOperation m op msg code e)"
  unfolding failOperation_def by (intro io_rules q_time q_resolve) (simp add: status_defs)

lemma q_complete: "state_io_rel Q (completeOperation m op msg reason)"
  unfolding completeOperation_def by (intro io_rules q_time q_resolve q_log) (simp add: status_defs)

lemma q_timeout: "state_io_rel Q (timeoutOperation m op msg e)"
  unfolding timeoutOperation_def by (intro io_rules q_time q_resolve) (simp add: status_defs)

lemmas q_rules = io_rules q_time q_log q_sleep q_kube_restart q_kube_rollout q_kube_get q_kube_watch
  q_started q_watch q_get q_list q_persist q_ctx q_fail q_complete q_timeout

lemma q_Restart: "state_io_rel Q (Restart m i ns dep)"
  unfolding Restart_def by (intro q_rules) (simp add: new_operation_def)

lemma q_resolveContainer: "state_io_rel Q (resolveContainer m ns dep)"
  unfolding resolveContainer_def by (intro q_rules)

lemma q_recordFailed: "state_io_rel Q (recordFailedRollout m i ns dep c img code e)"
  unfolding recordFailedRollout_def by (intro q_rules) (simp add: new_operation_def)

lemma q_start_rollout: "state_io_rel Q (start_rollout m i ns dep c img)"
  unfolding start_rollout_def by (intro q_rules) (simp add: new_operation_def)

lemma q_Rollout: "state_io_rel Q (Rollout m i ns dep c img)"
  unfolding Rollout_def
  by (intro q_rules q_resolveContainer q_recordFailed q_start_rollout)

lemma q_judge: "state_io_rel Q (judge m op msg dep)"
  unfolding judge_def Let_def by (intro q_rules)

lemma q_evalOnce: "state_io_rel Q (evalOnce m op msg)"
  unfolding evalOnce_def by (intro q_rules q_judge)

lemma q_watch_events: "state_io_rel Q (watch_events m op msg evs)"
  by (induction evs) (auto intro!: q_rules q_judge split: option.splits simp del: bind_assoc)

lemma q_watch_body: "state_io_rel Q (watch_body m ctx op msg backoff)"
  unfolding watch_body_def by (intro q_rules q_evalOnce q_watch_events)

lemma q_watch_loop:
  assumes "watch_loop m ctx op msg backoff w = Some w'"
  shows "Q w w'"
proof (rule watch_loop.raw_induct
    [where P = "\<lambda>m' ctx op msg backoff w w'. m' = m \<longrightarrow> Q w w'", rule_format, OF _ assms refl])
  fix loop m' ctx op msg backoff w w'
  assume IH: "\<And>m' ctx op msg backoff w w'. loop m' ctx op msg backoff w = Some w' \<Longrightarrow> m' = m \<Longrightarrow> Q w w'"
    and run: "(case run_state (watch_body m' ctx op msg backoff) w of (over, w1) \<Rightarrow>
      if over then Some w1 else loop m' ctx op msg (min (2 * backoff) maxBackoff) w1) = Some w'"
    and m: "m' = m"
  obtain over w1 where b: "run_state (watch_body m ctx op msg backoff) w = (over, w1)" by fastforce
  then have "Q w w1" using q_watch_body by blast
  then show "Q w w'" using run b m IH run_trans by (auto split: if_splits)
qed

lemma q_watchRollout:
  assumes "watchRollout m op msg w = Some w'"
  shows "Q w w'"
proof -
  obtain d w1 where d: "run_state (watch_deadline m op) w = (d, w1)" by fastforce
  have "state_io_rel Q (watch_deadline m op)" unfolding watch_deadline_def by (intro q_rules)
  then have "Q w w1" using d by blast
  with assms d show ?thesis by (auto simp: watchRollout_def intro: run_trans q_watch_loop)
qed

lemma q_resolveRunning: "state_io_rel Q (resolveRunning m ctx op)"
  unfolding resolveRunning_def Let_def by (intro q_rules)

lemma q_ReconcileSweep: "state_io_rel Q (ReconcileSweep m ctx)"
  unfolding ReconcileSweep_def by (intro q_rules q_resolveRunning)

lemma q_StartSweeper: "state_io_rel Q (StartSweeper m ctx es)"
  by (induction es) (auto intro!: io_pure io_bind q_ReconcileSweep split: sweeper_event.splits)

lemma q_Get: "state_io_rel Q (Get m ctx oid)"
  unfolding Get_def by (intro q_rules q_resolveRunning)

end

section \<open>The clock\<close>

lemma later_resolve [clk_mono]: "state_io_rel later (resolve m op msg what upd)"
  unfolding resolve_def logTerminalWriteErr_def
  by (intro later.io_rules later_actions)

lemma later_persist [clk_mono]: "state_io_rel later (persist_new m build)"
  unfolding persist_new_def NewOperationID_def Let_def
  by (intro later.io_rules later_actions)

interpretation clock_kernel: manager_kernel later m for m
  by unfold_locales (intro later_actions later_resolve later_persist)+

section \<open>Goroutines of the manager\<close>

text \<open>
  What a goroutine that runs the manager's code does to the shared store and to the notifications,
  while others run between any two of its steps on the store. Its notification jobs are balanced by
  its terminal writes: it announces a resolution only after a write of its own has made the row
  terminal. A terminal write whose response is lost takes effect without being announced.
\<close>

primrec job_resolves :: "string \<Rightarrow> job \<Rightarrow> bool" where
  "job_resolves i (StartJob n j t) = False"
| "job_resolves i (ResolveJob msg j t) = (j = i)"

definition resolve_jobs :: "string \<Rightarrow> job list \<Rightarrow> nat" where
  "resolve_jobs i J = length (filter (job_resolves i) J)"

lemma resolve_jobs_simps [simp]:
  "resolve_jobs i [] = 0" "resolve_jobs i [StartJob n j t] = 0"
  "resolve_jobs i [ResolveJob msg j t] = (if j = i then 1 else 0)"
  "resolve_jobs i (J @ J') = resolve_jobs i J + resolve_jobs i J'"
  by (simp_all add: resolve_jobs_def)

definition settled :: "rows \<Rightarrow> string \<Rightarrow> nat" where
  "settled R i = (case R i of None \<Rightarrow> 0 | Some op \<Rightarrow> if Terminal op then 1 else 0)"

lemma settled_write:
  assumes "terminal_write R i upd R'" and "Upd_Status upd \<noteq> StatusRunning"
  shows "settled R i = 0 \<and> settled R' i = 1 \<and> (\<forall>j. j \<noteq> i \<longrightarrow> settled R' j = settled R j)"
  using assms by (auto simp: terminal_write_def settled_def Terminal_def)

lemma row_step_settled:
  assumes "row_step R R'"
  shows "settled R i \<le> settled R' i"
  using assms
proof (cases rule: row_step.cases)
  case (update j upd)
  with settled_write [OF update(1,2)] show ?thesis by (cases "i = j") auto
qed (auto simp: settled_def)

text \<open>How often a sequence of steps makes a row terminal\<close>

definition gain :: "('d \<Rightarrow> rows) \<Rightarrow> string \<Rightarrow> ('d \<times> 'd) list \<Rightarrow> nat" where
  "gain rows i tr = (\<Sum>(u, v) \<leftarrow> tr. settled (rows v) i - settled (rows u) i)"

lemma gain_append [simp]: "gain rows i (tr @ tr') = gain rows i tr + gain rows i tr'"
  by (simp add: gain_def)

lemma writes_gain:
  assumes "writes rows i upd tr" and "Upd_Status upd \<noteq> StatusRunning"
  shows "1 \<le> gain rows i tr"
proof -
  obtain u v where step: "(u, v) \<in> set tr" and "terminal_write (rows u) i upd (rows v)"
    using assms(1) by (auto simp: writes_def)
  with settled_write [OF _ assms(2)] have "settled (rows v) i - settled (rows u) i = 1" by fastforce
  moreover have "settled (rows v) i - settled (rows u) i \<le> gain rows i tr"
    unfolding gain_def by (rule member_le_sum_list) (use step in force)+
  ultimately show ?thesis by simp
qed

text \<open>
  The ids a goroutine still has to come are its own: what the ULID generator promises. The letters
  of a ULID are upper case, so lower-casing keeps them apart.
\<close>

definition op_id :: "string \<Rightarrow> string" where
  "op_id u = ''op_'' @ ToLower u"

definition own_ids :: "('s, 'k, 'n, 'a) rt \<Rightarrow> string set" where
  "own_ids w = (\<lambda>k. op_id (rt_ulid w k)) ` {rt_ulids w..}"

definition in_order ::
  "('d \<Rightarrow> rows) \<Rightarrow> ('d \<Rightarrow> bool) \<Rightarrow> ('d thread, 'k, telegram, 'a) rt \<Rightarrow> bool" where
  "in_order rows good w \<longleftrightarrow>
     primed rows good (own_ids w) (rt_store w) \<and> inj_on (\<lambda>k. op_id (rt_ulid w k)) {rt_ulids w..}"

text \<open>The preorder: a goroutine that starts in order ends in order, after lawful and balanced steps.\<close>

definition balanced ::
  "('d \<Rightarrow> rows) \<Rightarrow> ('d \<Rightarrow> bool) \<Rightarrow> ('d thread, 'k, telegram, 'a) rt \<Rightarrow> ('d thread, 'k, telegram, 'a) rt \<Rightarrow> bool" where
  "balanced rows good w w' \<longleftrightarrow> (\<exists>tr js.
     call_steps rows good (own_ids w) (rt_store w) tr (rt_store w') \<and>
     tg_jobs (rt_notify w') = tg_jobs (rt_notify w) @ js \<and> (\<forall>i. resolve_jobs i js \<le> gain rows i tr))"

definition advances ::
  "('d \<Rightarrow> rows) \<Rightarrow> ('d \<Rightarrow> bool) \<Rightarrow> ('d thread, 'k, telegram, 'a) rt \<Rightarrow> ('d thread, 'k, telegram, 'a) rt \<Rightarrow> bool" where
  "advances rows good w w' \<longleftrightarrow>
     (in_order rows good w \<longrightarrow> in_order rows good w' \<and> own_ids w' \<subseteq> own_ids w \<and> balanced rows good w w')"

lemma call_steps_append:
  assumes "call_steps rows good ids v tr v'" and "call_steps rows good ids' v' tr' v''" and "ids' \<subseteq> ids"
  shows "call_steps rows good ids v (tr @ tr') v''"
  using assms by (fastforce simp: call_steps_def)

lemma call_steps_weaken: "call_steps rows good ids v tr v' \<Longrightarrow> ids \<subseteq> ids' \<Longrightarrow> call_steps rows good ids' v tr v'"
  by (fastforce simp: call_steps_def)

lemma balanced_trans:
  assumes "balanced rows good w w'" and "balanced rows good w' w''" and "own_ids w' \<subseteq> own_ids w"
  shows "balanced rows good w w''"
proof -
  obtain tr js where 1: "call_steps rows good (own_ids w) (rt_store w) tr (rt_store w')"
    "tg_jobs (rt_notify w') = tg_jobs (rt_notify w) @ js" "\<And>i. resolve_jobs i js \<le> gain rows i tr"
    using assms(1) by (auto simp: balanced_def)
  obtain tr' js' where 2: "call_steps rows good (own_ids w') (rt_store w') tr' (rt_store w'')"
    "tg_jobs (rt_notify w'') = tg_jobs (rt_notify w') @ js'" "\<And>i. resolve_jobs i js' \<le> gain rows i tr'"
    using assms(2) by (auto simp: balanced_def)
  show ?thesis unfolding balanced_def
    using call_steps_append [OF 1(1) 2(1) assms(3)] 1(2,3) 2(2,3)
    by (intro exI [of _ "tr @ tr'"] exI [of _ "js @ js'"]) (simp add: add_mono)
qed

lemma advances_quiet:
  assumes "rt_store w' = rt_store w" and "rt_notify w' = rt_notify w"
    and "rt_ulid w' = rt_ulid w" and "rt_ulids w' = rt_ulids w"
  shows "advances rows good w w'"
  using assms
  by (auto simp: advances_def in_order_def own_ids_def balanced_def call_steps_def intro!: exI [of _ "[]"])

text \<open>An action that makes steps on the store and starts jobs, and takes no id\<close>

lemma advancesI:
  assumes "rt_ulid w' = rt_ulid w" and "rt_ulids w' = rt_ulids w"
    and "primed rows good (own_ids w) (rt_store w) \<Longrightarrow> \<exists>tr js.
      call_steps rows good {} (rt_store w) tr (rt_store w') \<and> primed rows good (own_ids w) (rt_store w') \<and>
      tg_jobs (rt_notify w') = tg_jobs (rt_notify w) @ js \<and> (\<forall>i. resolve_jobs i js \<le> gain rows i tr)"
  shows "advances rows good w w'"
  unfolding advances_def
proof
  assume order: "in_order rows good w"
  have ids: "own_ids w' = own_ids w" using assms(1,2) by (simp add: own_ids_def)
  obtain tr js where "call_steps rows good {} (rt_store w) tr (rt_store w')" "primed rows good (own_ids w) (rt_store w')"
    "tg_jobs (rt_notify w') = tg_jobs (rt_notify w) @ js" "\<forall>i. resolve_jobs i js \<le> gain rows i tr"
    using assms(3) order by (auto simp: in_order_def)
  with ids order assms(1,2) show "in_order rows good w' \<and> own_ids w' \<subseteq> own_ids w \<and> balanced rows good w w'"
    by (auto simp: in_order_def balanced_def intro: call_steps_weaken)
qed

locale gateway_goroutine = concurrent_store st rows good
  for st :: "'d thread store_api" and rows :: "'d \<Rightarrow> rows" and good :: "'d \<Rightarrow> bool" +
  fixes m :: "('d thread, 'k, telegram) Manager"
  assumes uses_store: "mgr_store m = st"
    and uses_telegram: "mgr_notify m = telegram_notifier"
begin

lemma advances_resolve:
  assumes "Upd_Status upd \<noteq> StatusRunning"
  shows "state_io_rel (advances rows good) (resolve m op msg what upd)"
proof (rule state_io_relI)
  fix u and w w' :: "('d thread, 'k, telegram, 'a) rt"
  assume run: "run_state (resolve m op msg what upd) w = (u, w')"
  let ?i = "Op_OperationID op"
  obtain r v where upd: "UpdateTerminal st ?i upd (clk_now (rt_clock w)) (rt_store w) = (r, v)" by fastforce
  have store: "rt_store w' = v" "rt_ulid w' = rt_ulid w" "rt_ulids w' = rt_ulids w"
    using run upd by (auto simp: resolve_def logTerminalWriteErr_def uses_store split: option.splits if_splits)
  have jobs: "tg_jobs (rt_notify w') = tg_jobs (rt_notify w) @
      (if r = None then [ResolveJob msg ?i (render (applyTerminal op upd))] else [])"
    using run upd
    by (auto simp: resolve_def logTerminalWriteErr_def uses_store uses_telegram telegram_notifier_def
        telegram_Resolved_def applyTerminal_def split: option.splits if_splits)
  show "advances rows good w w'"
  proof (rule advancesI [OF store(2,3)])
    assume "primed rows good (own_ids w) (rt_store w)"
    from c_update [OF this assms upd] obtain tr where tr: "call_steps rows good {} (rt_store w) tr v"
      "primed rows good (own_ids w) v" "r = None \<longrightarrow> writes rows ?i upd tr" by blast
    moreover have "resolve_jobs i (if r = None then [ResolveJob msg ?i (render (applyTerminal op upd))] else []) \<le> gain rows i tr" for i
      using tr(3) writes_gain [OF _ assms] by auto
    ultimately show "\<exists>tr js. call_steps rows good {} (rt_store w) tr (rt_store w') \<and>
        primed rows good (own_ids w) (rt_store w') \<and> tg_jobs (rt_notify w') = tg_jobs (rt_notify w) @ js \<and>
        (\<forall>i. resolve_jobs i js \<le> gain rows i tr)"
      using store(1) jobs by blast
  qed
qed

lemma advances_query:
  assumes "\<And>ids v r v'. primed rows good ids v \<Longrightarrow> f v = (r, v') \<Longrightarrow>
    \<exists>tr. call_steps rows good {} v tr v' \<and> primed rows good ids v'"
  shows "state_io_rel (advances rows good) (store_call f :: ('d thread, 'k, telegram, 'a, 'r) act)"
proof (rule state_io_relI)
  fix u and w w' :: "('d thread, 'k, telegram, 'a) rt"
  assume run: "run_state (store_call f) w = (u, w')"
  show "advances rows good w w'"
  proof (rule advancesI)
    assume "primed rows good (own_ids w) (rt_store w)"
    moreover obtain r v where "f (rt_store w) = (r, v)" by fastforce
    ultimately show "\<exists>tr js. call_steps rows good {} (rt_store w) tr (rt_store w') \<and>
        primed rows good (own_ids w) (rt_store w') \<and> tg_jobs (rt_notify w') = tg_jobs (rt_notify w) @ js \<and>
        (\<forall>i. resolve_jobs i js \<le> gain rows i tr)"
      using run assms by (fastforce intro: exI [of _ "[]"])
  qed (use run in auto)
qed

lemma advances_persist:
  assumes "\<And>oid. Op_OperationID (build oid) = oid"
  shows "state_io_rel (advances rows good) (persist_new m build)"
proof (rule state_io_relI)
  fix u and w w' :: "('d thread, 'k, telegram, 'a) rt"
  assume run: "run_state (persist_new m build) w = (u, w')"
  let ?i = "op_id (rt_ulid w (rt_ulids w))"
  obtain r v where put: "PutOperation st (build ?i) (rt_store w) = (r, v)" by fastforce
  have w': "rt_store w' = v" "rt_ulid w' = rt_ulid w" "rt_ulids w' = Suc (rt_ulids w)" "rt_notify w' = rt_notify w"
    using run put by (auto simp: persist_new_def NewOperationID_def uses_store op_id_def Let_def)
  show "advances rows good w w'"
    unfolding advances_def
  proof
    assume order: "in_order rows good w"
    have i: "?i \<in> own_ids w" by (simp add: own_ids_def)
    have subset: "own_ids w' \<subseteq> own_ids w - {?i}"
      using order w' by (auto simp: in_order_def own_ids_def dest: inj_onD)
    have inj: "inj_on (\<lambda>k. op_id (rt_ulid w' k)) {rt_ulids w'..}"
      using order w' by (auto simp: in_order_def intro: inj_on_subset)
    from c_put [of "own_ids w" "rt_store w" "build ?i" r v] order put i assms obtain tr
      where tr: "call_steps rows good {?i} (rt_store w) tr v" "primed rows good (own_ids w - {?i}) v"
      by (auto simp: in_order_def)
    have "balanced rows good w w'"
      unfolding balanced_def using call_steps_weaken [OF tr(1), of "own_ids w"] i w'
      by (intro exI [of _ tr] exI [of _ "[]"]) simp
    moreover have "in_order rows good w'" using primed_subset [OF tr(2) subset] inj w'(1) by (simp add: in_order_def)
    ultimately show "in_order rows good w' \<and> own_ids w' \<subseteq> own_ids w \<and> balanced rows good w w'"
      using subset by blast
  qed
qed

end

sublocale gateway_goroutine \<subseteq> goroutine: manager_kernel "advances rows good" m
proof
  let ?Q = "advances rows good :: ('d thread, 'k, telegram, 'a) rt \<Rightarrow> ('d thread, 'k, telegram, 'a) rt \<Rightarrow> bool"
  show "advances rows good w w" for w :: "('d thread, 'k, telegram, 'a) rt"
    by (rule advances_quiet) simp_all
  show "advances rows good u w" if "advances rows good u v" "advances rows good v w"
    for u v w :: "('d thread, 'k, telegram, 'a) rt"
    using that unfolding advances_def by (blast intro: balanced_trans)
  show "state_io_rel ?Q (notify_call (Started (mgr_notify m) op))" for op
    by (rule state_io_relI, rule advancesI)
      (auto simp: uses_telegram telegram_notifier_def telegram_Started_def Let_def call_steps_def intro!: exI [of _ "[]"])
  show "state_io_rel ?Q (store_call (GetOperation (mgr_store m) oid))" for oid
    unfolding uses_store by (rule advances_query) (rule c_get)
  show "state_io_rel ?Q (store_call (ListRunningPastDeadline (mgr_store m) t))" for t
    unfolding uses_store by (rule advances_query) (rule c_list)
  show "state_io_rel ?Q (sleep ctx d)" for ctx d
    by (auto intro!: state_io_relI advances_quiet simp: run_sleep)
  show "state_io_rel ?Q (persist_new m build)"
    if "\<And>oid. Op_OperationID (build oid) = oid" for build
    using that by (rule advances_persist)
  show "state_io_rel ?Q (resolve m op msg what upd)"
    if "Upd_Status upd \<noteq> StatusRunning" for op msg what upd
    using that by (rule advances_resolve)
qed (auto intro!: state_io_relI advances_quiet)

end
