(* ===== verification/Manager_Correct.thy ===== *)
theory Manager_Correct
  imports Manager_Effects
begin

text \<open>
  Properties of the operation manager: what any number of goroutines that run its operations at once
  keep true of the audit rows and notifications, over every store that fulfils the contract; that following a
  rollout ends and resolves the operation; that a sweep leaves no stale operation running; and
  the outcome of each way of starting an operation.
\<close>

section \<open>Sequences of operations\<close>

datatype mgr_op =
    OpRestart GitHubIdentity string string
  | OpRollout GitHubIdentity string string string string
  | OpWatch Operation msg_ref
  | OpSweep go_context
  | OpGet go_context string

text \<open>The state after one operation; \<^const>\<open>None\<close> only for a watch that never returns.\<close>

fun perform ::
  "('s, 'k, 'n) Manager \<Rightarrow> mgr_op \<Rightarrow> ('s, 'k, 'n, 'a) rt \<Rightarrow> ('s, 'k, 'n, 'a) rt option" where
  "perform m (OpRestart i ns dep) w = Some (snd (run_state (Restart m i ns dep) w))"
| "perform m (OpRollout i ns dep c img) w = Some (snd (run_state (Rollout m i ns dep c img) w))"
| "perform m (OpWatch op msg) w = watchRollout m op msg w"
| "perform m (OpSweep ctx) w = Some (snd (run_state (ReconcileSweep m ctx) w))"
| "perform m (OpGet ctx oid) w = Some (snd (run_state (Get m ctx oid) w))"

fun perform_all ::
  "('s, 'k, 'n) Manager \<Rightarrow> mgr_op list \<Rightarrow> ('s, 'k, 'n, 'a) rt \<Rightarrow> ('s, 'k, 'n, 'a) rt option" where
  "perform_all m [] w = Some w"
| "perform_all m (x # xs) w =
     (case perform m x w of None \<Rightarrow> None | Some w1 \<Rightarrow> perform_all m xs w1)"

lemma io_snd: "state_io_rel Q a \<Longrightarrow> Q w (snd (run_state a w))"
  by (simp add: state_io_rel_def)

context manager_kernel
begin

lemma q_perform: "perform m x w = Some w' \<Longrightarrow> Q w w'"
  using q_watchRollout
  by (cases x) (auto intro: io_snd q_Restart q_Rollout q_ReconcileSweep q_Get)

lemma q_perform_all: "perform_all m xs w = Some w' \<Longrightarrow> Q w w'"
proof (induction xs arbitrary: w)
  case Nil
  then show ?case by (simp add: run_refl)
next
  case (Cons x xs)
  then show ?case by (auto split: option.splits intro: run_trans q_perform)
qed

end

context gateway_goroutine
begin

lemma advances_perform_all: "perform_all m xs w = Some w' \<Longrightarrow> advances rows good w w'"
  by (rule goroutine.q_perform_all)

end

section \<open>Executions of the gateway\<close>

text \<open>
  A goroutine of the gateway performs some operations of the manager and ends: a request, a sweep, a
  watch. It has made steps on the shared store and started notification jobs. In an execution of
  the gateway any number of goroutines run at once, and their steps on the store are interleaved.
\<close>

definition goroutine ::
  "('d \<Rightarrow> rows) \<Rightarrow> ('d \<Rightarrow> bool) \<Rightarrow> ('d thread, 'k, telegram) Manager \<Rightarrow> mgr_op list \<Rightarrow> ('d \<times> 'd) list \<Rightarrow> job list \<Rightarrow> bool" where
  "goroutine rows good m xs tr js \<longleftrightarrow>
     (\<exists>w w' :: ('d thread, 'k, telegram, unit) rt. in_order rows good w \<and> th_own (rt_store w) = [] \<and>
        tg_jobs (rt_notify w) = [] \<and> perform_all m xs w = Some w' \<and>
        th_own (rt_store w') = tr \<and> tg_jobs (rt_notify w') = js)"

definition execution ::
  "('x \<Rightarrow> ('d \<times> 'd) list \<Rightarrow> job list \<Rightarrow> bool) \<Rightarrow> ('x \<times> ('d \<times> 'd) list \<times> job list) list \<Rightarrow> 'd \<Rightarrow> ('d \<times> 'd) list \<Rightarrow> bool" where
  "execution G gs s tr \<longleftrightarrow>
     (\<forall>(x, t, js) \<in> set gs. G x t js) \<and> interleaved (map (\<lambda>(x, t, js). t) gs) tr \<and> linked (=) s tr"

definition notices :: "string \<Rightarrow> ('x \<times> ('d \<times> 'd) list \<times> job list) list \<Rightarrow> nat" where
  "notices i gs = (\<Sum>(x, t, js) \<leftarrow> gs. resolve_jobs i js)"

text \<open>What every goroutine guarantees: lawful steps, and no more resolutions announced than rows made terminal\<close>

definition honest :: "('d \<Rightarrow> rows) \<Rightarrow> ('d \<Rightarrow> bool) \<Rightarrow> ('d \<times> 'd) list \<Rightarrow> job list \<Rightarrow> bool" where
  "honest rows good tr js \<longleftrightarrow>
     (\<forall>(u, v) \<in> set tr. lawful rows good u v) \<and> (\<forall>i. resolve_jobs i js \<le> gain rows i tr)"

lemma advances_honest:
  assumes "advances rows good w w'" and "in_order rows good w" and "th_own (rt_store w) = []"
    and "tg_jobs (rt_notify w) = []"
  shows "honest rows good (th_own (rt_store w')) (tg_jobs (rt_notify w'))"
  using assms by (fastforce simp: honest_def advances_def balanced_def call_steps_def)

lemma goroutine_honest:
  fixes m :: "('d thread, 'k, telegram) Manager"
  assumes "concurrent_store st rows good" and "mgr_store m = st" and "mgr_notify m = telegram_notifier"
    and "goroutine rows good m xs tr js"
  shows "honest rows good tr js"
proof -
  have "gateway_goroutine st rows good m"
    using assms(1-3) by (simp add: gateway_goroutine_def gateway_goroutine_axioms_def)
  then show ?thesis
    using assms(4) gateway_goroutine.advances_perform_all advances_honest unfolding goroutine_def by blast
qed

lemma linked_rows:
  assumes "linked (=) s tr" and "\<And>u v. (u, v) \<in> set tr \<Longrightarrow> lawful rows good u v"
  shows "evolves (rows s) (rows (final s tr)) \<and> settled (rows s) i + gain rows i tr = settled (rows (final s tr)) i"
  using assms
proof (induction tr arbitrary: s)
  case (Cons x tr)
  obtain u v where x: "x = (u, v)" by (cases x)
  have step: "lawful rows good s v" and link: "linked (=) v tr" using Cons.prems x by auto
  have "evolves (rows s) (rows v)" by (rule lawful_evolves [OF step])
  moreover have "settled (rows s) i \<le> settled (rows v) i" using step row_step_settled by (auto simp: lawful_def)
  moreover have "u = s" using Cons.prems(1) x by simp
  ultimately show ?case
    using Cons.IH [OF link] Cons.prems(2) x by (auto simp: gain_def intro: rtranclp_trans)
qed (simp add: gain_def)

text \<open>An execution as a whole: the rows evolve, and the notices are balanced by rows that became terminal.\<close>

lemma execution_balanced:
  assumes "\<And>x t js. G x t js \<Longrightarrow> honest rows good t js" and "execution G gs s tr"
  shows "evolves (rows s) (rows (final s tr))" and "settled (rows s) i + notices i gs \<le> settled (rows (final s tr)) i"
proof -
  have merged: "interleaved (map (\<lambda>(x, t, js). t) gs) tr" and link: "linked (=) s tr"
    and each: "\<And>x t js. (x, t, js) \<in> set gs \<Longrightarrow> honest rows good t js"
    using assms by (auto simp: execution_def)
  have bal: "(u, v) \<in> set t \<Longrightarrow> lawful rows good u v" "resolve_jobs j js \<le> gain rows j t"
    if "(x, t, js) \<in> set gs" for x t js u v j
    using each [OF that] by (auto simp: honest_def)
  have steps: "lawful rows good u v" if "(u, v) \<in> set tr" for u v
    using that bal(1) by (fastforce simp: interleaved_set [OF merged])
  show "evolves (rows s) (rows (final s tr))" using linked_rows [OF link steps] by blast
  have "notices i gs \<le> (\<Sum>(xs, t, js) \<leftarrow> gs. gain rows i t)"
    unfolding notices_def by (rule sum_list_mono) (use bal(2) in auto)
  also have "\<dots> = gain rows i tr"
    unfolding gain_def interleaved_sum [OF merged] by (simp add: comp_def split_def)
  finally show "settled (rows s) i + notices i gs \<le> settled (rows (final s tr)) i"
    using linked_rows [OF link steps, of i] by linarith
qed

section \<open>Resolving on the in-memory store\<close>

lemma resolve_inmem:
  assumes "mgr_store m = inmem_store" and "inmem_rows (rt_store w) (Op_OperationID op) = Some row"
    and "run_state (resolve m op msg what upd) w = (u, w')"
  shows "inmem_rows (rt_store w') =
    (if Terminal row then inmem_rows (rt_store w)
     else (inmem_rows (rt_store w))(Op_OperationID op \<mapsto> terminal_row row upd (clk_now (rt_clock w))))"
  using assms
  by (auto simp: resolve_def logTerminalWriteErr_def inmem_store_def inmem_update_cases split: if_splits)

definition over :: "('s \<Rightarrow> rows) \<Rightarrow> string \<Rightarrow> ('s, 'k, 'n, 'a) rt \<Rightarrow> bool" where
  "over rows i w \<longleftrightarrow> (\<exists>row. rows (rt_store w) i = Some row \<and> Terminal row)"

definition known :: "('s \<Rightarrow> rows) \<Rightarrow> string \<Rightarrow> ('s, 'k, 'n, 'a) rt \<Rightarrow> bool" where
  "known rows i w \<longleftrightarrow> rows (rt_store w) i \<noteq> None"

lemma resolve_inmem_over:
  assumes "mgr_store m = inmem_store" and "known inmem_rows (Op_OperationID op) w"
    and "Upd_Status upd \<noteq> StatusRunning"
    and "run_state (resolve m op msg what upd) w = (u, w')"
  shows "over inmem_rows (Op_OperationID op) w'"
proof -
  obtain row where row: "inmem_rows (rt_store w) (Op_OperationID op) = Some row"
    using assms(2) by (auto simp: known_def)
  from resolve_inmem [OF assms(1) row assms(4)] row assms(3) show ?thesis
    by (cases "Terminal row") (auto simp: over_def Terminal_def)
qed

text \<open>The three ways to end an operation end it.\<close>

lemma ends_over:
  assumes "mgr_store m = inmem_store" and "known inmem_rows (Op_OperationID op) w"
  shows "run_state (failOperation m op msg code e) w = (u, w') \<Longrightarrow> over inmem_rows (Op_OperationID op) w'"
    and "run_state (timeoutOperation m op msg e) w = (u, w') \<Longrightarrow> over inmem_rows (Op_OperationID op) w'"
    and "run_state (completeOperation m op msg e) w = (u, w') \<Longrightarrow> over inmem_rows (Op_OperationID op) w'"
proof -
  have known: "known inmem_rows (Op_OperationID op) (w\<lparr>rt_clock := c\<rparr>)" for c
    using assms(2) by (simp add: known_def)
  note res = resolve_inmem_over [OF assms(1) known]
  show "over inmem_rows (Op_OperationID op) w'"
    if "run_state (failOperation m op msg code e) w = (u, w')"
    using that by (auto simp: failOperation_def intro!: res) (simp add: status_defs)
  show "over inmem_rows (Op_OperationID op) w'"
    if "run_state (timeoutOperation m op msg e) w = (u, w')"
    using that by (auto simp: timeoutOperation_def intro!: res) (simp add: status_defs)
  show "over inmem_rows (Op_OperationID op) w'"
    if "run_state (completeOperation m op msg e) w = (u, w')"
  proof -
    obtain v w1 where "run_state (resolve m op msg ''mark operation succeeded''
        \<lparr>Upd_Status = StatusSucceeded, Upd_Event = ''SUCCEEDED'', Upd_ErrorCode = '''',
         Upd_ErrorMessage = '''', Upd_CompletedAt = clk_now (rt_clock w)\<rparr>)
        (w\<lparr>rt_clock := elapse (rt_clock w)\<rparr>) = (v, w1)" (is "?run = _") by (rule prod.exhaust)
    with that have "rt_store w' = rt_store w1" by (auto simp: completeOperation_def)
    moreover have "over inmem_rows (Op_OperationID op) w1"
      using \<open>?run = (v, w1)\<close> by (rule res [rotated]) (simp add: status_defs)
    ultimately show ?thesis by (simp add: over_def)
  qed
qed


section \<open>Following a rollout ends\<close>

lemma watch_body_over_at_deadline:
  assumes "ctx_done ctx (clk_now (rt_clock w))"
    and "run_state (watch_body m ctx op msg backoff) w = (b, w')"
  shows "b"
  using assms by (auto simp: watch_body_def split: prod.splits)

text \<open>An iteration that does not return has slept its whole backoff.\<close>

lemma watch_body_continues:
  assumes "run_state (watch_body m ctx op msg backoff) w = (False, w')"
  shows "clk_now (rt_clock w) + backoff \<le> clk_now (rt_clock w')"
proof -
  have slept: "clk_now (rt_clock v) + backoff \<le> clk_now (rt_clock v')"
    if "run_state (sleep ctx backoff) v = (True, v')" for v v' :: "('a, 'b, 'c, 'd) rt"
    using that sleepCtx_True [of ctx backoff "rt_clock v"]
    by (auto simp: run_sleep) (metis prod.collapse)
  obtain b1 w1 where e: "run_state (evalOnce m op msg) w = (b1, w1)" by fastforce
  have t1: "clk_now (rt_clock w) \<le> clk_now (rt_clock w1)"
    using clock_kernel.q_evalOnce e unfolding later_def by blast
  obtain r w2 where k: "run_state (kube_call (WatchDeployment (mgr_kube m) (Op_Namespace op) (Op_Deployment op))) w1 = (r, w2)"
    by fastforce
  then have t2: "clk_now (rt_clock w1) \<le> clk_now (rt_clock w2)" by auto
  obtain w3 where w3: "run_state (sleep ctx backoff) w3 = (True, w')" "clk_now (rt_clock w2) \<le> clk_now (rt_clock w3)"
  proof (cases r)
    case (Inl err)
    with assms e k that [of "w2\<lparr>rt_log := rt_log w2 @ [(LWarn, ''watch start failed'')]\<rparr>"]
    show ?thesis by (auto simp: watch_body_def split: prod.splits if_splits)
  next
    case (Inr evs)
    obtain o3 w3 where ev: "run_state (watch_events m op msg evs) w2 = (o3, w3)" by fastforce
    have "clk_now (rt_clock w2) \<le> clk_now (rt_clock w3)"
      using clock_kernel.q_watch_events ev unfolding later_def by blast
    with assms e k Inr ev that [of w3]
    show ?thesis by (auto simp: watch_body_def split: prod.splits if_splits)
  qed
  from slept [OF w3(1)] w3(2) t1 t2 show ?thesis by simp
qed

lemma watch_loop_returns:
  assumes "0 < backoff"
  shows "\<exists>w'. watch_loop m (Some t) op msg backoff w = Some w'"
  using assms
proof (induction "nat (t - clk_now (rt_clock w))" arbitrary: backoff w rule: less_induct)
  case less
  obtain b w1 where body: "run_state (watch_body m (Some t) op msg backoff) w = (b, w1)" by fastforce
  show ?case
  proof (cases b)
    case True
    with body show ?thesis by (subst watch_loop.simps) simp
  next
    case False
    have "\<not> ctx_done (Some t) (clk_now (rt_clock w))"
      using watch_body_over_at_deadline body False by blast
    then have "clk_now (rt_clock w) < t" by (simp add: ctx_done_def)
    moreover have "clk_now (rt_clock w) + backoff \<le> clk_now (rt_clock w1)"
      using watch_body_continues [of m "Some t" op msg backoff w w1] body False by simp
    ultimately have "nat (t - clk_now (rt_clock w1)) < nat (t - clk_now (rt_clock w))"
      using less.prems by simp
    then have "\<exists>w'. watch_loop m (Some t) op msg (min (2 * backoff) maxBackoff) w1 = Some w'"
      using less.hyps less.prems by (simp add: maxBackoff_def durations)
    with body False show ?thesis by (subst watch_loop.simps) simp
  qed
qed

lemma watchRollout_total: "\<exists>w'. watchRollout m op msg w = Some w'"
  by (auto simp: watchRollout_def durations intro: watch_loop_returns split: prod.splits)


section \<open>Rows only move forward\<close>

text \<open>
  On the in-memory store, everything after the first write keeps the row of an operation, and
  keeps it terminal once it is.
\<close>

definition row_kept :: "string \<Rightarrow> (inMemory, 'k, 'n, 'a) rt \<Rightarrow> (inMemory, 'k, 'n, 'a) rt \<Rightarrow> bool" where
  "row_kept i w w' \<longleftrightarrow>
     (known inmem_rows i w \<longrightarrow> known inmem_rows i w') \<and> (over inmem_rows i w \<longrightarrow> over inmem_rows i w')"

interpretation kept: run_preorder "row_kept i" for i
  by unfold_locales (auto simp: row_kept_def)

lemma kept_same_store: "rt_store w' = rt_store w \<Longrightarrow> row_kept i w w'"
  by (simp add: row_kept_def known_def over_def)

lemma kept_actions:
  "state_io_rel (row_kept i) (kube_call h)" "state_io_rel (row_kept i) (notify_call n)"
  "state_io_rel (row_kept i) time_Now" "state_io_rel (row_kept i) (ctx_Err ctx)"
  "state_io_rel (row_kept i) (log_line l t)" "state_io_rel (row_kept i) (sleep ctx d)"
  by (auto intro!: state_io_relI kept_same_store simp: run_sleep)

lemma kept_resolve:
  assumes "mgr_store m = inmem_store" and "Upd_Status upd \<noteq> StatusRunning"
  shows "state_io_rel (row_kept i) (resolve m op msg what upd)"
proof (rule state_io_relI)
  fix u and w w' :: "(inMemory, 'a, 'b, 'c) rt"
  assume run: "run_state (resolve m op msg what upd) w = (u, w')"
  show "row_kept i w w'"
  proof (cases "inmem_rows (rt_store w) (Op_OperationID op)")
    case None
    with run assms(1) have "inmem_rows (rt_store w') = inmem_rows (rt_store w)"
      by (auto simp: resolve_def logTerminalWriteErr_def inmem_store_def inmem_update_cases
          split: if_splits)
    then show ?thesis by (simp add: row_kept_def known_def over_def)
  next
    case (Some row)
    from resolve_inmem [OF assms(1) Some run] Some assms(2) show ?thesis
      by (auto simp: row_kept_def known_def over_def Terminal_def)
  qed
qed

lemma kept_ends:
  assumes "mgr_store m = inmem_store"
  shows "state_io_rel (row_kept i) (failOperation m op msg code e)"
    and "state_io_rel (row_kept i) (timeoutOperation m op msg e)"
    and "state_io_rel (row_kept i) (completeOperation m op msg e)"
  unfolding failOperation_def timeoutOperation_def completeOperation_def
  by (intro kept.io_rules kept_actions kept_resolve [OF assms]; simp add: status_defs)+

lemmas kept_rules = kept.io_rules kept_actions kept_ends

lemma kept_judge: "mgr_store m = inmem_store \<Longrightarrow> state_io_rel (row_kept i) (judge m op msg dep)"
  unfolding judge_def Let_def by (intro kept_rules)

lemma kept_evalOnce: "mgr_store m = inmem_store \<Longrightarrow> state_io_rel (row_kept i) (evalOnce m op msg)"
  unfolding evalOnce_def by (intro kept_rules kept_judge)

lemma kept_watch_events:
  "mgr_store m = inmem_store \<Longrightarrow> state_io_rel (row_kept i) (watch_events m op msg evs)"
  by (induction evs) (auto intro!: kept_rules kept_judge split: option.splits simp del: bind_assoc)

lemma kept_watch_body:
  "mgr_store m = inmem_store \<Longrightarrow> state_io_rel (row_kept i) (watch_body m ctx op msg backoff)"
  unfolding watch_body_def by (intro kept_rules kept_evalOnce kept_watch_events)

lemma kept_resolveRunning:
  "mgr_store m = inmem_store \<Longrightarrow> state_io_rel (row_kept i) (resolveRunning m ctx op)"
  unfolding resolveRunning_def Let_def by (intro kept_rules)

section \<open>A watch that returns has resolved its operation\<close>

lemma known_step:
  "state_io_rel (row_kept i) a \<Longrightarrow> run_state a w = (x, w') \<Longrightarrow> known inmem_rows i w \<Longrightarrow> known inmem_rows i w'"
  by (auto simp: row_kept_def dest: state_io_relD)

text \<open>Actions that report having ended the operation have ended it.\<close>

definition ends :: "string \<Rightarrow> (inMemory, 'k, 'n, 'a, bool) act \<Rightarrow> bool" where
  "ends i a \<longleftrightarrow> (\<forall>w w'. known inmem_rows i w \<longrightarrow> run_state a w = (True, w') \<longrightarrow> over inmem_rows i w')"

lemma ends_False: "ends i (pure False)"
  by (simp add: ends_def)

lemma ends_bind:
  assumes "state_io_rel (row_kept i) a" and "\<And>x. ends i (f x)"
  shows "ends i (a \<bind> f)"
  unfolding ends_def
proof (intro allI impI)
  fix w w'
  assume known: "known inmem_rows i w" and run: "run_state (a \<bind> f) w = (True, w')"
  obtain x v where a: "run_state a w = (x, v)" by (rule prod.exhaust)
  from run a have "run_state (f x) v = (True, w')" by simp
  moreover have "known inmem_rows i v" using assms(1) a known by (rule known_step)
  ultimately show "over inmem_rows i w'" using assms(2) [of x, unfolded ends_def] by simp
qed

lemma ends_orelse:
  assumes "ends i a" and "state_io_rel (row_kept i) a" and "ends i b"
  shows "ends i (a \<bind> (\<lambda>x. if x then pure True else b))"
  unfolding ends_def
proof (intro allI impI)
  fix w w'
  assume known: "known inmem_rows i w"
    and run: "run_state (a \<bind> (\<lambda>x. if x then pure True else b)) w = (True, w')"
  obtain x v where a: "run_state a w = (x, v)" by (rule prod.exhaust)
  have v: "known inmem_rows i v" using assms(2) a known by (rule known_step)
  show "over inmem_rows i w'"
  proof (cases x)
    case True
    with run a known show ?thesis using assms(1) [unfolded ends_def] by simp
  next
    case False
    with run a v show ?thesis using assms(3) [unfolded ends_def] by simp
  qed
qed

lemma ends_if: "ends i a \<Longrightarrow> ends i b \<Longrightarrow> ends i (if p then a else b)"
  by simp

lemma ends_sum:
  "(\<And>e. ends i (f e)) \<Longrightarrow> (\<And>x. ends i (g x)) \<Longrightarrow> ends i (case r of Inl e \<Rightarrow> f e | Inr x \<Rightarrow> g x)"
  by (cases r) auto

lemma ends_ops:
  assumes "mgr_store m = inmem_store"
  shows "ends (Op_OperationID op) (failOperation m op msg code e \<bind> (\<lambda>_. pure True))"
    and "ends (Op_OperationID op) (timeoutOperation m op msg e \<bind> (\<lambda>_. pure True))"
    and "ends (Op_OperationID op) (completeOperation m op msg e \<bind> (\<lambda>_. pure True))"
  by (auto simp: ends_def split: prod.splits dest: ends_over [OF assms])

lemma ends_judge:
  assumes "mgr_store m = inmem_store"
  shows "ends (Op_OperationID op) (judge m op msg dep)"
  unfolding judge_def Let_def
  by (auto split: RolloutState.splits intro: ends_False ends_ops [OF assms])


lemma ends_evalOnce:
  assumes "mgr_store m = inmem_store"
  shows "ends (Op_OperationID op) (evalOnce m op msg)"
  unfolding evalOnce_def by (intro ends_bind ends_sum ends_False ends_judge kept_actions assms)

lemma ends_watch_events:
  assumes "mgr_store m = inmem_store"
  shows "ends (Op_OperationID op) (watch_events m op msg evs)"
  by (induction evs)
    (auto split: option.splits intro!: ends_False ends_orelse ends_judge kept_judge assms simp del: bind_assoc)

lemma ends_watch_body:
  assumes "mgr_store m = inmem_store"
  shows "ends (Op_OperationID op) (watch_body m ctx op msg backoff)"
proof -
  note rules = ends_False ends_ops [OF assms] kept_actions kept_evalOnce [OF assms]
    kept_watch_events [OF assms] ends_evalOnce [OF assms] ends_watch_events [OF assms]
  show ?thesis unfolding watch_body_def
    by (intro rules ends_if ends_sum ends_orelse ends_bind)
qed

lemma watch_loop_over:
  assumes "mgr_store m = inmem_store" and "known inmem_rows (Op_OperationID op) w"
    and "watch_loop m ctx op msg backoff w = Some w'"
  shows "over inmem_rows (Op_OperationID op) w'"
proof (rule watch_loop.raw_induct
    [where P = "\<lambda>m' ctx op' msg backoff w w'. m' = m \<longrightarrow> op' = op \<longrightarrow>
        known inmem_rows (Op_OperationID op) w \<longrightarrow> over inmem_rows (Op_OperationID op) w'",
      rule_format, OF _ assms(3) refl refl assms(2)])
  fix loop m' ctx op' msg backoff w w'
  assume IH: "\<And>m' ctx op' msg backoff w w'. loop m' ctx op' msg backoff w = Some w' \<Longrightarrow> m' = m \<Longrightarrow> op' = op \<Longrightarrow>
      known inmem_rows (Op_OperationID op) w \<Longrightarrow> over inmem_rows (Op_OperationID op) w'"
    and run: "(case run_state (watch_body m' ctx op' msg backoff) w of (ended, w1) \<Rightarrow>
      if ended then Some w1 else loop m' ctx op' msg (min (2 * backoff) maxBackoff) w1) = Some w'"
    and eq: "m' = m" "op' = op" and known: "known inmem_rows (Op_OperationID op) w"
  obtain ended w1 where b: "run_state (watch_body m ctx op msg backoff) w = (ended, w1)" by fastforce
  have "known inmem_rows (Op_OperationID op) w1"
    using known_step [OF kept_watch_body [OF assms(1)] b known] .
  moreover have "ended \<Longrightarrow> over inmem_rows (Op_OperationID op) w1"
    using ends_watch_body [OF assms(1), of op ctx msg backoff] b known by (auto simp: ends_def)
  ultimately show "over inmem_rows (Op_OperationID op) w'"
    using run b eq IH by (auto split: if_splits)
qed

lemma watchRollout_over:
  assumes "mgr_store m = inmem_store" and "known inmem_rows (Op_OperationID op) w"
    and "watchRollout m op msg w = Some w'"
  shows "over inmem_rows (Op_OperationID op) w'"
proof -
  obtain d w1 where d: "run_state (watch_deadline m op) w = (d, w1)" by fastforce
  then have "rt_store w1 = rt_store w" by (auto simp: watch_deadline_def)
  with assms(2) have "known inmem_rows (Op_OperationID op) w1" by (simp add: known_def)
  with assms d show ?thesis by (auto simp: watchRollout_def intro: watch_loop_over)
qed

section \<open>Sweeping\<close>

lemma resolveRunning_over:
  assumes "mgr_store m = inmem_store" and "known inmem_rows (Op_OperationID op) w"
    and "\<And>e k. fst (GetDeployment (mgr_kube m) (Op_Namespace op) (Op_Deployment op) k) = Inl e \<Longrightarrow>
      \<not> errors_Is e context_Canceled"
    and "run_state (resolveRunning m Background op) w = (u, w')"
  shows "over inmem_rows (Op_OperationID op) w'"
proof -
  let ?k = "GetDeployment (mgr_kube m) (Op_Namespace op) (Op_Deployment op) (rt_kube w)"
  have known: "known inmem_rows (Op_OperationID op) (w\<lparr>rt_kube := k, rt_clock := c\<rparr>)" for k c
    using assms(2) by (simp add: known_def)
  note over = ends_over [OF assms(1) known]
  show ?thesis
  proof (cases "fst ?k")
    case (Inl e)
    with assms(3,4) show ?thesis
      by (auto simp: resolveRunning_def ctx_done_def Background_def intro: over)
  next
    case (Inr dep)
    with assms(4) show ?thesis
      by (auto simp: resolveRunning_def Let_def split: RolloutState.splits intro: over)
  qed
qed

lemma sweep_all_over:
  assumes "mgr_store m = inmem_store"
    and "\<And>ns d e k. fst (GetDeployment (mgr_kube m) ns d k) = Inl e \<Longrightarrow> \<not> errors_Is e context_Canceled"
    and "\<And>op. op \<in> set found \<Longrightarrow> known inmem_rows (Op_OperationID op) w"
    and "run_state (each (resolveRunning m Background) found) w = (u, w')"
    and "op \<in> set found"
  shows "over inmem_rows (Op_OperationID op) w'"
  using assms(3-)
proof (induction found arbitrary: w)
  case (Cons x xs)
  obtain v w1 where x: "run_state (resolveRunning m Background x) w = (v, w1)" by (rule prod.exhaust)
  with Cons.prems(2) have xs: "run_state (each (resolveRunning m Background) xs) w1 = (u, w')" by simp
  have known: "known inmem_rows (Op_OperationID y) w1" if "y \<in> set (x # xs)" for y
    using known_step [OF kept_resolveRunning [OF assms(1)] x] Cons.prems(1) that by blast
  show ?case
  proof (cases "op \<in> set xs")
    case True
    with Cons.IH known xs show ?thesis by auto
  next
    case False
    then have "op = x" using Cons.prems by simp
    then have "over inmem_rows (Op_OperationID op) w1"
      using resolveRunning_over [OF assms(1) _ assms(2) x] Cons.prems(1) by simp
    moreover have "row_kept (Op_OperationID op) w1 w'"
      using xs kept.io_each [OF kept_resolveRunning [OF assms(1)]] by (rule state_io_relD [rotated])
    ultimately show ?thesis by (simp add: row_kept_def)
  qed
qed simp


section \<open>Success needs an observed completion\<close>

text \<open>
  \<open>K\<close> is a set of cluster states that reading deployments does not leave; \<open>seen_complete\<close> says
  that in one of them a read or a watch reports the deployment complete.
\<close>

definition kube_closed :: "'k kube_api \<Rightarrow> string \<Rightarrow> string \<Rightarrow> 'k set \<Rightarrow> bool" where
  "kube_closed kube ns d K \<longleftrightarrow>
     (\<forall>k\<in>K. snd (GetDeployment kube ns d k) \<in> K \<and> snd (WatchDeployment kube ns d k) \<in> K)"

definition seen_complete :: "'k kube_api \<Rightarrow> string \<Rightarrow> string \<Rightarrow> 'k set \<Rightarrow> bool" where
  "seen_complete kube ns d K \<longleftrightarrow>
     (\<exists>k\<in>K. \<exists>dep. Eval_State (EvaluateRollout dep) = RolloutComplete \<and>
        (fst (GetDeployment kube ns d k) = Inr dep \<or>
         (\<exists>evs. fst (WatchDeployment kube ns d k) = Inr evs \<and> Some dep \<in> set evs)))"

definition unsuccessful :: "string \<Rightarrow> 'k set \<Rightarrow> (inMemory, 'k, 'n, 'a) rt \<Rightarrow> bool" where
  "unsuccessful i K w \<longleftrightarrow>
     rt_kube w \<in> K \<and> map_option Op_Status (inmem_rows (rt_store w) i) \<noteq> Some StatusSucceeded"

lemma uns_actions:
  "keeps (unsuccessful i K) time_Now any" "keeps (unsuccessful i K) (ctx_Err ctx) any"
  "keeps (unsuccessful i K) (log_line l t) any" "keeps (unsuccessful i K) (sleep ctx d) any"
  by (auto simp: keeps_def unsuccessful_def run_sleep)

lemma uns_resolve:
  assumes "mgr_store m = inmem_store" and "Upd_Status upd \<noteq> StatusSucceeded"
  shows "keeps (unsuccessful i K) (resolve m op msg what upd) any"
  using assms unfolding keeps_def
  by (auto simp: unsuccessful_def resolve_def logTerminalWriteErr_def inmem_store_def
      inmem_update_cases split: if_splits option.splits)

lemma uns_ends:
  assumes "mgr_store m = inmem_store"
  shows "keeps (unsuccessful i K) (failOperation m op msg code e) any"
    and "keeps (unsuccessful i K) (timeoutOperation m op msg e) any"
  unfolding failOperation_def timeoutOperation_def
  by (intro keeps_bind [OF uns_actions(1)] uns_resolve [OF assms]; simp add: status_defs)+

lemma uns_judge:
  assumes "mgr_store m = inmem_store" and "Eval_State (EvaluateRollout dep) \<noteq> RolloutComplete"
  shows "keeps (unsuccessful i K) (judge m op msg dep) any"
  using assms(2) unfolding judge_def Let_def
  by (auto split: RolloutState.splits intro!: keeps_pure keeps_bind [OF uns_ends(1) [OF assms(1)]])

text \<open>A manager on the in-memory store whose cluster never shows the deployment complete.\<close>

definition uncompleted :: "(inMemory, 'k, 'n) Manager \<Rightarrow> Operation \<Rightarrow> 'k set \<Rightarrow> bool" where
  "uncompleted m op K \<longleftrightarrow>
     mgr_store m = inmem_store \<and> kube_closed (mgr_kube m) (Op_Namespace op) (Op_Deployment op) K \<and>
     \<not> seen_complete (mgr_kube m) (Op_Namespace op) (Op_Deployment op) K"

lemma uncompleted_store: "uncompleted m op K \<Longrightarrow> mgr_store m = inmem_store"
  by (simp add: uncompleted_def)

lemma uns_get:
  "uncompleted m op K \<Longrightarrow> keeps (unsuccessful i K) (kube_call (GetDeployment (mgr_kube m) (Op_Namespace op) (Op_Deployment op)))
     (\<lambda>r. \<forall>dep. r = Inr dep \<longrightarrow> Eval_State (EvaluateRollout dep) \<noteq> RolloutComplete)"
  by (auto simp: uncompleted_def keeps_def unsuccessful_def kube_closed_def seen_complete_def)

lemma uns_watch:
  "uncompleted m op K \<Longrightarrow> keeps (unsuccessful i K) (kube_call (WatchDeployment (mgr_kube m) (Op_Namespace op) (Op_Deployment op)))
     (\<lambda>r. \<forall>evs dep. r = Inr evs \<longrightarrow> Some dep \<in> set evs \<longrightarrow>
        Eval_State (EvaluateRollout dep) \<noteq> RolloutComplete)"
  by (auto simp: uncompleted_def keeps_def unsuccessful_def kube_closed_def seen_complete_def)

lemma uns_evalOnce: "uncompleted m op K \<Longrightarrow> keeps (unsuccessful i K) (evalOnce m op msg) any"
  unfolding evalOnce_def
  by (auto intro!: keeps_bind [OF uns_get] keeps_bind [OF uns_actions(3)] keeps_sum keeps_pure uns_judge
      dest: uncompleted_store)

lemma uns_watch_events:
  assumes "mgr_store m = inmem_store"
    and "\<forall>dep. Some dep \<in> set evs \<longrightarrow> Eval_State (EvaluateRollout dep) \<noteq> RolloutComplete"
  shows "keeps (unsuccessful i K) (watch_events m op msg evs) any"
  using assms(2)
  by (induction evs)
    (auto intro!: keeps_pure keeps_bind [OF uns_judge] keeps_if assms(1) split: option.splits
      simp del: bind_assoc)

lemma uns_watch_body:
  assumes "uncompleted m op K"
  shows "keeps (unsuccessful i K) (watch_body m ctx op msg backoff) any"
proof -
  note store = uncompleted_store [OF assms]
  note stop = keeps_bind [OF uns_ends(2) [OF store]] keeps_pure
  show ?thesis unfolding watch_body_def
    by (intro keeps_bind [OF uns_actions(2)] keeps_if stop keeps_bind [OF uns_evalOnce [OF assms]]
        keeps_bind [OF uns_watch [OF assms]] keeps_sum keeps_bind [OF uns_actions(3)]
        keeps_bind [OF uns_actions(4)] keeps_bind [OF uns_watch_events [OF store]]; simp)
qed

lemma uns_watch_loop:
  assumes "uncompleted m op K" and "unsuccessful i K w"
    and "watch_loop m ctx op msg backoff w = Some w'"
  shows "unsuccessful i K w'"
proof (rule watch_loop.raw_induct
    [where P = "\<lambda>m' ctx op' msg backoff w w'. m' = m \<longrightarrow> op' = op \<longrightarrow>
        unsuccessful i K w \<longrightarrow> unsuccessful i K w'",
      rule_format, OF _ assms(3) refl refl assms(2)])
  fix loop m' ctx op' msg backoff w w'
  assume IH: "\<And>m' ctx op' msg backoff w w'. loop m' ctx op' msg backoff w = Some w' \<Longrightarrow> m' = m \<Longrightarrow> op' = op \<Longrightarrow>
      unsuccessful i K w \<Longrightarrow> unsuccessful i K w'"
    and run: "(case run_state (watch_body m' ctx op' msg backoff) w of (ended, w1) \<Rightarrow>
      if ended then Some w1 else loop m' ctx op' msg (min (2 * backoff) maxBackoff) w1) = Some w'"
    and eq: "m' = m" "op' = op" and uns: "unsuccessful i K w"
  obtain ended w1 where b: "run_state (watch_body m ctx op msg backoff) w = (ended, w1)" by fastforce
  have "unsuccessful i K w1" using keepsD [OF uns_watch_body [OF assms(1)] uns b] ..
  then show "unsuccessful i K w'" using run b eq IH by (auto split: if_splits)
qed

lemma uns_watchRollout:
  assumes "uncompleted m op K" and "unsuccessful i K w" and "watchRollout m op msg w = Some w'"
  shows "unsuccessful i K w'"
proof -
  obtain d w1 where d: "run_state (watch_deadline m op) w = (d, w1)" by fastforce
  have k: "keeps (unsuccessful i K) (watch_deadline m op) any"
    unfolding watch_deadline_def by (intro keeps_bind [OF uns_get [OF assms(1)]] keeps_pure) simp
  have "unsuccessful i K w1" using keepsD [OF k assms(2) d] ..
  with assms d show ?thesis by (auto simp: watchRollout_def intro: uns_watch_loop)
qed

section \<open>The in-memory store\<close>

interpretation inmem_shared: concurrent_store "shared inmem_store" inmem_rows inmem_inv
  by (rule store_contract.shared_contract) unfold_locales

interpretation inmem_goroutine: gateway_goroutine "shared inmem_store" inmem_rows inmem_inv
    "NewManager k (shared inmem_store) (Some telegram_notifier) d" for k d
  by unfold_locales (simp_all add: NewManager_def)

end
