(* ===== verification/Manager_Properties.thy ===== *)
theory Manager_Properties
  imports Manager_Correct
begin

text \<open>
  The properties of the operation manager, stated over its definitions: the audit rows and
  notifications of any execution of its goroutines, the end of every watch, the sweep, and the
  outcome of starting and reading operations. The sample process at the beginning is the
  concrete input of the witnesses.
\<close>

section \<open>A sample process\<close>

definition sample_kube :: "unit kube_api" where
  "sample_kube =
     \<lparr>RestartDeployment = (\<lambda>ns dep k. (None, k)),
      RolloutDeployment = (\<lambda>ns dep c img k. (None, k)),
      GetDeployment = (\<lambda>ns dep k. (Inr sample_deployment, k)),
      WatchDeployment = (\<lambda>ns dep k. (Inr [], k))\<rparr>"

definition sample_manager :: "(inMemory, unit, telegram) Manager" where
  "sample_manager = NewManager sample_kube inmem_store (Some telegram_notifier) 0"

definition sample_rt :: "(inMemory, unit, telegram, unit) rt" where
  "sample_rt =
     \<lparr>rt_store = sample_store, rt_kube = (), rt_notify = \<lparr>tg_heap = [], tg_jobs = []\<rparr>, rt_authz = (),
      rt_clock = \<lparr>clk_now = 3 * Hour, clk_work = (\<lambda>_. 0), clk_pick = (\<lambda>_. True), clk_tick = 0\<rparr>,
      rt_ulid = (\<lambda>n. replicate n CHR ''A''), rt_ulids = 0, rt_log = [], rt_watchers = []\<rparr>"

lemma sample_manager_sel [simp]:
  "mgr_store sample_manager = inmem_store" "mgr_notify sample_manager = telegram_notifier"
  "mgr_kube sample_manager = sample_kube"
  by (simp_all add: sample_manager_def NewManager_def)

lemma sample_kube_sel [simp]:
  "GetDeployment sample_kube ns dep k = (Inr sample_deployment, k)"
  "WatchDeployment sample_kube ns dep k = (Inr [], k)"
  "RestartDeployment sample_kube ns dep k = (None, k)"
  by (simp_all add: sample_kube_def)

lemma sample_rt_sel [simp]:
  "rt_store sample_rt = sample_store" "tg_jobs (rt_notify sample_rt) = []" "rt_kube sample_rt = ()"
  "clk_now (rt_clock sample_rt) = 3 * Hour"
  by (simp_all add: sample_rt_def)

lemma sample_rows: "inmem_rows sample_store i = (if i = ''op_1'' then Some sample_operation else None)"
  by (simp add: sample_store_def inmem_rows_def)

lemma lower_A: "lower_byte CHR ''A'' = CHR ''a''"
  by code_simp

lemma sample_ids_inj: "inj (\<lambda>n. op_id (replicate n CHR ''A''))"
  by (rule inj_on_inverseI [where g = "\<lambda>s. length s - 3"]) (simp add: op_id_def ToLower_def)

lemma sample_known: "known inmem_rows ''op_1'' sample_rt"
  by (simp add: known_def sample_rows)

lemma sample_id [simp]: "Op_OperationID sample_operation = ''op_1''"
  by (simp add: sample_operation_def)

definition sample_identity :: GitHubIdentity where
  "sample_identity =
     \<lparr>Id_Subject = ''repo:org/api'', Id_Repository = ''org/api'', Id_RepositoryID = ''7'',
      Id_RepositoryOwner = ''org'', Id_Ref = ''refs/heads/main'', Id_Workflow = ''cd'',
      Id_WorkflowRef = '''', Id_Environment = '''', Id_Actor = ''octocat'', Id_EventName = ''push'',
      Id_RunID = ''4711'', Id_RunAttempt = ''1''\<rparr>"

section \<open>Two sweeps at once\<close>

text \<open>
  Two goroutines sweep the same store: both find the operation running, then one and then the other
  attempts the terminal write.
\<close>

definition sample_racing :: "(inMemory thread, unit, telegram) Manager" where
  "sample_racing = NewManager sample_kube (shared inmem_store) (Some telegram_notifier) 0"

definition sample_racer :: "inMemory thread \<Rightarrow> (inMemory thread, unit, telegram, unit) rt" where
  "sample_racer v =
     \<lparr>rt_store = v, rt_kube = (), rt_notify = \<lparr>tg_heap = [], tg_jobs = []\<rparr>, rt_authz = (),
      rt_clock = \<lparr>clk_now = 3 * Hour, clk_work = (\<lambda>_. 0), clk_pick = (\<lambda>_. True), clk_tick = 0\<rparr>,
      rt_ulid = (\<lambda>n. replicate n CHR ''A''), rt_ulids = 0, rt_log = [], rt_watchers = []\<rparr>"

definition sample_completion :: TerminalUpdate where
  "sample_completion =
     \<lparr>Upd_Status = StatusSucceeded, Upd_Event = ''SUCCEEDED'', Upd_ErrorCode = '''', Upd_ErrorMessage = '''',
      Upd_CompletedAt = 3 * Hour\<rparr>"

definition sample_write :: "inMemory \<Rightarrow> go_error option \<times> inMemory" where
  "sample_write = UpdateTerminal inmem_store ''op_1'' sample_completion (3 * Hour)"

lemma sample_write_twice:
  "fst (sample_write sample_store) = None"
  "sample_write (snd (sample_write sample_store)) = (Some ErrAlreadyTerminal, snd (sample_write sample_store))"
  by (simp_all add: sample_write_def sample_completion_def samples inmem_defs status_defs)

lemma sample_write_spares: "inmem_inv s \<Longrightarrow> spares inmem_rows inmem_inv ids s (snd (sample_write s))"
  using inmem.update_rows [of s "''op_1''" sample_completion "3 * Hour"]
  by (cases "sample_write s") (auto simp: spares_def sample_write_def terminal_write_def)

lemma sample_in_order:
  assumes "th_mem v = sample_store" and "\<And>ids. obeys (spares inmem_rows inmem_inv ids) v"
  shows "in_order inmem_rows inmem_inv (sample_racer v)"
proof -
  have "op_id (replicate n CHR ''A'') \<noteq> ''op_1''" for n
    by (cases n) (auto simp: op_id_def ToLower_def lower_A)
  with assms sample_ids_inj sample_store_inv show ?thesis
    by (auto simp: in_order_def primed_def own_ids_def sample_rows sample_racer_def intro: inj_on_subset)
qed

text \<open>One sweep, as a goroutine: what it lists, and what it finds when it writes\<close>

lemma sample_stale: "ListRunningPastDeadline inmem_store (1 * Hour) sample_store = (Inr [sample_operation], sample_store)"
  by (simp add: samples inmem_defs durations status_defs)

lemma sample_racing_list:
  "ListRunningPastDeadline (mgr_store sample_racing) t = one_step (ListRunningPastDeadline inmem_store t)"
  by (simp add: sample_racing_def NewManager_def shared_def)

lemma sample_resolving:
  assumes "sample_write (th_found (rt_store w)) = (r, s')" and "clk_now (rt_clock w) = 3 * Hour"
    and "clk_work (rt_clock w) = (\<lambda>_. 0)"
  shows "rt_store (snd (run_state (resolveRunning sample_racing ctx sample_operation) w)) = moved (rt_store w) s'"
  using assms sample_complete
  by (simp add: resolveRunning_def completeOperation_def resolve_def logTerminalWriteErr_def sample_racing_def
      NewManager_def shared_def one_step_def sample_write_def sample_completion_def elapse_def Let_def
      split: option.splits)

lemma sample_sweep:
  assumes "th_own v = []" and "th_mem v = sample_store" and "\<And>ids. obeys (spares inmem_rows inmem_inv ids) v"
    and "th_found v = sample_store" and "th_found (moved v sample_store) = s" and "sample_write s = (r, s')"
  shows "\<exists>js. goroutine inmem_rows inmem_inv sample_racing [OpSweep Background] [(sample_store, sample_store), (s, s')] js"
proof -
  let ?w = "snd (run_state (ReconcileSweep sample_racing Background) (sample_racer v))"
  have "rt_store ?w = moved (moved v sample_store) s'"
    using assms sample_stale
    by (simp add: ReconcileSweep_def sample_racing_list one_step_def sample_racer_def sample_resolving elapse_def
        staleAfter_def)
  with assms have "th_own (rt_store ?w) = [(sample_store, sample_store), (s, s')]" by simp
  with sample_in_order [OF assms(2,3)] assms(1) show ?thesis
    unfolding goroutine_def by (auto simp: sample_racer_def intro!: exI [of _ "sample_racer v"])
qed

text \<open>The first sweep makes its write before the second makes its own.\<close>

definition sample_resolved :: inMemory where
  "sample_resolved = snd (sample_write sample_store)"

definition sample_latecomer :: "inMemory thread" where
  "sample_latecomer =
     \<lparr>th_mem = sample_store,
      th_others = (\<lambda>n s. if n = 1 \<and> inmem_inv s then snd (sample_write s) else s), th_own = []\<rparr>"

definition sample_race :: "(inMemory \<times> inMemory) list" where
  "sample_race =
     [(sample_store, sample_store), (sample_store, sample_store), (sample_store, sample_resolved),
      (sample_resolved, sample_resolved)]"

lemma spares_refl: "spares rows good ids s s"
  by (simp add: spares_def)

lemma sample_execution:
  "\<exists>js1 js2. execution (goroutine inmem_rows inmem_inv sample_racing)
     [([OpSweep Background], [(sample_store, sample_store), (sample_store, sample_resolved)], js1),
      ([OpSweep Background], [(sample_store, sample_store), (sample_resolved, sample_resolved)], js2)]
     sample_store sample_race"
proof -
  have attempt: "sample_write sample_store = (None, sample_resolved)"
    "sample_write sample_resolved = (Some ErrAlreadyTerminal, sample_resolved)"
    using sample_write_twice by (simp_all add: sample_resolved_def prod_eq_iff)
  obtain js1 where 1: "goroutine inmem_rows inmem_inv sample_racing [OpSweep Background]
      [(sample_store, sample_store), (sample_store, sample_resolved)] js1"
    using sample_sweep [of "alone sample_store", OF _ _ obeys_alone _ _ attempt(1)]
    by (auto simp: th_found_def spares_refl)
  have "obeys (spares inmem_rows inmem_inv ids) sample_latecomer" for ids
    using sample_write_spares by (simp add: obeys_def sample_latecomer_def spares_refl)
  with sample_sweep [of sample_latecomer, OF _ _ _ _ _ attempt(2)] attempt(1) sample_store_inv
  obtain js2 where 2: "goroutine inmem_rows inmem_inv sample_racing [OpSweep Background]
      [(sample_store, sample_store), (sample_resolved, sample_resolved)] js2"
    by (auto simp: th_found_def sample_latecomer_def moved_def)
  have "interleaved [[(sample_store, sample_store), (sample_store, sample_resolved)],
      [(sample_store, sample_store), (sample_resolved, sample_resolved)]] sample_race"
    unfolding sample_race_def
    by (rule next_step [of 0], simp, simp, rule next_step [of 1], simp, simp, rule next_step [of 0], simp, simp,
        rule next_step [of 1], simp, simp, rule finished) auto
  with 1 2 show ?thesis by (auto simp: execution_def sample_race_def)
qed

section \<open>Audit rows and notifications\<close>

text \<open>C2. Every resolution is announced at most once, over any store that keeps the contract, however
  the goroutines of the gateway are interleaved: requests, watches, sweeps and reads run at once, whatever the
  cluster answers and however calls fail, and in the end there is no resolution message for an
  operation whose row is not terminal, at most one for an operation that has become terminal, and none for an
  operation that was terminal from the start.\<close>

theorem one_notice_per_operation:
  assumes "concurrent_store st rows good" and "mgr_store m = st" and "mgr_notify m = telegram_notifier"
    and "execution (goroutine rows good m) gs s tr"
  shows "settled (rows s) i + notices i gs \<le> settled (rows (final s tr)) i"
  by (rule execution_balanced(2) [OF goroutine_honest [OF assms(1-3)] assms(4)])

theorem one_notice_per_operation_witness:
  "\<exists>gs. length gs = 2 \<and> execution (goroutine inmem_rows inmem_inv sample_racing) gs sample_store sample_race \<and>
     notices ''op_1'' gs \<le> settled (inmem_rows sample_resolved) ''op_1''"
proof -
  obtain js1 js2 where run: "execution (goroutine inmem_rows inmem_inv sample_racing)
     [([OpSweep Background], [(sample_store, sample_store), (sample_store, sample_resolved)], js1),
      ([OpSweep Background], [(sample_store, sample_store), (sample_resolved, sample_resolved)], js2)]
     sample_store sample_race" using sample_execution by blast
  have "mgr_store sample_racing = shared inmem_store" "mgr_notify sample_racing = telegram_notifier"
    by (simp_all add: sample_racing_def NewManager_def)
  from one_notice_per_operation [OF inmem_shared.concurrent_store_axioms this run, of "''op_1''"] run
  show ?thesis by (force simp: sample_race_def)
qed

text \<open>C7. The audit trail only moves forward, over any store that keeps the contract, however the
  goroutines of the gateway are interleaved: a row that exists before an execution exists after it, unchanged
  or taken from running to a terminal status by one update that appends one audit event; a terminal row never
  changes.\<close>

theorem audit_rows_move_forward:
  assumes "concurrent_store st rows good" and "mgr_store m = st" and "mgr_notify m = telegram_notifier"
    and "execution (goroutine rows good m) gs s tr" and "rows s i = Some op"
  shows "\<exists>op'. rows (final s tr) i = Some op' \<and> row_le op op'"
  using execution_balanced(1) [OF goroutine_honest [OF assms(1-3)] assms(4)] assms(5) by (rule evolves_le)

theorem audit_rows_move_forward_witness:
  "\<exists>op'. inmem_rows sample_resolved ''op_1'' = Some op' \<and> row_le sample_operation op'"
proof -
  have "mgr_store sample_racing = shared inmem_store" "mgr_notify sample_racing = telegram_notifier"
    by (simp_all add: sample_racing_def NewManager_def)
  moreover obtain gs where "execution (goroutine inmem_rows inmem_inv sample_racing) gs sample_store sample_race"
    using sample_execution by blast
  ultimately show ?thesis
    using audit_rows_move_forward [OF inmem_shared.concurrent_store_axioms, of sample_racing gs sample_store sample_race "''op_1''"]
    by (simp add: sample_race_def sample_store_row)
qed

section \<open>Following a rollout\<close>

text \<open>C4. Following a rollout always ends and leaves the operation resolved, on the in-memory
  store: whatever the cluster answers, however often watches fail or close, and however long
  calls take, \<^verbatim>\<open>watchRollout\<close> returns and the row of the operation is terminal.\<close>

theorem watchRollout_resolves:
  assumes "mgr_store m = inmem_store" and "known inmem_rows (Op_OperationID op) w"
  shows "\<exists>w'. watchRollout m op msg w = Some w' \<and> over inmem_rows (Op_OperationID op) w'"
  using watchRollout_total [of m op msg w] watchRollout_over [OF assms] by blast

theorem watchRollout_resolves_witness:
  "\<exists>w'. watchRollout sample_manager sample_operation None sample_rt = Some w' \<and>
     over inmem_rows ''op_1'' w'"
  using watchRollout_resolves [of sample_manager sample_operation sample_rt None] sample_known by simp

text \<open>C9. A watch records success only for a rollout it has seen complete: if following an
  operation that was not marked succeeded ends with its row marked succeeded, then in one of
  the cluster states it could read, a read or a watch event reported the deployment complete.\<close>

theorem watch_success_was_observed:
  assumes "mgr_store m = inmem_store"
    and "kube_closed (mgr_kube m) (Op_Namespace op) (Op_Deployment op) K" and "rt_kube w \<in> K"
    and "map_option Op_Status (inmem_rows (rt_store w) i) \<noteq> Some StatusSucceeded"
    and "watchRollout m op msg w = Some w'"
    and "map_option Op_Status (inmem_rows (rt_store w') i) = Some StatusSucceeded"
  shows "seen_complete (mgr_kube m) (Op_Namespace op) (Op_Deployment op) K"
proof (rule ccontr)
  assume "\<not> ?thesis"
  with assms(1,2) have "uncompleted m op K" by (simp add: uncompleted_def)
  moreover have "unsuccessful i K w" using assms(3,4) by (simp add: unsuccessful_def)
  ultimately have "unsuccessful i K w'" using assms(5) by (rule uns_watchRollout)
  with assms(6) show False by (simp add: unsuccessful_def)
qed

lemma sample_watch_run:
  "\<exists>w'. watchRollout sample_manager sample_operation None sample_rt = Some w' \<and>
     map_option Op_Status (inmem_rows (rt_store w') ''op_1'') = Some StatusSucceeded"
proof -
  have "watchRollout sample_manager sample_operation None sample_rt =
     watch_loop sample_manager (Some (3 * Hour + 12 * Minute)) sample_operation None Second
       (sample_rt\<lparr>rt_clock := elapse (rt_clock sample_rt)\<rparr>)"
    by (simp add: watchRollout_def watch_deadline_def sample_rt_def progressDeadline_def
        sample_deployment_def wrap64_def durations elapse_def)
  then show ?thesis
    by (subst (asm) watch_loop.simps)
      (simp add: watch_body_def evalOnce_def judge_def sample_complete completeOperation_def resolve_def
        sample_rt_def ctx_done_def durations elapse_def inmem_store_def inmem_update_cases sample_rows
        sample_operation_running)
qed

theorem watch_success_was_observed_witness:
  "seen_complete sample_kube ''backend'' ''api'' UNIV"
proof -
  obtain w' where run: "watchRollout sample_manager sample_operation None sample_rt = Some w'"
    "map_option Op_Status (inmem_rows (rt_store w') ''op_1'') = Some StatusSucceeded"
    using sample_watch_run by blast
  have "kube_closed (mgr_kube sample_manager) (Op_Namespace sample_operation) (Op_Deployment sample_operation) UNIV"
    by (simp add: kube_closed_def)
  from watch_success_was_observed [OF _ this _ _ run] show ?thesis
    by (simp add: sample_rows) (simp add: sample_operation_def status_defs)
qed

lemma inmem_get:
  "GetOperation inmem_store i s =
     (case inmem_rows s i of None \<Rightarrow> Inl ErrNotFound | Some op \<Rightarrow> Inr op, s)"
  by (simp add: inmem_store_def inmem_GetOperation_def inmem_rows_def split: option.splits)

section \<open>Reconciliation\<close>

text \<open>C10. A sweep leaves no stale operation running, on the in-memory store: when reads of
  deployments do not report a cancelled context, every operation that was running and had been
  requested more than two hours before is terminal after \<^verbatim>\<open>ReconcileSweep\<close>.\<close>

theorem sweep_resolves_stale:
  assumes "mgr_store m = inmem_store" and "inmem_inv (rt_store w)"
    and "\<And>ns d e k. fst (GetDeployment (mgr_kube m) ns d k) = Inl e \<Longrightarrow> \<not> errors_Is e context_Canceled"
    and "inmem_rows (rt_store w) i = Some op" and "\<not> Terminal op"
    and "Op_RequestedAt op < clk_now (rt_clock w) - staleAfter"
  shows "over inmem_rows i (snd (run_state (ReconcileSweep m Background) w))"
proof -
  let ?found = "filter (\<lambda>op. Op_Status op = StatusRunning \<and> Op_RequestedAt op < clk_now (rt_clock w) - staleAfter)
    (map snd (ops (rt_store w)))"
  have id: "Op_OperationID op = i" using inmem_keyed [OF assms(2,4)] .
  have found: "op \<in> set ?found"
    using assms(2,4-6) id inmem_listed [of "rt_store w" op] by (auto simp: Terminal_def)
  let ?w1 = "w\<lparr>rt_clock := elapse (elapse (rt_clock w))\<rparr>"
  have known: "known inmem_rows (Op_OperationID y) ?w1" if "y \<in> set ?found" for y
    using that inmem_listed [OF assms(2), of y] by (auto simp: known_def)
  obtain u w' where run: "run_state (each (resolveRunning m Background) ?found) ?w1 = (u, w')"
    by (rule prod.exhaust)
  have "run_state (ReconcileSweep m Background) w = (u, w')"
    using run assms(1) by (simp add: ReconcileSweep_def inmem_store_def inmem_ListRunningPastDeadline_def)
  with sweep_all_over [OF assms(1,3) known run found] id show ?thesis by simp
qed

theorem sweep_resolves_stale_witness:
  "over inmem_rows ''op_1'' (snd (run_state (ReconcileSweep sample_manager Background) sample_rt))"
  using sweep_resolves_stale [of sample_manager sample_rt "''op_1''" sample_operation]
  by (simp add: sample_store_inv sample_rows sample_operation_running)
    (simp add: sample_operation_def staleAfter_def durations)

definition stale_verdict :: "Deployment result \<Rightarrow> bool \<Rightarrow> OperationStatus" where
  "stale_verdict r ended =
     (case r of
        Inl e \<Rightarrow> if errors_Is e context_Canceled \<or> ended then StatusRunning else StatusTimeout
      | Inr dep \<Rightarrow>
          (case Eval_State (EvaluateRollout dep) of
             RolloutProgressing \<Rightarrow> StatusTimeout
           | RolloutComplete \<Rightarrow> StatusSucceeded
           | RolloutFailed \<Rightarrow> StatusFailed))"





section \<open>Starting operations\<close>

text \<open>Nothing is changed that is not first on record: when the row of a restart cannot be
  persisted, the caller gets the error with no operation id, the cluster is not touched, no
  message is sent and no watch is started, whatever the store and the cluster are.\<close>

lemma Restart_unrecorded:
  assumes "fst (PutOperation (mgr_store m)
      (new_operation i (op_id (rt_ulid w (rt_ulids w))) ActionRestart ns dep (clk_now (rt_clock w)))
      (rt_store w)) = Some e"
    and "run_state (Restart m i ns dep) w = (r, w')"
  shows "r = ('''', Some (Wrapf ''persist operation: '' e '''')) \<and> rt_kube w' = rt_kube w \<and>
    rt_notify w' = rt_notify w \<and> rt_watchers w' = rt_watchers w"
  using assms by (auto simp: Restart_def persist_new_def NewOperationID_def op_id_def Let_def)

text \<open>C33. The outcome of a restart on the in-memory store: the caller gets the
  operation id. When the patch succeeds, its row is the running operation of the request, one start message
  is queued and one watch of that operation with that message is started. When the patch
  fails, the caller also gets the error, the row is failed with that error and no watch is
  started.\<close>

theorem Restart_outcome:
  assumes "mgr_store m = inmem_store" and "mgr_notify m = telegram_notifier"
    and "run_state (Restart m i ns dep) w = (r, w')"
    and "op = new_operation i (op_id (rt_ulid w (rt_ulids w))) ActionRestart ns dep (clk_now (rt_clock w))"
  shows "case fst (RestartDeployment (mgr_kube m) ns dep (rt_kube w)) of
      None \<Rightarrow> r = (Op_OperationID op, None) \<and>
        inmem_rows (rt_store w') = (inmem_rows (rt_store w))(Op_OperationID op \<mapsto> op) \<and>
        rt_watchers w' = rt_watchers w @ [(op, Some (length (tg_heap (rt_notify w))))] \<and>
        tg_jobs (rt_notify w') = tg_jobs (rt_notify w) @
          [StartJob (length (tg_heap (rt_notify w))) (Op_OperationID op) (render op)]
    | Some e \<Rightarrow> r = (Op_OperationID op, Some (Wrapf ''patch deployment: '' e '''')) \<and>
        (\<exists>row. inmem_rows (rt_store w') = (inmem_rows (rt_store w))(Op_OperationID op \<mapsto> row) \<and>
           Op_Status row = StatusFailed \<and> Op_ErrorCode row = ''K8S_PATCH_FAILED'' \<and>
           Op_ErrorMessage row = Error e \<and> map Event (Op_Events row) = [''REQUESTED'', ''STARTED'', ''FAILED'']) \<and>
        rt_watchers w' = rt_watchers w"
  using assms(1-3) unfolding assms(4)
  by (auto simp: Restart_def persist_new_def NewOperationID_def op_id_def Let_def inmem_store_def
      inmem_PutOperation_def telegram_notifier_def telegram_Started_def failOperation_def resolve_def
      inmem_update_cases Terminal_def new_operation_def terminal_row_def split: option.splits)

theorem Restart_outcome_witness:
  "\<exists>op w'. run_state (Restart sample_manager sample_identity ''backend'' ''api'') sample_rt =
      ((''op_'', None), w') \<and> inmem_rows (rt_store w') ''op_'' = Some op \<and> \<not> Terminal op"
proof -
  obtain r w' where run: "run_state (Restart sample_manager sample_identity ''backend'' ''api'') sample_rt = (r, w')"
    by (rule prod.exhaust)
  have "op_id (rt_ulid sample_rt (rt_ulids sample_rt)) = ''op_''"
    by (simp add: sample_rt_def op_id_def ToLower_def)
  with Restart_outcome [OF _ _ run refl] run show ?thesis
    by (simp add: new_operation_def Terminal_def)
qed




text \<open>The watch deadline of a deployment never overflows: for every \<^verbatim>\<open>int32\<close> number of
  seconds, the deadline is that many seconds, or the manager's default when there is none or it
  is not positive, and adding the two minutes of grace stays within 64 bits.\<close>

lemma progressDeadline_exact:
  assumes "\<And>n. ProgressDeadlineSeconds dep = Some n \<Longrightarrow> n < 2 ^ 31"
    and "mgr_defaultDeadline m \<le> 24 * Hour" and "0 < mgr_defaultDeadline m"
  shows "progressDeadline m dep =
      (case ProgressDeadlineSeconds dep of
         Some n \<Rightarrow> if n > 0 then n * Second else mgr_defaultDeadline m | None \<Rightarrow> mgr_defaultDeadline m) \<and>
    wrap64 (progressDeadline m dep + 2 * Minute) = progressDeadline m dep + 2 * Minute"
proof -
  have "progressDeadline m dep =
      (case ProgressDeadlineSeconds dep of
         Some n \<Rightarrow> if n > 0 then n * Second else mgr_defaultDeadline m | None \<Rightarrow> mgr_defaultDeadline m)"
    using assms(1) by (auto simp: progressDeadline_def durations intro!: wrap64_id split: option.splits)
  moreover from this have "0 < progressDeadline m dep \<and> progressDeadline m dep < 2 ^ 31 * Second"
    using assms by (auto simp: durations split: option.splits)
  ultimately show ?thesis by (auto simp: durations intro!: wrap64_id)
qed

end
