(* ===== verification/Api_Properties.thy ===== *)
theory Api_Properties
  imports Api Manager_Properties
begin

text \<open>
  Properties of the HTTP API: who may act, what each outcome of an authorization does, what an
  accepted request has started, and readiness.
\<close>

section \<open>Authorization\<close>

definition quiet :: "('s, 'k, 'n, 'a) rt \<Rightarrow> ('s, 'k, 'n, 'a) rt \<Rightarrow> bool" where
  "quiet w w' \<longleftrightarrow> rt_kube w' = rt_kube w \<and> rt_notify w' = rt_notify w \<and> rt_watchers w' = rt_watchers w"

lemma authorize_runs:
  assumes "Authorize (dp_Authz d) (authz_context d ctx (clk_now (rt_clock w)))
      (authz_request i action ns dep) (rt_clock w, rt_authz w) = (dec, c, a)"
    and "run_state (authorize d ctx i action ns dep container img) w = (r, w')"
  shows "quiet w w' \<and>
    (case dec of
       Inl e \<Rightarrow> r = Some (writeError 503 ''AUTHZ_UNAVAILABLE'' ''authorization service unavailable'') \<and>
         rt_store w' = rt_store w
     | Inr decision \<Rightarrow>
         if Allowed decision then r = None \<and> w' = w\<lparr>rt_clock := c, rt_authz := a\<rparr>
         else r = Some (writeError 403 ''FORBIDDEN'' ''not allowed'') \<and>
           rt_store w' = snd (PutOperation (dp_Store d) (denied_row i (op_id (rt_ulid w (rt_ulids w)))
             action ns dep container img (Reason decision) (clk_now c)) (rt_store w)))"
  using assms
  by (auto simp: authorize_def recordDenied_def run_authz_call NewOperationID_def op_id_def quiet_def
      split: sum.splits if_splits)


definition sample_deps :: "(inMemory, unit, telegram, unit) Deps" where
  "sample_deps =
     \<lparr>dp_Verifier = (\<lambda>t. if t = ''good'' then Inr sample_identity else Inl (Errorf ''bad token'')),
      dp_Authz = FileAuthorizer empty_policy, dp_Ops = sample_manager, dp_Store = inmem_store,
      dp_AuthzTimeout = 0\<rparr>"


section \<open>Requests\<close>

text \<open>What a restart or rollout request asks for\<close>

definition asks_for :: "route \<Rightarrow> json option \<Rightarrow> string \<Rightarrow> string \<Rightarrow> string \<Rightarrow> bool" where
  "asks_for rt body action ns dep \<longleftrightarrow>
     rt = RestartRoute \<and> action = ActionRestart \<and> unmarshal dec_restart body = Inr (ns, dep) \<or>
     rt = RolloutRoute \<and> action = ActionRollout \<and>
       (\<exists>c img. unmarshal dec_rollout body = Inr (ns, dep, c, img))"

lemma handleRestart_refused:
  assumes "run_state (handleRestart d ctx body i) w = (r, w')"
    and "\<And>ns dep dec. asks_for RestartRoute body ActionRestart ns dep \<Longrightarrow>
      fst (Authorize (dp_Authz d) (authz_context d ctx (clk_now (rt_clock w)))
        (authz_request i ActionRestart ns dep) (rt_clock w, rt_authz w)) = Inr dec \<Longrightarrow> \<not> Allowed dec"
  shows "quiet w w'"
proof (cases "unmarshal dec_restart body")
  case (Inl e)
  with assms(1) show ?thesis by (auto simp: handleRestart_def quiet_def)
next
  case (Inr nd)
  obtain ns dep where nd: "nd = (ns, dep)" by (cases nd)
  obtain dec c a where az: "Authorize (dp_Authz d) (authz_context d ctx (clk_now (rt_clock w)))
      (authz_request i ActionRestart ns dep) (rt_clock w, rt_authz w) = (dec, c, a)" by (metis prod.collapse)
  obtain r1 w1 where run: "run_state (authorize d ctx i ActionRestart ns dep '''' '''') w = (r1, w1)"
    by (rule prod.exhaust)
  have "\<And>dc. dec = Inr dc \<Longrightarrow> \<not> Allowed dc" using assms(2) [of ns dep] az Inr nd by (auto simp: asks_for_def)
  with authorize_runs [OF az run] have "quiet w w1" and "r1 \<noteq> None" by (auto split: sum.splits if_splits)
  with assms(1) Inr nd run show ?thesis
    by (auto simp: handleRestart_def quiet_def split: if_splits option.splits)
qed

lemma handleRollout_refused:
  assumes "run_state (handleRollout d ctx body i) w = (r, w')"
    and "\<And>ns dep dec. asks_for RolloutRoute body ActionRollout ns dep \<Longrightarrow>
      fst (Authorize (dp_Authz d) (authz_context d ctx (clk_now (rt_clock w)))
        (authz_request i ActionRollout ns dep) (rt_clock w, rt_authz w)) = Inr dec \<Longrightarrow> \<not> Allowed dec"
  shows "quiet w w'"
proof (cases "unmarshal dec_rollout body")
  case (Inl e)
  with assms(1) show ?thesis by (auto simp: handleRollout_def quiet_def)
next
  case (Inr nd)
  obtain ns dep ct img where nd: "nd = (ns, dep, ct, img)" by (cases nd)
  obtain dec c a where az: "Authorize (dp_Authz d) (authz_context d ctx (clk_now (rt_clock w)))
      (authz_request i ActionRollout ns dep) (rt_clock w, rt_authz w) = (dec, c, a)" by (metis prod.collapse)
  obtain r1 w1 where run: "run_state (authorize d ctx i ActionRollout ns dep ct img) w = (r1, w1)"
    by (rule prod.exhaust)
  have "\<And>dc. dec = Inr dc \<Longrightarrow> \<not> Allowed dc" using assms(2) [of ns dep] az Inr nd by (auto simp: asks_for_def)
  with authorize_runs [OF az run] have "quiet w w1" and "r1 \<noteq> None" by (auto split: sum.splits if_splits)
  with assms(1) Inr nd run show ?thesis
    by (auto simp: handleRollout_def quiet_def split: if_splits option.splits)
qed

text \<open>C1. Nobody acts without permission: if serving a restart or rollout request touches the
  cluster, sends a notification or starts a watch, then the request carried a bearer token the
  verifier accepted, and the authorizer allowed the action the route stands for, on the
  namespace and deployment of the body, for the repository and ref of that token.\<close>

theorem no_action_without_permission:
  assumes "rt = RestartRoute \<or> rt = RolloutRoute" and "run_state (serve d rt rq) w = (r, w')"
    and "\<not> quiet w w'"
  shows "\<exists>i action ns dep dec. HasPrefix (Rq_Authorization rq) ''Bearer '' \<and>
    dp_Verifier d (TrimPrefix (Rq_Authorization rq) ''Bearer '') = Inr i \<and>
    asks_for rt (Rq_Body rq) action ns dep \<and>
    fst (Authorize (dp_Authz d)
      (authz_context d (WithTimeout (Rq_Context rq) requestTimeout (clk_now (rt_clock w))) (clk_now (rt_clock w)))
      (authz_request i action ns dep) (rt_clock w, rt_authz w)) = Inr dec \<and> Allowed dec"
proof -
  let ?ctx = "WithTimeout (Rq_Context rq) requestTimeout (clk_now (rt_clock w))"
  have refl: "quiet w w" and log: "quiet w (w\<lparr>rt_log := l\<rparr>)" for l by (simp_all add: quiet_def)
  from assms have bearer: "HasPrefix (Rq_Authorization rq) ''Bearer ''"
    using refl by (auto simp: serve_def authenticate_def split: if_splits)
  then obtain i where i: "dp_Verifier d (TrimPrefix (Rq_Authorization rq) ''Bearer '') = Inr i"
    using assms log by (cases "dp_Verifier d (TrimPrefix (Rq_Authorization rq) ''Bearer '')")
      (auto simp: serve_def authenticate_def)
  from assms(1) show ?thesis
  proof
    assume rt: "rt = RestartRoute"
    with assms(2) bearer i have "run_state (handleRestart d ?ctx (Rq_Body rq) i) w = (r, w')"
      by (simp add: serve_def authenticate_def)
    with handleRestart_refused assms(3) rt bearer i show ?thesis by metis
  next
    assume rt: "rt = RolloutRoute"
    with assms(2) bearer i have "run_state (handleRollout d ?ctx (Rq_Body rq) i) w = (r, w')"
      by (simp add: serve_def authenticate_def)
    with handleRollout_refused assms(3) rt bearer i show ?thesis by metis
  qed
qed

lemma sample_allowed:
  "run_state (serve (sample_deps\<lparr>dp_Authz := \<lparr>Authorize = (\<lambda>ctx req s. (Inr Permit, s)), Ready = None\<rparr>\<rparr>) RestartRoute
      \<lparr>Rq_Authorization = ''Bearer good'',
       Rq_Body = Some (JObj [(''namespace'', JStr ''backend''), (''deployment'', JStr ''api'')]),
       Rq_Context = None\<rparr>) sample_rt = (r, w') \<Longrightarrow> \<not> quiet sample_rt w'"
  by (auto simp: serve_def authenticate_def sample_deps_def HasPrefix_def TrimPrefix_def handleRestart_def
      unmarshal_def dec_restart_def dec_field_def field_is_def set_str_def authorize_def run_authz_call
      Restart_def persist_new_def NewOperationID_def Let_def quiet_def inmem_store_def inmem_PutOperation_def
      telegram_notifier_def telegram_Started_def sample_rt_def split: if_splits)

theorem no_action_without_permission_witness:
  "\<exists>i action ns dep. asks_for RestartRoute
      (Some (JObj [(''namespace'', JStr ''backend''), (''deployment'', JStr ''api'')])) action ns dep \<and>
    dp_Verifier sample_deps ''good'' = Inr i"
proof -
  let ?d = "sample_deps\<lparr>dp_Authz := \<lparr>Authorize = (\<lambda>ctx req s. (Inr Permit, s)), Ready = None\<rparr>\<rparr>"
  let ?rq = "\<lparr>Rq_Authorization = ''Bearer good'',
       Rq_Body = Some (JObj [(''namespace'', JStr ''backend''), (''deployment'', JStr ''api'')]), Rq_Context = None\<rparr>"
  obtain r w' where run: "run_state (serve ?d RestartRoute ?rq) sample_rt = (r, w')" by (rule prod.exhaust)
  from no_action_without_permission [OF _ run sample_allowed [OF run]] show ?thesis
    by (auto simp: sample_deps_def TrimPrefix_def HasPrefix_def)
qed

text \<open>C24. A request without a valid token changes nothing: on every route but the two probes, a
  missing bearer prefix or a token the verifier rejects is answered 401, and apart from the log
  the process is exactly as before; neither the authorizer, the store nor the cluster is asked.\<close>

theorem unauthenticated_changes_nothing:
  assumes "rt \<noteq> Healthz" and "rt \<noteq> Readyz" and "run_state (serve d rt rq) w = (r, w')"
    and "\<not> HasPrefix (Rq_Authorization rq) ''Bearer '' \<or>
      (\<exists>e. dp_Verifier d (TrimPrefix (Rq_Authorization rq) ''Bearer '') = Inl e)"
  shows "(\<exists>msg. r = Some (writeError 401 ''UNAUTHENTICATED'' msg)) \<and> (\<exists>l. w' = w\<lparr>rt_log := l\<rparr>)"
proof -
  have same: "\<exists>l. v = v\<lparr>rt_log := l\<rparr>" for v :: "('a, 'b, 'c, 'd) rt"
    by (rule exI [of _ "rt_log v"]) simp
  from assms show ?thesis
    by (cases rt) (auto simp: serve_def authenticate_def split: if_splits intro: same)
qed

theorem unauthenticated_changes_nothing_witness:
  "\<exists>l. snd (run_state (serve sample_deps (OperationRoute ''op_1'')
      \<lparr>Rq_Authorization = '''', Rq_Body = None, Rq_Context = None\<rparr>) sample_rt) = sample_rt\<lparr>rt_log := l\<rparr>"
proof -
  obtain r w' where run: "run_state (serve sample_deps (OperationRoute ''op_1'')
      \<lparr>Rq_Authorization = '''', Rq_Body = None, Rq_Context = None\<rparr>) sample_rt = (r, w')" by (rule prod.exhaust)
  from unauthenticated_changes_nothing [OF _ _ run] run show ?thesis by (simp add: HasPrefix_def)
qed

section \<open>Responses\<close>

lemma Restart_started:
  assumes "run_state (Restart m i ns dep) w = ((opID, None), w')"
  shows "\<exists>op msg. rt_watchers w' = rt_watchers w @ [(op, msg)] \<and> Op_OperationID op = opID \<and>
    Op_Status op = StatusRunning \<and> Op_Namespace op = ns \<and> Op_Deployment op = dep"
  using assms
  by (auto simp: Restart_def persist_new_def NewOperationID_def Let_def new_operation_def
      split: option.splits prod.splits)

lemma start_rollout_started:
  assumes "run_state (start_rollout m i ns dep c img) w = ((opID, None), w')"
  shows "\<exists>op msg. rt_watchers w' = rt_watchers w @ [(op, msg)] \<and> Op_OperationID op = opID \<and>
    Op_Status op = StatusRunning \<and> Op_Namespace op = ns \<and> Op_Deployment op = dep"
  using assms
  by (auto simp: start_rollout_def persist_new_def NewOperationID_def Let_def new_operation_def
      split: option.splits prod.splits)

lemma Rollout_started:
  assumes "run_state (Rollout m i ns dep c img) w = (Some (opID, None), w')"
  shows "\<exists>op msg. rt_watchers w' = rt_watchers w @ [(op, msg)] \<and> Op_OperationID op = opID \<and>
    Op_Status op = StatusRunning \<and> Op_Namespace op = ns \<and> Op_Deployment op = dep"
proof -
  obtain w1 c1 where "run_state (start_rollout m i ns dep c1 img) w1 = ((opID, None), w')"
    "rt_watchers w1 = rt_watchers w"
    using assms
    by (auto simp: Rollout_def resolveContainer_def split: if_splits sum.splits list.splits prod.splits)
  with start_rollout_started show ?thesis by metis
qed

lemma api_status [simp]:
  "Api_Status (writeError n c m) = n" "Api_Status (accepted opID) = 202"
  "Api_Status (k8s_unavailable opID) = 502" "Api_Status store_unavailable = 503"
  by (simp_all add: writeError_def accepted_def k8s_unavailable_def store_unavailable_def)

lemma authorize_continues:
  assumes "run_state (authorize d ctx i action ns dep container img) w = (r, w')"
  shows "rt_watchers w' = rt_watchers w" and "r = Some resp \<Longrightarrow> Api_Status resp \<in> {403, 503}"
proof -
  obtain dec c a where "Authorize (dp_Authz d) (authz_context d ctx (clk_now (rt_clock w)))
      (authz_request i action ns dep) (rt_clock w, rt_authz w) = (dec, c, a)" by (metis prod.collapse)
  from authorize_runs [OF this assms]
  show "rt_watchers w' = rt_watchers w" and "r = Some resp \<Longrightarrow> Api_Status resp \<in> {403, 503}"
    by (auto simp: quiet_def split: sum.splits if_splits)
qed

lemma started_response_202:
  "Api_Status (started_response res) = 202 \<Longrightarrow> res = (fst res, None) \<and> started_response res = accepted (fst res)"
  by (cases res) (auto simp: started_response_def split: if_splits)

lemma rollout_response_202:
  "Api_Status (rollout_response res) = 202 \<Longrightarrow> res = (fst res, None) \<and> rollout_response res = accepted (fst res)"
  by (cases res) (auto simp: rollout_response_def started_response_def split: if_splits option.splits)

lemma handleRestart_202:
  assumes "run_state (handleRestart d ctx body i) w = (Some resp, w')" and "Api_Status resp = 202"
  shows "\<exists>op msg. rt_watchers w' = rt_watchers w @ [(op, msg)] \<and> resp = accepted (Op_OperationID op) \<and>
    Op_Status op = StatusRunning \<and> asks_for RestartRoute body ActionRestart (Op_Namespace op) (Op_Deployment op)"
proof -
  obtain ns dep where body: "unmarshal dec_restart body = Inr (ns, dep)" and ne: "ns \<noteq> ''''" "dep \<noteq> ''''"
    using assms by (cases "unmarshal dec_restart body") (auto simp: handleRestart_def split: if_splits)
  obtain r1 w1 where az: "run_state (authorize d ctx i ActionRestart ns dep '''' '''') w = (r1, w1)"
    by (rule prod.exhaust)
  obtain res w2 where rs: "run_state (Restart (dp_Ops d) i ns dep) w1 = (res, w2)" by (rule prod.exhaust)
  have r1: "r1 = None" using assms body ne az authorize_continues(2) [OF az]
    by (cases r1) (auto simp: handleRestart_def)
  then have "resp = started_response res" "w2 = w'"
    using assms body ne az rs by (auto simp: handleRestart_def)
  with assms(2) rs started_response_202 [of res] Restart_started [of "dp_Ops d" i ns dep w1 "fst res" w']
  show ?thesis using body authorize_continues(1) [OF az] by (auto simp: asks_for_def)
qed

lemma handleRollout_202:
  assumes "run_state (handleRollout d ctx body i) w = (Some resp, w')" and "Api_Status resp = 202"
  shows "\<exists>op msg. rt_watchers w' = rt_watchers w @ [(op, msg)] \<and> resp = accepted (Op_OperationID op) \<and>
    Op_Status op = StatusRunning \<and> asks_for RolloutRoute body ActionRollout (Op_Namespace op) (Op_Deployment op)"
proof -
  obtain ns dep c img where body: "unmarshal dec_rollout body = Inr (ns, dep, c, img)"
    and ne: "ns \<noteq> ''''" "dep \<noteq> ''''" "img \<noteq> ''''"
    using assms by (cases "unmarshal dec_rollout body") (auto simp: handleRollout_def split: if_splits)
  obtain r1 w1 where az: "run_state (authorize d ctx i ActionRollout ns dep c img) w = (r1, w1)"
    by (rule prod.exhaust)
  obtain res w2 where rs: "run_state (Rollout (dp_Ops d) i ns dep c img) w1 = (res, w2)" by (rule prod.exhaust)
  have r1: "r1 = None" using assms body ne az authorize_continues(2) [OF az]
    by (cases r1) (auto simp: handleRollout_def)
  then obtain res' where "res = Some res'" "resp = rollout_response res'" "w2 = w'"
    using assms body ne az rs by (auto simp: handleRollout_def)
  with assms(2) rs rollout_response_202 [of res'] Rollout_started [of "dp_Ops d" i ns dep c img w1 "fst res'" w']
  show ?thesis using body authorize_continues(1) [OF az] by (auto simp: asks_for_def)
qed

text \<open>C21. An accepted request is being followed: a 202 answer to a restart or rollout request names
  the operation of the request, in status running, and exactly one watch has been started, the
  watch of that operation.\<close>

theorem accepted_is_watched:
  assumes "rt = RestartRoute \<or> rt = RolloutRoute"
    and "run_state (serve d rt rq) w = (Some resp, w')" and "Api_Status resp = 202"
  shows "\<exists>op msg action. rt_watchers w' = rt_watchers w @ [(op, msg)] \<and> resp = accepted (Op_OperationID op) \<and>
    Op_Status op = StatusRunning \<and> asks_for rt (Rq_Body rq) action (Op_Namespace op) (Op_Deployment op)"
proof -
  let ?ctx = "WithTimeout (Rq_Context rq) requestTimeout (clk_now (rt_clock w))"
  obtain i where "rt = RestartRoute \<and> run_state (handleRestart d ?ctx (Rq_Body rq) i) w = (Some resp, w') \<or>
      rt = RolloutRoute \<and> run_state (handleRollout d ?ctx (Rq_Body rq) i) w = (Some resp, w')"
    using assms by (auto simp: serve_def authenticate_def split: if_splits sum.splits)
  with assms(3) handleRestart_202 handleRollout_202 show ?thesis by metis
qed

lemma sample_202:
  "fst (run_state (serve (sample_deps\<lparr>dp_Authz := \<lparr>Authorize = (\<lambda>ctx req s. (Inr Permit, s)), Ready = None\<rparr>\<rparr>) RestartRoute
      \<lparr>Rq_Authorization = ''Bearer good'',
       Rq_Body = Some (JObj [(''namespace'', JStr ''backend''), (''deployment'', JStr ''api'')]),
       Rq_Context = None\<rparr>) sample_rt) = Some (accepted ''op_'')"
  by (simp add: serve_def authenticate_def sample_deps_def HasPrefix_def TrimPrefix_def handleRestart_def
      unmarshal_def dec_restart_def dec_field_def field_is_def set_str_def authorize_def run_authz_call
      Restart_def persist_new_def NewOperationID_def Let_def inmem_store_def inmem_PutOperation_def
      telegram_notifier_def telegram_Started_def sample_rt_def started_response_def new_operation_def ToLower_def)

theorem accepted_is_watched_witness:
  "\<exists>op msg. rt_watchers (snd (run_state (serve
      (sample_deps\<lparr>dp_Authz := \<lparr>Authorize = (\<lambda>ctx req s. (Inr Permit, s)), Ready = None\<rparr>\<rparr>) RestartRoute
      \<lparr>Rq_Authorization = ''Bearer good'',
       Rq_Body = Some (JObj [(''namespace'', JStr ''backend''), (''deployment'', JStr ''api'')]),
       Rq_Context = None\<rparr>) sample_rt)) = rt_watchers sample_rt @ [(op, msg)] \<and> Op_Status op = StatusRunning"
proof -
  let ?d = "sample_deps\<lparr>dp_Authz := \<lparr>Authorize = (\<lambda>ctx req s. (Inr Permit, s)), Ready = None\<rparr>\<rparr>"
  let ?rq = "\<lparr>Rq_Authorization = ''Bearer good'',
       Rq_Body = Some (JObj [(''namespace'', JStr ''backend''), (''deployment'', JStr ''api'')]), Rq_Context = None\<rparr>"
  obtain w' where run: "run_state (serve ?d RestartRoute ?rq) sample_rt = (Some (accepted ''op_''), w')"
    using sample_202 by (metis prod.collapse)
  from accepted_is_watched [OF _ run] run show ?thesis by auto
qed

text \<open>Readiness: the probe answers 200 exactly when the store answers its ping and the
  authorizer, if it has a remote dependency, reports ready; an unreachable store is reported
  without asking the authorizer.\<close>

lemma readyz_exact:
  assumes "run_state (serve d Readyz rq) w = (r, w')"
  shows "r = Some ok_response \<longleftrightarrow> fst (Ping (dp_Store d) (rt_store w)) = None \<and>
    (case Ready (dp_Authz d) of
       None \<Rightarrow> True
     | Some ready \<Rightarrow> fst (ready (WithTimeout (Rq_Context rq) requestTimeout (clk_now (rt_clock w)))
         (elapse (rt_clock w), rt_authz w)) = None)"
  using assms
  by (auto simp: serve_def handleReadyz_def run_authz_call ok_response_def writeError_def
      split: option.splits prod.splits)

end
