(* ===== verification/Api_Effects.thy ===== *)
theory Api_Effects
  imports Api Manager_Correct
begin

text \<open>
  What a request can do to the process. \<open>api_kernel\<close> extends the kernel of the manager to the handlers: a
  preorder that the elementary actions of the manager, the authorizer and the readiness probe respect
  relates the states before and after every request. It is interpreted for what a goroutine does to the shared
  store and to the notifications, which makes the requests, the watches and the sweeper of the whole gateway
  the goroutines of one execution.
\<close>

section \<open>The kernel of the handlers\<close>

locale api_kernel = manager_kernel Q m
  for Q :: "('s, 'k, 'n, 'a) rt \<Rightarrow> ('s, 'k, 'n, 'a) rt \<Rightarrow> bool" and m :: "('s, 'k, 'n) Manager" +
  fixes d :: "('s, 'k, 'n, 'a) Deps"
  assumes serves_ops: "dp_Ops d = m"
    and serves_store: "dp_Store d = mgr_store m"
    and q_authz: "state_io_rel Q (authz_call (f :: clock \<times> 'a \<Rightarrow> Decision result \<times> (clock \<times> 'a)))"
    and q_probe: "state_io_rel Q (authz_call (g :: clock \<times> 'a \<Rightarrow> go_error option \<times> (clock \<times> 'a)))"
    and q_ping: "state_io_rel Q (store_call (Ping (mgr_store m)))"
begin

lemma q_clock: "state_io_rel Q (State_Monad.State (\<lambda>w. (clk_now (rt_clock w), w)))"
  by (auto simp: run_refl)

text \<open>The audit row of a denial is written as the row of a new operation is.\<close>

lemma recordDenied_persists:
  "recordDenied d i action ns dep c img reason = do {
     now \<leftarrow> time_Now;
     res \<leftarrow> persist_new m (\<lambda>oid. denied_row i oid action ns dep c img reason now);
     (if snd res \<noteq> None then log_line LError ''denied audit write failed'' else pure ());
     log_line LWarn ''denied''
   }"
  by (simp add: recordDenied_def persist_new_def serves_store Let_def)

lemma q_recordDenied: "state_io_rel Q (recordDenied d i action ns dep c img reason)"
  unfolding recordDenied_persists by (intro q_rules) (simp add: denied_row_def new_operation_def)

lemma q_authorize: "state_io_rel Q (authorize d ctx i action ns dep c img)"
  unfolding authorize_def by (intro q_rules q_clock q_authz q_recordDenied)

lemma q_handleRestart: "state_io_rel Q (handleRestart d ctx body i)"
  unfolding handleRestart_def serves_ops by (intro q_rules q_authorize q_Restart)

lemma q_handleRollout: "state_io_rel Q (handleRollout d ctx body i)"
  unfolding handleRollout_def serves_ops by (intro q_rules q_authorize q_Rollout)

lemma q_handleGetOperation: "state_io_rel Q (handleGetOperation d ctx opID i)"
  unfolding handleGetOperation_def serves_ops by (intro q_rules q_Get)

lemma q_handleReadyz: "state_io_rel Q (handleReadyz d ctx)"
  unfolding handleReadyz_def serves_store by (intro q_rules q_ping q_probe)

lemma q_authenticate: "(\<And>i. state_io_rel Q (h i)) \<Longrightarrow> state_io_rel Q (authenticate d h rq)"
  unfolding authenticate_def by (intro q_rules)

lemma q_serve: "state_io_rel Q (serve d rt rq)"
  unfolding serve_def Let_def
  by (rule io_bind [OF q_clock], cases rt)
    (simp_all add: io_pure q_authenticate q_handleReadyz q_handleRestart q_handleRollout q_handleGetOperation)

end

section \<open>Requests to the whole gateway\<close>

text \<open>A gateway whose handlers and manager use one store, which several goroutines share\<close>

locale gateway_request = gateway_goroutine st rows good m
  for st :: "'d thread store_api" and rows :: "'d \<Rightarrow> rows" and good :: "'d \<Rightarrow> bool"
    and m :: "('d thread, 'k, telegram) Manager" +
  fixes d :: "('d thread, 'k, telegram, 'a) Deps"
  assumes deps_ops: "dp_Ops d = m"
    and deps_store: "dp_Store d = st"

sublocale gateway_request \<subseteq> request: api_kernel "advances rows good" m d
proof
  show "state_io_rel (advances rows good :: ('d thread, 'k, telegram, 'a) rt \<Rightarrow> ('d thread, 'k, telegram, 'a) rt \<Rightarrow> bool)
      (store_call (Ping (mgr_store m)))"
    unfolding uses_store by (rule advances_query) (rule c_ping)
qed (auto simp: deps_ops deps_store uses_store run_authz_call intro!: state_io_relI advances_quiet split: prod.splits)

section \<open>The goroutines of the gateway\<close>

text \<open>
  The gateway runs a goroutine for every request, one for every operation it follows, and the sweeper. The
  authorizer is shared between requests as well: what others do to it while a request asks it is
  covered by an arbitrary authorizer in its place.
\<close>

datatype task =
    Serve route api_request
  | Follow Operation msg_ref
  | Sweeper go_context "sweeper_event list"

fun run_task ::
  "('s, 'k, 'n, 'a) Deps \<Rightarrow> task \<Rightarrow> ('s, 'k, 'n, 'a) rt \<Rightarrow> ('s, 'k, 'n, 'a) rt option" where
  "run_task d (Serve rt rq) w = Some (snd (run_state (serve d rt rq) w))"
| "run_task d (Follow op msg) w = watchRollout (dp_Ops d) op msg w"
| "run_task d (Sweeper ctx es) w = Some (snd (run_state (StartSweeper (dp_Ops d) ctx es) w))"

definition gateway_task ::
  "('d \<Rightarrow> rows) \<Rightarrow> ('d \<Rightarrow> bool) \<Rightarrow> ('d thread, 'k, telegram, 'a) Deps \<Rightarrow> task \<Rightarrow> ('d \<times> 'd) list \<Rightarrow> job list \<Rightarrow> bool" where
  "gateway_task rows good d x tr js \<longleftrightarrow>
     (\<exists>az w w'. in_order rows good w \<and> th_own (rt_store w) = [] \<and> tg_jobs (rt_notify w) = [] \<and>
        run_task (d\<lparr>dp_Authz := az\<rparr>) x w = Some w' \<and> th_own (rt_store w') = tr \<and> tg_jobs (rt_notify w') = js)"

context gateway_request
begin

lemma advances_task: "run_task d x w = Some w' \<Longrightarrow> advances rows good w w'"
  using goroutine.q_watchRollout
  by (cases x) (auto simp: deps_ops intro: io_snd request.q_serve goroutine.q_StartSweeper)

end

lemma gateway_task_honest:
  assumes "concurrent_store (dp_Store d) rows good" and "mgr_store (dp_Ops d) = dp_Store d"
    and "mgr_notify (dp_Ops d) = telegram_notifier" and "gateway_task rows good d x tr js"
  shows "honest rows good tr js"
proof -
  have "gateway_request (dp_Store d) rows good (dp_Ops d) (d\<lparr>dp_Authz := az\<rparr>)" for az
    using assms(1-3)
    by (simp add: gateway_request_def gateway_goroutine_def gateway_goroutine_axioms_def gateway_request_axioms_def)
  then show ?thesis
    using assms(4) gateway_request.advances_task advances_honest unfolding gateway_task_def by blast
qed

interpretation inmem_request: gateway_request "shared inmem_store" inmem_rows inmem_inv
    "NewManager k (shared inmem_store) (Some telegram_notifier) t"
    "\<lparr>dp_Verifier = v, dp_Authz = az, dp_Ops = NewManager k (shared inmem_store) (Some telegram_notifier) t,
      dp_Store = shared inmem_store, dp_AuthzTimeout = b\<rparr>" for k t v az b
  by unfold_locales simp_all

end
