(* ===== verification/Go_Escape.thy ===== *)
theory Go_Escape
  imports Go_Prelude
begin

text \<open>
  Escaping functions of the standard library: \<^verbatim>\<open>strconv.Quote\<close> behind \<^verbatim>\<open>%q\<close>, and the URL escaping of
  path segments and query values. \<open>Quote\<close> is exact on ASCII; a byte of a multi-byte character is
  kept, as \<^verbatim>\<open>%q\<close> does for printable ones.
\<close>

definition code :: "char \<Rightarrow> nat" where
  "code c = of_char c"

definition hex_lower :: "nat \<Rightarrow> char" where
  "hex_lower n = ''0123456789abcdef'' ! n"

definition hex_upper :: "nat \<Rightarrow> char" where
  "hex_upper n = ''0123456789ABCDEF'' ! n"

definition quote_byte :: "char \<Rightarrow> string" where
  "quote_byte c =
     (if c = CHR 0x22 then [CHR 0x5C, CHR 0x22]
      else if c = CHR 0x5C then [CHR 0x5C, CHR 0x5C]
      else if c = CHR 0x07 then CHR 0x5C # ''a''
      else if c = CHR 0x08 then CHR 0x5C # ''b''
      else if c = CHR 0x0C then CHR 0x5C # ''f''
      else if c = CHR 0x0A then CHR 0x5C # ''n''
      else if c = CHR 0x0D then CHR 0x5C # ''r''
      else if c = CHR 0x09 then CHR 0x5C # ''t''
      else if c = CHR 0x0B then CHR 0x5C # ''v''
      else if code c < 32 \<or> code c = 127
      then CHR 0x5C # ''x'' @ [hex_lower (code c div 16), hex_lower (code c mod 16)]
      else [c])"

definition Quote :: "string \<Rightarrow> string" where
  "Quote s = CHR 0x22 # concat (map quote_byte s) @ [CHR 0x22]"

section \<open>URL escaping\<close>

definition unreserved :: "char \<Rightarrow> bool" where
  "unreserved c \<longleftrightarrow>
     97 \<le> code c \<and> code c \<le> 122 \<or> 65 \<le> code c \<and> code c \<le> 90 \<or> 48 \<le> code c \<and> code c \<le> 57 \<or>
     c \<in> set ''-_.~''"

definition percent :: "char \<Rightarrow> string" where
  "percent c = [CHR ''%'', hex_upper (code c div 16), hex_upper (code c mod 16)]"

definition path_byte :: "char \<Rightarrow> string" where
  "path_byte c = (if unreserved c \<or> c \<in> set ''$&+=:@'' then [c] else percent c)"

definition query_byte :: "char \<Rightarrow> string" where
  "query_byte c = (if c = CHR '' '' then ''+'' else if unreserved c then [c] else percent c)"

definition PathEscape :: "string \<Rightarrow> string" where
  "PathEscape s = concat (map path_byte s)"

definition QueryEscape :: "string \<Rightarrow> string" where
  "QueryEscape s = concat (map query_byte s)"

text \<open>Escaped query values are told apart: the escape of a byte is decodable.\<close>

lemma code_less: "code c < 256"
  by (simp add: code_def)

lemma code_inject: "code c = code d \<longleftrightarrow> c = d"
  by (simp add: code_def)

lemma hex_upper_inj: "m < 16 \<Longrightarrow> n < 16 \<Longrightarrow> hex_upper m = hex_upper n \<longleftrightarrow> m = n"
proof -
  have "distinct ''0123456789ABCDEF''" by simp
  then show "m < 16 \<Longrightarrow> n < 16 \<Longrightarrow> hex_upper m = hex_upper n \<longleftrightarrow> m = n"
    unfolding hex_upper_def by (subst nth_eq_iff_index_eq) simp_all
qed

lemma percent_inject: "percent c @ s = percent d @ t \<longleftrightarrow> c = d \<and> s = t"
proof
  assume eq: "percent c @ s = percent d @ t"
  then have "code c div 16 = code d div 16" "code c mod 16 = code d mod 16" "s = t"
    using code_less [of c] code_less [of d] by (auto simp: percent_def hex_upper_inj)
  then have "code c = code d" by (metis div_mult_mod_eq)
  with \<open>s = t\<close> show "c = d \<and> s = t" by (simp add: code_inject)
qed simp

lemma unreserved_not: "\<not> unreserved CHR ''%''" "\<not> unreserved CHR ''+''"
  by (simp_all add: unreserved_def code_def)

lemma query_byte_cases:
  "query_byte c = percent c \<or> query_byte c = [c] \<and> unreserved c \<or> query_byte c = ''+'' \<and> c = CHR '' ''"
  by (simp add: query_byte_def)

lemma query_byte_inject: "query_byte c @ s = query_byte d @ t \<longleftrightarrow> c = d \<and> s = t"
proof -
  have hd: "percent x @ u = y # v \<Longrightarrow> y = CHR ''%''" for x u y v by (simp add: percent_def)
  show ?thesis
    using query_byte_cases [of c] query_byte_cases [of d]
    by (elim disjE) (auto simp: percent_inject unreserved_not dest: hd hd [OF sym])
qed

lemma query_byte_nonempty: "query_byte c \<noteq> []"
  by (simp add: query_byte_def percent_def)

lemma QueryEscape_inject: "QueryEscape s = QueryEscape t \<longleftrightarrow> s = t"
proof
  assume "QueryEscape s = QueryEscape t"
  then show "s = t"
  proof (induction s arbitrary: t)
    case Nil
    then show ?case by (cases t) (auto simp: QueryEscape_def query_byte_nonempty)
  next
    case (Cons c s)
    then obtain d u where t: "t = d # u"
      by (cases t) (auto simp: QueryEscape_def query_byte_nonempty)
    with Cons.prems have "query_byte c @ QueryEscape s = query_byte d @ QueryEscape u"
      by (simp add: QueryEscape_def)
    then have "c = d" and "QueryEscape s = QueryEscape u" by (simp_all add: query_byte_inject)
    with Cons.IH t show ?case by simp
  qed
qed simp

end
