(* ===== verification/Kc_Token.thy ===== *)
theory Kc_Token
  imports Go_Escape Go_Http Go_Threads
begin

text \<open>
  \<^verbatim>\<open>internal/keycloak/token.go\<close>: the configuration, the endpoint URLs and the token source. The
  state holds the cached token with its expiry, the clock and the state of the Keycloak server,
  which is a parameter. It is shared by the goroutines of all requests. An HTTP call is two steps,
  sending the request and having the result, and others run in between. The token source
  holds its mutex over such a call; the model lets others interfere there too, so it has every
  execution of the program and more.
\<close>

record kc_Config =
  kc_BaseURL :: string
  kc_Realm :: string
  kc_ClientID :: string
  kc_ClientSecret :: string
  kc_Timeout :: duration

definition tokenURL :: "kc_Config \<Rightarrow> string" where
  "tokenURL cfg =
     TrimSuffix (kc_BaseURL cfg) ''/'' @ ''/realms/'' @ PathEscape (kc_Realm cfg) @
     ''/protocol/openid-connect/token''"

definition adminURL :: "kc_Config \<Rightarrow> string \<Rightarrow> string" where
  "adminURL cfg path =
     TrimSuffix (kc_BaseURL cfg) ''/'' @ ''/admin/realms/'' @ PathEscape (kc_Realm cfg) @ path"

definition refreshSkew :: duration where
  "refreshSkew = 30 * Second"

text \<open>The zero value of the expiry is the zero time.\<close>

record 'h tokenSource =
  ts_clock :: clock
  ts_http :: 'h
  ts_token :: string
  ts_expiresAt :: time

type_synonym ('h, 'z, 'r) ts_act = "(('h, 'z) tokenSource_scheme thread, 'r) state"

definition kc_now :: "('h, 'z, time) ts_act" where
  "kc_now = atomic (\<lambda>s. case Now (ts_clock s) of (t, c) \<Rightarrow> (t, s\<lparr>ts_clock := c\<rparr>))"

definition kc_http ::
  "'h http_env \<Rightarrow> duration \<Rightarrow> go_context \<Rightarrow> http_request \<Rightarrow> ('h, 'z, http_response result) ts_act" where
  "kc_http env timeout ctx req =
     do {
       sent \<leftarrow> atomic (\<lambda>s.
         case http_exchange (he_server env) timeout ctx req (clk_now (ts_clock s)) (ts_http s) of
           (r, t, h) \<Rightarrow> ((r, t), s\<lparr>ts_http := h\<rparr>));
       case sent of (r, t) \<Rightarrow> do {
         change (\<lambda>s. s\<lparr>ts_clock := advance_to t (ts_clock s)\<rparr>);
         pure r
       }
     }"

definition set_token :: "string \<Rightarrow> time \<Rightarrow> ('h, 'z, unit) ts_act" where
  "set_token tok expires =
     change (\<lambda>s. s\<lparr>ts_token := tok, ts_expiresAt := expires\<rparr>)"

definition dec_token :: "json \<Rightarrow> (string \<times> int) result" where
  "dec_token j =
     (case str_field ''access_token'' j of
        Inl e \<Rightarrow> Inl e
      | Inr tok \<Rightarrow>
          (case dec_field set_int64 ''expires_in'' 0 j of Inl e \<Rightarrow> Inl e | Inr n \<Rightarrow> Inr (tok, n)))"

definition token_request :: "kc_Config \<Rightarrow> http_request" where
  "token_request cfg =
     \<lparr>hr_verb = ''POST'', hr_url = tokenURL cfg, hr_auth = '''',
      hr_ctype = ''application/x-www-form-urlencoded'',
      hr_body = FormBody [(''client_id'', kc_ClientID cfg), (''client_secret'', kc_ClientSecret cfg),
        (''grant_type'', ''client_credentials'')]\<rparr>"

text \<open>
  How long a fetched token is used; \<^verbatim>\<open>time.Duration(n) * time.Second\<close> is computed in 64 bits.
\<close>

definition token_lifetime :: "int \<Rightarrow> duration" where
  "token_lifetime n =
     (let lifetime = wrap64 (n * Second) in
      if lifetime > refreshSkew then lifetime - refreshSkew else lifetime)"

definition fetch_token :: "'h http_env \<Rightarrow> kc_Config \<Rightarrow> go_context \<Rightarrow> ('h, 'z, string result) ts_act" where
  "fetch_token env cfg ctx =
     (if \<not> he_url_ok env (tokenURL cfg) then pure (Inl (Errorf ''keycloak: build token request''))
      else do {
        r \<leftarrow> kc_http env (kc_Timeout cfg) ctx (token_request cfg);
        case r of
          Inl e \<Rightarrow> pure (Inl (Errorf ''keycloak: token request failed''))
        | Inr resp \<Rightarrow>
            if resp_status resp \<noteq> 200
            then pure
              (Inl (Errorf (''keycloak: token endpoint returned '' @ itoa (resp_status resp))))
            else
              (case (case resp_readErr resp of
                       Some e \<Rightarrow> Inl e
                     | None \<Rightarrow> unmarshal dec_token (resp_body resp)) of
                 Inl e \<Rightarrow> pure (Inl (Wrapf ''keycloak: decode token response: '' e ''''))
               | Inr (tok, n) \<Rightarrow>
                   if tok = ''''
                   then pure (Inl (Errorf ''keycloak: token response had no access_token''))
                   else do {
                     now \<leftarrow> kc_now;
                     set_token tok (now + token_lifetime n);
                     pure (Inr tok)
                   })
      })"

definition Token :: "'h http_env \<Rightarrow> kc_Config \<Rightarrow> go_context \<Rightarrow> ('h, 'z, string result) ts_act" where
  "Token env cfg ctx = do {
     held \<leftarrow> peek (\<lambda>s. (ts_token s, ts_expiresAt s));
     case held of (tok, expires) \<Rightarrow>
       if tok \<noteq> '''' then do {
         now \<leftarrow> kc_now;
         if now < expires then pure (Inr tok) else fetch_token env cfg ctx
       } else fetch_token env cfg ctx
   }"

definition Invalidate :: "('h, 'z, unit) ts_act" where
  "Invalidate = change (\<lambda>s. s\<lparr>ts_token := ''''\<rparr>)"

end
