(* ===== verification/Kc_Cache.thy ===== *)
theory Kc_Cache
  imports Go_Time
begin

text \<open>
  The cache of \<^verbatim>\<open>internal/keycloak/cache.go\<close>: entries with the instant at which they were stored,
  served while they are younger than the time to live, or than the longer grace period when the
  caller asks for stale entries. The clock is read only when there is an entry. A method holds the
  lock only while it touches the map: \<^verbatim>\<open>Put\<close> is one step, and a read looks at the clock after
  it has let the lock go, so its callers make two steps of it, one for the entry and one for its age.
\<close>

record 'v entry =
  ent_value :: 'v
  ent_storedAt :: time

record 'v cache =
  entries :: "string \<Rightarrow> 'v entry option"
  ttl :: duration
  staleFor :: duration

definition newCache :: "duration \<Rightarrow> duration \<Rightarrow> 'v cache" where
  "newCache ttl' staleFor' = \<lparr>entries = Map.empty, ttl = ttl', staleFor = staleFor'\<rparr>"

definition cache_get :: "'v cache \<Rightarrow> string \<Rightarrow> duration \<Rightarrow> clock \<Rightarrow> 'v option \<times> clock" where
  "cache_get c key maxAge clk =
     (case entries c key of
        None \<Rightarrow> (None, clk)
      | Some e \<Rightarrow>
          (case Now clk of (now, clk1) \<Rightarrow>
            if time_Sub now (ent_storedAt e) > maxAge then (None, clk1) else (Some (ent_value e), clk1)))"

definition cache_Get :: "'v cache \<Rightarrow> string \<Rightarrow> clock \<Rightarrow> 'v option \<times> clock" where
  "cache_Get c key clk = cache_get c key (ttl c) clk"

definition cache_GetStale :: "'v cache \<Rightarrow> string \<Rightarrow> clock \<Rightarrow> 'v option \<times> clock" where
  "cache_GetStale c key clk = cache_get c key (wrap64 (ttl c + staleFor c)) clk"

definition cache_Put :: "'v cache \<Rightarrow> string \<Rightarrow> 'v \<Rightarrow> clock \<Rightarrow> 'v cache \<times> clock" where
  "cache_Put c key v clk =
     (case Now clk of (now, clk1) \<Rightarrow>
       (c\<lparr>entries := (entries c)(key \<mapsto> \<lparr>ent_value = v, ent_storedAt = now\<rparr>)\<rparr>, clk1))"

section \<open>The contract of a cache with a maximal age\<close>

text \<open>
  What the clients of a cache rely on: a hit is an entry stored under the key no longer ago
  than the window, an entry within the window is a hit, storing replaces one entry, and reading
  does not turn back the clock. \<open>holds\<close> is the content, \<open>window\<close> the maximal age.
\<close>

locale timed_cache =
  fixes look :: "'c \<Rightarrow> string \<Rightarrow> clock \<Rightarrow> 'v option \<times> clock"
    and keep :: "'c \<Rightarrow> string \<Rightarrow> 'v \<Rightarrow> clock \<Rightarrow> 'c \<times> clock"
    and holds :: "'c \<Rightarrow> string \<Rightarrow> ('v \<times> time) option"
    and window :: "'c \<Rightarrow> duration"
    and good :: "'c \<Rightarrow> bool"
  assumes hit_iff: "good c \<Longrightarrow> fst (look c key clk) = Some v \<longleftrightarrow>
      (\<exists>t. holds c key = Some (v, t) \<and> clk_now clk - t \<le> window c)"
    and keep_holds: "holds (fst (keep c key v clk)) = (holds c)(key \<mapsto> (v, clk_now clk))"
    and keep_good: "good c \<Longrightarrow> good (fst (keep c key v clk)) \<and> window (fst (keep c key v clk)) = window c"
    and look_mono: "clk_now clk \<le> clk_now (snd (look c key clk))"
    and keep_mono: "clk_now clk \<le> clk_now (snd (keep c key v clk))"
begin

lemma hit_after_keep:
  assumes "good c" and "clk_now clk' - clk_now clk \<le> window c"
  shows "fst (look (fst (keep c key v clk)) key clk') = Some v"
  using assms keep_good [OF assms(1)] hit_iff [of "fst (keep c key v clk)" key clk' v]
  by (simp add: keep_holds)

lemma miss_after_window:
  assumes "good c" and "clk_now clk' - clk_now clk > window c"
  shows "fst (look (fst (keep c key v clk)) key clk') = None"
proof (rule ccontr)
  assume "fst (look (fst (keep c key v clk)) key clk') \<noteq> None"
  then obtain u where "fst (look (fst (keep c key v clk)) key clk') = Some u" by blast
  then show False
    using assms keep_good [OF assms(1)] hit_iff [of "fst (keep c key v clk)" key clk' u]
    by (simp add: keep_holds)
qed

lemma keep_other:
  assumes "good c" and "key' \<noteq> key"
  shows "fst (look (fst (keep c key v clk)) key' clk') = fst (look c key' clk')"
proof -
  let ?c' = "fst (keep c key v clk)"
  have "fst (look ?c' key' clk') = Some u \<longleftrightarrow> fst (look c key' clk') = Some u" for u
    using assms keep_good [OF assms(1)] hit_iff [of ?c'] hit_iff [of c] by (simp add: keep_holds)
  then show ?thesis by (cases "fst (look c key' clk')") (auto intro: option.expand dest: sym)
qed

end

definition cache_holds :: "'v cache \<Rightarrow> string \<Rightarrow> ('v \<times> time) option" where
  "cache_holds c key = map_option (\<lambda>e. (ent_value e, ent_storedAt e)) (entries c key)"

definition stale_window :: "'v cache \<Rightarrow> duration" where
  "stale_window c = ttl c + staleFor c"

text \<open>The windows of the program are far from the saturation bounds of \<^verbatim>\<open>Time.Sub\<close>.\<close>

definition cache_good :: "'v cache \<Rightarrow> bool" where
  "cache_good c \<longleftrightarrow> 0 \<le> ttl c \<and> 0 \<le> staleFor c \<and> ttl c + staleFor c < 2 ^ 63 - 1"

lemma cache_get_hit:
  assumes "0 \<le> maxAge" and "maxAge < 2 ^ 63 - 1"
  shows "fst (cache_get c key maxAge clk) = Some v \<longleftrightarrow>
    (\<exists>t. cache_holds c key = Some (v, t) \<and> clk_now clk - t \<le> maxAge)"
  using time_Sub_le_small [OF assms]
  by (auto simp: cache_get_def cache_holds_def Now_def not_less [symmetric] split: option.splits)

lemma cache_get_mono: "clk_now clk \<le> clk_now (snd (cache_get c key maxAge clk))"
  by (simp add: cache_get_def Now_def split: option.splits)

lemma cache_Put_laws:
  "cache_holds (fst (cache_Put c key v clk)) = (cache_holds c)(key \<mapsto> (v, clk_now clk))"
  "ttl (fst (cache_Put c key v clk)) = ttl c" "staleFor (fst (cache_Put c key v clk)) = staleFor c"
  "clk_now clk \<le> clk_now (snd (cache_Put c key v clk))"
  by (auto simp: cache_Put_def Now_def cache_holds_def fun_eq_iff)

interpretation fresh_cache: timed_cache cache_Get cache_Put cache_holds ttl cache_good
  by unfold_locales
    (simp_all add: cache_Get_def cache_get_hit cache_good_def cache_get_mono cache_Put_laws)

interpretation stale_cache: timed_cache cache_GetStale cache_Put cache_holds stale_window cache_good
  by unfold_locales
    (simp_all add: cache_GetStale_def cache_get_hit cache_good_def stale_window_def wrap64_id
      cache_get_mono cache_Put_laws)

lemma newCache_good: "0 \<le> t \<Longrightarrow> 0 \<le> s \<Longrightarrow> t + s < 2 ^ 63 - 1 \<Longrightarrow> cache_good (newCache t s)"
  by (simp add: newCache_def cache_good_def)

end
