(* ===== verification/Kc_Client.thy ===== *)
theory Kc_Client
  imports Kc_Token Kc_Cache
begin

text \<open>
  \<^verbatim>\<open>internal/keycloak/client.go\<close>: the client of the Keycloak Admin API. Its state extends the token
  source by the resolved client UUID, the two caches and the log. The Keycloak server is the
  parameter \<open>env\<close>; it may answer anything, and may fail or hang.
\<close>

definition ErrNoSubject :: go_error where
  "ErrNoSubject = Sentinel ''keycloak: repository has no subject''"

definition decisionTTL :: duration where "decisionTTL = 30 * Second"
definition userIDTTL :: duration where "userIDTTL = 10 * Minute"
definition refsTTL :: duration where "refsTTL = decisionTTL"

record 'h Client = "'h tokenSource" +
  cl_uuid :: string
  cl_userIDs :: "string cache"
  cl_refs :: "string list cache"
  cl_log :: log

type_synonym ('h, 'z, 'r) cl_act = "(('h, 'z) Client_scheme thread, 'r) state"

text \<open>The configuration as \<^verbatim>\<open>NewClient\<close> completes it, and the state it starts with\<close>

definition client_config :: "kc_Config \<Rightarrow> kc_Config" where
  "client_config cfg = (if kc_Timeout cfg = 0 then cfg\<lparr>kc_Timeout := 3 * Second\<rparr> else cfg)"

definition NewClient :: "clock \<Rightarrow> 'h \<Rightarrow> 'h Client" where
  "NewClient clk h =
     \<lparr>ts_clock = clk, ts_http = h, ts_token = '''', ts_expiresAt = time_zero,
      cl_uuid = '''', cl_userIDs = newCache userIDTTL 0, cl_refs = newCache refsTTL 0, cl_log = []\<rparr>"

section \<open>Elementary actions\<close>

text \<open>
  Reading a cache is two steps: the entry is taken from the map under the read lock, and then judged
  by the clock, after other goroutines may have run.
\<close>

definition kc_aged ::
  "('v cache \<Rightarrow> string \<Rightarrow> clock \<Rightarrow> 'v option \<times> clock) \<Rightarrow> 'v cache \<Rightarrow> string \<Rightarrow> ('h, 'z, 'v option) ts_act" where
  "kc_aged get c key = atomic (\<lambda>s. case get c key (ts_clock s) of (v, clk) \<Rightarrow> (v, s\<lparr>ts_clock := clk\<rparr>))"

definition userIDs_Get :: "string \<Rightarrow> ('h, 'z, string option) cl_act" where
  "userIDs_Get key = do { c \<leftarrow> peek cl_userIDs; kc_aged cache_Get c key }"

definition userIDs_Put :: "string \<Rightarrow> string \<Rightarrow> ('h, 'z, unit) cl_act" where
  "userIDs_Put key v = atomic (\<lambda>s. case cache_Put (cl_userIDs s) key v (ts_clock s) of
     (ca, c) \<Rightarrow> ((), s\<lparr>ts_clock := c, cl_userIDs := ca\<rparr>))"

definition refs_Get :: "string \<Rightarrow> ('h, 'z, string list option) cl_act" where
  "refs_Get key = do { c \<leftarrow> peek cl_refs; kc_aged cache_Get c key }"

definition refs_Put :: "string \<Rightarrow> string list \<Rightarrow> ('h, 'z, unit) cl_act" where
  "refs_Put key v = atomic (\<lambda>s. case cache_Put (cl_refs s) key v (ts_clock s) of
     (ca, c) \<Rightarrow> ((), s\<lparr>ts_clock := c, cl_refs := ca\<rparr>))"

definition cl_warn :: "string \<Rightarrow> ('h, 'z, unit) cl_act" where
  "cl_warn msg = change (\<lambda>s. s\<lparr>cl_log := cl_log s @ [(LWarn, msg)]\<rparr>)"

definition set_uuid :: "string \<Rightarrow> ('h, 'z, unit) cl_act" where
  "set_uuid u = change (\<lambda>s. s\<lparr>cl_uuid := u\<rparr>)"

section \<open>Authenticated requests\<close>

definition admin_request :: "string \<Rightarrow> string \<Rightarrow> string \<Rightarrow> json option \<Rightarrow> http_request" where
  "admin_request tok verb url body =
     \<lparr>hr_verb = verb, hr_url = url, hr_auth = ''Bearer '' @ tok,
      hr_ctype = (if body = None then '''' else ''application/json''),
      hr_body = (case body of None \<Rightarrow> NoBody | Some j \<Rightarrow> JsonBody j)\<rparr>"

text \<open>The exchange has read the body to its end or to the error that cut it short.\<close>

definition readAllClose :: "http_response \<Rightarrow> json option \<times> go_error option" where
  "readAllClose resp = (resp_body resp, resp_readErr resp)"

text \<open>
  The loop of \<^verbatim>\<open>do\<close> with \<open>n\<close> attempts left; the first equation is its last statement. \<open>lastErr\<close> is
  nil only before the first attempt, which always ends with a return or with \<open>lastErr\<close> set.
\<close>

fun do_loop ::
  "'h http_env \<Rightarrow> kc_Config \<Rightarrow> go_context \<Rightarrow> string \<Rightarrow> string \<Rightarrow> json option \<Rightarrow> nat \<Rightarrow> go_error \<Rightarrow>
     ('h, 'z, json option result) cl_act" where
  "do_loop env cfg ctx verb url body 0 lastErr = pure (Inl lastErr)"
| "do_loop env cfg ctx verb url body (Suc n) lastErr = do {
     t \<leftarrow> Token env cfg ctx;
     case t of
       Inl e \<Rightarrow> do_loop env cfg ctx verb url body n e
     | Inr tok \<Rightarrow>
         if \<not> he_url_ok env url
         then pure (Inl (Wrapf ''keycloak: build request: '' (Errorf ''invalid URL'') ''''))
         else do {
           r \<leftarrow> kc_http env (kc_Timeout cfg) ctx (admin_request tok verb url body);
           case r of
             Inl e \<Rightarrow> do_loop env cfg ctx verb url body n
               (Wrapf (''keycloak: '' @ verb @ '' request failed: '') e '''')
           | Inr resp \<Rightarrow>
             (case readAllClose resp of (out, readErr) \<Rightarrow>
               if resp_status resp = 401 then do {
                 Invalidate;
                 do_loop env cfg ctx verb url body n (Errorf ''keycloak: unauthorized'')
               }
               else if resp_status resp \<ge> 500 then
                 do_loop env cfg ctx verb url body n
                   (Errorf (''keycloak: returned '' @ itoa (resp_status resp)))
               else if resp_status resp \<ge> 400 then
                 pure (Inl (Errorf (''keycloak: returned '' @ itoa (resp_status resp))))
               else
                 (case readErr of
                    Some e \<Rightarrow> pure (Inl (Wrapf ''keycloak: read response: '' e ''''))
                  | None \<Rightarrow> pure (Inr out)))
         }
   }"

definition kc_do ::
  "'h http_env \<Rightarrow> kc_Config \<Rightarrow> go_context \<Rightarrow> string \<Rightarrow> string \<Rightarrow> json option \<Rightarrow>
     ('h, 'z, json option result) cl_act" where
  "kc_do env cfg ctx verb url body = do_loop env cfg ctx verb url body 2 (Errorf '''')"

section \<open>Resolving identifiers\<close>

text \<open>The elements of the two list endpoints: an id and a name\<close>

definition dec_named :: "string \<Rightarrow> json \<Rightarrow> (string \<times> string) result" where
  "dec_named field j =
     (case str_field ''id'' j of
        Inl e \<Rightarrow> Inl e
      | Inr i \<Rightarrow> (case str_field field j of Inl e \<Rightarrow> Inl e | Inr n \<Rightarrow> Inr (i, n)))"

fun find_client :: "string \<Rightarrow> (string \<times> string) list \<Rightarrow> string option" where
  "find_client clientID [] = None"
| "find_client clientID ((i, n) # cs) =
     (if n = clientID \<and> i \<noteq> '''' then Some i else find_client clientID cs)"

definition ResourceServerUUID ::
  "'h http_env \<Rightarrow> kc_Config \<Rightarrow> go_context \<Rightarrow> ('h, 'z, string result) cl_act" where
  "ResourceServerUUID env cfg ctx = do {
     uuid \<leftarrow> peek cl_uuid;
     if uuid \<noteq> '''' then pure (Inr uuid)
     else do {
       raw \<leftarrow> kc_do env cfg ctx ''GET''
         (adminURL cfg (''/clients?clientId='' @ QueryEscape (kc_ClientID cfg))) None;
       case raw of
         Inl e \<Rightarrow> pure (Inl e)
       | Inr b \<Rightarrow>
           (case unmarshal (dec_slice (dec_named ''clientId'')) b of
              Inl e \<Rightarrow> pure (Inl (Wrapf ''keycloak: decode clients: '' e ''''))
            | Inr clients \<Rightarrow>
                (case find_client (kc_ClientID cfg) clients of
                   Some i \<Rightarrow> do { set_uuid i; pure (Inr i) }
                 | None \<Rightarrow> pure (Inl (Errorf (''keycloak: client '' @ Quote (kc_ClientID cfg) @
                     '' not found in '' @ itoa (int (length clients)) @ '' results'')))))
     }
   }"

text \<open>
  \<^verbatim>\<open>strings.EqualFold\<close>, exact when one of the strings is ASCII, as repository names are: besides
  the ASCII letters only the Kelvin sign and the long s fold to ASCII.
\<close>

definition EqualFold :: "string \<Rightarrow> string \<Rightarrow> bool" where
  "EqualFold s t \<longleftrightarrow> fold_name s = fold_name t"

fun find_user :: "string \<Rightarrow> (string \<times> string) list \<Rightarrow> string option" where
  "find_user username [] = None"
| "find_user username ((i, n) # us) =
     (if i \<noteq> '''' \<and> EqualFold n username then Some i else find_user username us)"

definition users_url :: "kc_Config \<Rightarrow> string \<Rightarrow> string" where
  "users_url cfg username = adminURL cfg (''/users?exact=true&username='' @ QueryEscape username)"

definition UserID ::
  "'h http_env \<Rightarrow> kc_Config \<Rightarrow> go_context \<Rightarrow> string \<Rightarrow> ('h, 'z, string result) cl_act" where
  "UserID env cfg ctx username = do {
     cached \<leftarrow> userIDs_Get username;
     case cached of
       Some i \<Rightarrow> pure (Inr i)
     | None \<Rightarrow> do {
         raw \<leftarrow> kc_do env cfg ctx ''GET'' (users_url cfg username) None;
         case raw of
           Inl e \<Rightarrow> pure (Inl e)
         | Inr b \<Rightarrow>
             (case unmarshal (dec_slice (dec_named ''username'')) b of
                Inl e \<Rightarrow> pure (Inl (Wrapf ''keycloak: decode users: '' e ''''))
              | Inr users \<Rightarrow>
                  (case find_user username users of
                     Some i \<Rightarrow> do { userIDs_Put username i; pure (Inr i) }
                   | None \<Rightarrow> pure (Inl (Wrapf '''' ErrNoSubject ('': '' @ username)))))
       }
   }"

section \<open>Evaluation\<close>

definition eval_body :: "string \<Rightarrow> string \<Rightarrow> string \<Rightarrow> json" where
  "eval_body userID resource scope =
     JObj [(''resources'', JArr [JObj [(''name'', JStr resource),
              (''scopes'', JArr [JObj [(''name'', JStr scope)]])]]),
           (''userId'', JStr userID), (''entitlements'', JBool False),
           (''context'', JObj [(''attributes'', JObj [])])]"

definition Evaluate ::
  "'h http_env \<Rightarrow> kc_Config \<Rightarrow> go_context \<Rightarrow> string \<Rightarrow> string \<Rightarrow> string \<Rightarrow> ('h, 'z, bool result) cl_act" where
  "Evaluate env cfg ctx userID resource scope = do {
     u \<leftarrow> ResourceServerUUID env cfg ctx;
     case u of
       Inl e \<Rightarrow> pure (Inl e)
     | Inr uuid \<Rightarrow> do {
         raw \<leftarrow> kc_do env cfg ctx ''POST''
           (adminURL cfg (''/clients/'' @ PathEscape uuid @ ''/authz/resource-server/policy/evaluate''))
           (Some (eval_body userID resource scope));
         case raw of
           Inl e \<Rightarrow> pure (Inl e)
         | Inr b \<Rightarrow>
             (case unmarshal (str_field ''status'') b of
                Inl e \<Rightarrow> pure (Inl (Wrapf ''keycloak: decode evaluate response: '' e ''''))
              | Inr status \<Rightarrow>
                  if status = ''PERMIT'' then pure (Inr True)
                  else if status = ''DENY'' then pure (Inr False)
                  else pure (Inl (Errorf (''keycloak: unexpected evaluate status '' @ Quote status))))
       }
   }"

section \<open>Ref constraints\<close>

record resourceRepresentation =
  Res_Name :: string
  Res_Attributes :: "string \<Rightarrow> string list option"

definition dec_resource :: "json \<Rightarrow> resourceRepresentation result" where
  "dec_resource j =
     (case str_field ''name'' j of
        Inl e \<Rightarrow> Inl e
      | Inr n \<Rightarrow>
          (case dec_field set_str_map ''attributes'' Map.empty j of
             Inl e \<Rightarrow> Inl e
           | Inr a \<Rightarrow> Inr \<lparr>Res_Name = n, Res_Attributes = a\<rparr>))"

fun find_resource :: "string \<Rightarrow> resourceRepresentation list \<Rightarrow> resourceRepresentation option" where
  "find_resource resource [] = None"
| "find_resource resource (r # rs) = (if Res_Name r = resource then Some r else find_resource resource rs)"

definition refs_of :: "resourceRepresentation \<Rightarrow> string \<Rightarrow> string list" where
  "refs_of r action =
     (case Res_Attributes r (''allowed_refs.'' @ action) of
        Some v \<Rightarrow> v
      | None \<Rightarrow> (case Res_Attributes r ''allowed_refs'' of Some v \<Rightarrow> v | None \<Rightarrow> []))"

definition refs_key :: "string \<Rightarrow> string \<Rightarrow> string" where
  "refs_key resource action = resource @ [CHR 0x00] @ action"

definition resource_url :: "kc_Config \<Rightarrow> string \<Rightarrow> string \<Rightarrow> string" where
  "resource_url cfg uuid resource =
     adminURL cfg (''/clients/'' @ PathEscape uuid @
       ''/authz/resource-server/resource?exactName=true&name='' @ QueryEscape resource)"

definition AllowedRefs ::
  "'h http_env \<Rightarrow> kc_Config \<Rightarrow> go_context \<Rightarrow> string \<Rightarrow> string \<Rightarrow> ('h, 'z, string list result) cl_act" where
  "AllowedRefs env cfg ctx resource action = do {
     cached \<leftarrow> refs_Get (refs_key resource action);
     case cached of
       Some v \<Rightarrow> pure (Inr v)
     | None \<Rightarrow> do {
         u \<leftarrow> ResourceServerUUID env cfg ctx;
         case u of
           Inl e \<Rightarrow> pure (Inl e)
         | Inr uuid \<Rightarrow> do {
             raw \<leftarrow> kc_do env cfg ctx ''GET'' (resource_url cfg uuid resource) None;
             case raw of
               Inl e \<Rightarrow> pure (Inl e)
             | Inr b \<Rightarrow>
                 (case unmarshal (dec_slice dec_resource) b of
                    Inl e \<Rightarrow> pure (Inl (Wrapf ''keycloak: decode resources: '' e ''''))
                  | Inr resources \<Rightarrow>
                      (case find_resource resource resources of
                         Some r \<Rightarrow> do {
                           refs_Put (refs_key resource action) (refs_of r action);
                           pure (Inr (refs_of r action))
                         }
                       | None \<Rightarrow> do {
                           cl_warn ''keycloak resource not found; ref constraints cannot be applied'';
                           refs_Put (refs_key resource action) [];
                           pure (Inr [])
                         }))
           }
       }
   }"

end
