(* ===== verification/Kc_Authorizer.thy ===== *)
theory Kc_Authorizer
  imports Kc_Client Authz
begin

text \<open>
  \<^verbatim>\<open>internal/keycloak/authorizer.go\<close>: decisions from Keycloak with the ref check of the gateway, and
  the cache of permits. The state extends the client's by that cache; the requests share it.
\<close>

definition decisionStaleFor :: duration where "decisionStaleFor = 5 * Minute"

record 'h Authorizer = "'h Client" +
  au_decisions :: "bool cache"

type_synonym ('h, 'r) au_act = "('h Authorizer thread, 'r) state"

definition NewAuthorizer :: "clock \<Rightarrow> 'h \<Rightarrow> 'h Authorizer" where
  "NewAuthorizer clk h =
     \<lparr>ts_clock = clk, ts_http = h, ts_token = '''', ts_expiresAt = time_zero,
      cl_uuid = '''', cl_userIDs = newCache userIDTTL 0, cl_refs = newCache refsTTL 0, cl_log = [],
      au_decisions = newCache decisionTTL decisionStaleFor\<rparr>"

definition decisionKey :: "Request \<Rightarrow> string" where
  "decisionKey req =
     Req_Repository req @ [CHR 0x00] @ Req_Action req @ [CHR 0x00] @ Req_Namespace req @ [CHR 0x00] @
     Req_Deployment req @ [CHR 0x00] @ Req_Ref req"

definition resourceName :: "Request \<Rightarrow> string" where
  "resourceName req = Req_Namespace req @ ''/'' @ Req_Deployment req"

definition grantDenied :: "Request \<Rightarrow> Decision" where
  "grantDenied req =
     \<lparr>Allowed = False, Reason = ''keycloak does not grant '' @ Req_Action req @ '' on '' @ resourceName req\<rparr>"

definition refDenied :: "Request \<Rightarrow> Decision" where
  "refDenied req =
     \<lparr>Allowed = False,
      Reason = ''ref '' @ Req_Ref req @ '' is not permitted to '' @ Req_Action req @ '' on '' @ resourceName req\<rparr>"

definition decisions_Get :: "string \<Rightarrow> ('h, bool option) au_act" where
  "decisions_Get key = do { c \<leftarrow> peek au_decisions; kc_aged cache_Get c key }"

definition decisions_GetStale :: "string \<Rightarrow> ('h, bool option) au_act" where
  "decisions_GetStale key = do { c \<leftarrow> peek au_decisions; kc_aged cache_GetStale c key }"

definition decisions_Put :: "string \<Rightarrow> bool \<Rightarrow> ('h, unit) au_act" where
  "decisions_Put key v = atomic (\<lambda>s. case cache_Put (au_decisions s) key v (ts_clock s) of
     (ca, c) \<Rightarrow> ((), s\<lparr>ts_clock := c, au_decisions := ca\<rparr>))"

definition evaluate ::
  "'h http_env \<Rightarrow> kc_Config \<Rightarrow> go_context \<Rightarrow> Request \<Rightarrow> ('h, Decision result) au_act" where
  "evaluate env cfg ctx req = do {
     u \<leftarrow> UserID env cfg ctx (Req_Repository req);
     case u of
       Inl e \<Rightarrow> if errors_Is e ErrNoSubject then pure (Inr (grantDenied req)) else pure (Inl e)
     | Inr userID \<Rightarrow> do {
         g \<leftarrow> Evaluate env cfg ctx userID (resourceName req) (Req_Action req);
         case g of
           Inl e \<Rightarrow> pure (Inl e)
         | Inr granted \<Rightarrow>
             if \<not> granted then pure (Inr (grantDenied req))
             else do {
               ar \<leftarrow> AllowedRefs env cfg ctx (resourceName req) (Req_Action req);
               case ar of
                 Inl e \<Rightarrow> pure (Inl e)
               | Inr allowedRefs \<Rightarrow>
                   (case MatchRef allowedRefs (Req_Ref req) of
                      Inl e \<Rightarrow> do {
                        cl_warn ''malformed ref constraint, denying'';
                        pure (Inr (refDenied req))
                      }
                    | Inr matched \<Rightarrow>
                        if \<not> matched then pure (Inr (refDenied req)) else pure (Inr Permit))
             }
       }
   }"

definition stale_warning :: string where
  "stale_warning = ''serving stale authorization decision''"

definition kc_Authorize ::
  "'h http_env \<Rightarrow> kc_Config \<Rightarrow> go_context \<Rightarrow> Request \<Rightarrow> ('h, Decision result) au_act" where
  "kc_Authorize env cfg ctx req = do {
     hit \<leftarrow> decisions_Get (decisionKey req);
     if hit = Some True then pure (Inr Permit)
     else do {
       r \<leftarrow> evaluate env cfg ctx req;
       case r of
         Inl e \<Rightarrow> do {
           stale \<leftarrow> decisions_GetStale (decisionKey req);
           if stale = Some True then do {
             cl_warn stale_warning;
             pure (Inr Permit)
           } else pure (Inl e)
         }
       | Inr decision \<Rightarrow>
           if Allowed decision then do {
             decisions_Put (decisionKey req) True;
             pure (Inr decision)
           } else pure (Inr decision)
     }
   }"

definition kc_Ready ::
  "'h http_env \<Rightarrow> kc_Config \<Rightarrow> go_context \<Rightarrow> ('h, go_error option) au_act" where
  "kc_Ready env cfg ctx = do {
     r \<leftarrow> ResourceServerUUID env cfg ctx;
     pure (case r of Inl e \<Rightarrow> Some e | Inr _ \<Rightarrow> None)
   }"

text \<open>
  As an implementation of the \<^verbatim>\<open>Authorizer\<close> and \<^verbatim>\<open>ReadinessChecker\<close> interfaces: the process hands
  its clock in and takes it back; no other request comes between.
\<close>

definition on_clock :: "('h, 'r) au_act \<Rightarrow> clock \<times> 'h Authorizer \<Rightarrow> 'r \<times> (clock \<times> 'h Authorizer)" where
  "on_clock a st =
     (case st of (c, s) \<Rightarrow> (case solo a (s\<lparr>ts_clock := c\<rparr>) of (r, s1) \<Rightarrow> (r, (ts_clock s1, s1))))"

definition kc_authorizer :: "'h http_env \<Rightarrow> kc_Config \<Rightarrow> 'h Authorizer authorizer" where
  "kc_authorizer env cfg =
     \<lparr>Authorize = (\<lambda>ctx req. on_clock (kc_Authorize env cfg ctx req)),
      Ready = Some (\<lambda>ctx. on_clock (kc_Ready env cfg ctx))\<rparr>"

section \<open>The contract of the interface\<close>

lemma evaluate_decision:
  "keeps (\<lambda>_. True) (evaluate env cfg ctx req)
     (\<lambda>r. \<forall>d. r = Inr d \<longrightarrow> (Allowed d \<longleftrightarrow> Reason d = ''''))"
proof -
  have top: "keeps (\<lambda>_. True) a any" for a :: "('h, 'r) au_act" by (simp add: keeps_def)
  show ?thesis
    unfolding evaluate_def
    by (auto intro!: keeps_bind [OF top] keeps_sum keeps_if keeps_pure
        simp: grantDenied_def refDenied_def resourceName_def)
qed

lemma kc_Authorize_decision:
  assumes "run_state (kc_Authorize env cfg ctx req) s = (Inr d, s')"
  shows "Allowed d \<longleftrightarrow> Reason d = ''''"
proof -
  have top: "keeps (\<lambda>_. True) a any" for a :: "('h, 'r) au_act" by (simp add: keeps_def)
  have "keeps (\<lambda>_. True) (kc_Authorize env cfg ctx req)
      (\<lambda>r. \<forall>d. r = Inr d \<longrightarrow> (Allowed d \<longleftrightarrow> Reason d = ''''))"
    unfolding kc_Authorize_def
    by (auto intro!: keeps_bind [OF top] keeps_bind [OF evaluate_decision] keeps_sum keeps_if keeps_pure)
  from keepsD [OF this _ assms] show ?thesis by simp
qed

interpretation keycloak_authorizer: authorizer_contract "kc_authorizer env cfg" for env cfg
proof
  fix ctx req s d s'
  assume "Authorize (kc_authorizer env cfg) ctx req s = (Inr d, s')"
  then obtain u v where "run_state (kc_Authorize env cfg ctx req) u = (Inr d, v)"
    by (auto simp: kc_authorizer_def on_clock_def solo_def split: prod.splits)
  from kc_Authorize_decision [OF this]
  show "\<not> Allowed d \<Longrightarrow> Reason d \<noteq> ''''" and "Allowed d \<Longrightarrow> Reason d = ''''" by auto
qed

end
