(* ===== verification/Gateway_Main.thy ===== *)
theory Gateway_Main
  imports Kc_Authorizer
begin

text \<open>
  \<^verbatim>\<open>cmd/gateway/main.go\<close>: the checks of the configuration and the choice of the authorization
  backend. The environment is the parameter \<open>getenv\<close> (an unset variable reads as the empty string),
  reading and parsing the policy file are parameters too.
  How \<^verbatim>\<open>main\<close> puts the process together is in \<open>Gateway_Boot\<close>.
\<close>

definition envOr :: "(string \<Rightarrow> string) \<Rightarrow> string \<Rightarrow> string \<Rightarrow> string" where
  "envOr getenv key def = (if getenv key \<noteq> '''' then getenv key else def)"

definition required_vars :: "kc_Config \<Rightarrow> (string \<times> string) list" where
  "required_vars cfg =
     [(''KEYCLOAK_BASE_URL'', kc_BaseURL cfg), (''KEYCLOAK_REALM'', kc_Realm cfg),
      (''KEYCLOAK_CLIENT_ID'', kc_ClientID cfg), (''KEYCLOAK_CLIENT_SECRET'', kc_ClientSecret cfg)]"

fun missing_vars :: "(string \<times> string) list \<Rightarrow> string list" where
  "missing_vars [] = []"
| "missing_vars ((name, v) # vs) = (if v = '''' then name # missing_vars vs else missing_vars vs)"

definition requireKeycloakConfig :: "string \<Rightarrow> kc_Config \<Rightarrow> go_error option" where
  "requireKeycloakConfig backend cfg =
     (let missing = missing_vars (required_vars cfg) in
      if missing \<noteq> [] then Some (Errorf (''AUTHZ_BACKEND='' @ backend @ '' requires '' @ Join missing '', ''))
      else None)"

definition kcConfig :: "(string \<Rightarrow> string) \<Rightarrow> kc_Config" where
  "kcConfig getenv =
     \<lparr>kc_BaseURL = getenv ''KEYCLOAK_BASE_URL'', kc_Realm = getenv ''KEYCLOAK_REALM'',
      kc_ClientID = getenv ''KEYCLOAK_CLIENT_ID'', kc_ClientSecret = getenv ''KEYCLOAK_CLIENT_SECRET'',
      kc_Timeout = 0\<rparr>"

text \<open>The three kinds of authorizer that can come out, with what they are built from\<close>

datatype backend =
    KeycloakBackend kc_Config
  | ShadowBackend Policy kc_Config
  | FileBackend Policy

definition buildAuthorizer ::
  "(string \<Rightarrow> string) \<Rightarrow> (string \<Rightarrow> string result) \<Rightarrow> (string \<Rightarrow> Policy result) \<Rightarrow> string \<Rightarrow> string \<Rightarrow>
     backend result" where
  "buildAuthorizer getenv readFile parse name policyPath =
     (if name = ''keycloak'' then
        (let cfg = kcConfig getenv in
         case requireKeycloakConfig name cfg of
           Some e \<Rightarrow> Inl e
         | None \<Rightarrow> Inr (KeycloakBackend (client_config cfg)))
      else if name = ''shadow'' then
        (case LoadPolicy readFile parse policyPath of
           Inl e \<Rightarrow> Inl e
         | Inr p \<Rightarrow>
             (let cfg = kcConfig getenv in
              case requireKeycloakConfig name cfg of
                Some e \<Rightarrow> Inl e
              | None \<Rightarrow> Inr (ShadowBackend p (client_config cfg))))
      else if name = ''file'' \<or> name = '''' then
        (case LoadPolicy readFile parse policyPath of Inl e \<Rightarrow> Inl e | Inr p \<Rightarrow> Inr (FileBackend p))
      else Inl (Errorf (''unknown AUTHZ_BACKEND '' @ Quote name @ '' (want file, keycloak or shadow)'')))"

text \<open>The authorizer of a backend, on the state of both kinds beside each other\<close>

type_synonym 'h backend_state = "unit \<times> 'h Authorizer \<times> log"

definition authorizer_of :: "'h http_env \<Rightarrow> backend \<Rightarrow> go_context \<Rightarrow> Request \<Rightarrow>
    clock \<times> 'h backend_state \<Rightarrow> Decision result \<times> (clock \<times> 'h backend_state)" where
  "authorizer_of henv b ctx req st =
     (case st of (c, u, s, lg) \<Rightarrow>
        (case b of
           KeycloakBackend cfg \<Rightarrow>
             (case Authorize (kc_authorizer henv cfg) ctx req (c, s) of (r, c1, s1) \<Rightarrow> (r, c1, u, s1, lg))
         | ShadowBackend p cfg \<Rightarrow>
             Authorize (Shadow (FileAuthorizer p) (kc_authorizer henv cfg)) ctx req (c, u, s, lg)
         | FileBackend p \<Rightarrow>
             (case Authorize (FileAuthorizer p) ctx req (c, u) of (r, c1, u1) \<Rightarrow> (r, c1, u1, s, lg))))"

section \<open>Properties\<close>

definition kc_vars :: "string list" where
  "kc_vars = [''KEYCLOAK_BASE_URL'', ''KEYCLOAK_REALM'', ''KEYCLOAK_CLIENT_ID'', ''KEYCLOAK_CLIENT_SECRET'']"

lemma required_of_env: "required_vars (kcConfig getenv) = map (\<lambda>v. (v, getenv v)) kc_vars"
  by (simp add: required_vars_def kcConfig_def kc_vars_def)

lemma missing_filter: "missing_vars (map (\<lambda>v. (v, f v)) vs) = filter (\<lambda>v. f v = '''') vs"
  by (induction vs) auto

lemma require_of_env:
  "requireKeycloakConfig name (kcConfig getenv) =
     (let missing = filter (\<lambda>v. getenv v = '''') kc_vars in
      if missing \<noteq> [] then Some (Errorf (''AUTHZ_BACKEND='' @ name @ '' requires '' @ Join missing '', ''))
      else None)"
  by (simp add: requireKeycloakConfig_def required_of_env missing_filter)



end
