(* ===== verification/Go_Date.thy ===== *)
theory Go_Date
  imports Go_Time "HOL-Library.Char_ord" "HOL-Library.List_Lexorder"
begin

text \<open>
  Calendar dates and \<^verbatim>\<open>Time.UTC().Format(time.RFC3339Nano)\<close> of the standard library, which the
  program uses for the restart annotation and for every time it hands to DynamoDB. The date of a day
  is computed by cycles of 400, 100, 4 and 1 years, as package \<^verbatim>\<open>time\<close> does. It is shown to be the date of
  the proleptic Gregorian calendar, and the text to tell instants apart and to order them by
  seconds, though not within a second.
\<close>

section \<open>Dates\<close>

record date =
  d_Year :: int
  d_Month :: int
  d_Day :: int

definition isLeap :: "int \<Rightarrow> bool" where
  "isLeap y \<longleftrightarrow> y mod 4 = 0 \<and> (y mod 100 \<noteq> 0 \<or> y mod 400 = 0)"

definition month_lengths :: "bool \<Rightarrow> int list" where
  "month_lengths leap = [31, if leap then 29 else 28, 31, 30, 31, 30, 31, 31, 30, 31, 30, 31]"

fun month_day :: "int list \<Rightarrow> int \<Rightarrow> int \<Rightarrow> int \<times> int" where
  "month_day [] m d = (m, d + 1)"
| "month_day (l # ls) m d = (if d < l then (m, d + 1) else month_day ls (m + 1) (d - l))"

text \<open>A day, counted from 1 January of year 1, as its year and its day of the year.\<close>

definition year_day :: "int \<Rightarrow> int \<times> int" where
  "year_day d =
     (let n400 = d div 146097; d400 = d mod 146097;
          c = d400 div 36524; n100 = c - c div 4; d100 = d400 - 36524 * n100;
          n4 = d100 div 1461; d4 = d100 mod 1461;
          a = d4 div 365; n1 = a - a div 4
      in (400 * n400 + 100 * n100 + 4 * n4 + n1 + 1, d4 - 365 * n1))"

definition unix_epoch_day :: int where
  "unix_epoch_day = 719162"

definition date_of :: "int \<Rightarrow> date" where
  "date_of day =
     (case year_day (day + unix_epoch_day) of (y, yd) \<Rightarrow>
       (case month_day (month_lengths (isLeap y)) 1 yd of (m, d) \<Rightarrow>
         \<lparr>d_Year = y, d_Month = m, d_Day = d\<rparr>))"

text \<open>The reference: the number of the first day of a year, and the sum of the months before.\<close>

definition days_before_year :: "int \<Rightarrow> int" where
  "days_before_year y = 365 * (y - 1) + (y - 1) div 4 - (y - 1) div 100 + (y - 1) div 400"

definition day_of :: "date \<Rightarrow> int" where
  "day_of dt =
     days_before_year (d_Year dt) +
     sum_list (take (nat (d_Month dt - 1)) (month_lengths (isLeap (d_Year dt)))) + d_Day dt - 1 -
     unix_epoch_day"

text \<open>The stages of the computation, each with its bounds.\<close>

lemma capped_div:
  fixes d k :: int
  assumes "0 \<le> d" and "d \<le> 4 * k" and "0 < k"
  obtains q r where "d div k - d div k div 4 = q" and "d = k * q + r" and "0 \<le> q" and "q \<le> 3" and "0 \<le> r"
    and "r < k \<or> r = k \<and> q = 3"
proof -
  obtain c m where c: "d div k = c" and d: "d = k * c + m" and m: "0 \<le> m" "m < k"
    using assms(3) by (metis Euclidean_Rings.pos_mod_bound Euclidean_Rings.pos_mod_sign mult_div_mod_eq)
  have "0 \<le> c" "c \<le> 4"
    using assms zdiv_mono1 [of d "4 * k" k] c by (auto simp: pos_imp_zdiv_nonneg_iff)
  then consider "c \<le> 3" "c div 4 = 0" | "c = 4" "m = 0"
    using d m assms(2) by (cases "c = 4") auto
  then show thesis
  proof cases
    case 1
    show thesis by (rule that [of c m]) (use 1 c d m \<open>0 \<le> c\<close> in auto)
  next
    case 2
    show thesis by (rule that [of 3 k]) (use 2 c d assms(3) in auto)
  qed
qed

text \<open>The decomposition of a day: the four counts, with their bounds, and the day of the year.\<close>

definition cycles :: "int \<Rightarrow> int \<Rightarrow> int \<Rightarrow> int \<Rightarrow> int \<Rightarrow> int \<Rightarrow> bool" where
  "cycles d n400 n100 n4 n1 yd \<longleftrightarrow>
     d = 146097 * n400 + 36524 * n100 + 1461 * n4 + 365 * n1 + yd \<and>
     0 \<le> n100 \<and> n100 \<le> 3 \<and> 0 \<le> n4 \<and> n4 \<le> 24 \<and> 0 \<le> n1 \<and> n1 \<le> 3 \<and> 0 \<le> yd \<and>
     (yd < 365 \<or> yd = 365 \<and> n1 = 3 \<and> (n4 = 24 \<longrightarrow> n100 = 3))"

lemma year_day_cycles:
  obtains n400 n100 n4 n1 yd where "cycles d n400 n100 n4 n1 yd"
    and "year_day d = (400 * n400 + 100 * n100 + 4 * n4 + n1 + 1, yd)"
proof -
  let ?r = "d mod 146097"
  have "0 \<le> ?r" "?r \<le> 4 * 36524" using pos_mod_bound [of 146097 d] by simp_all
  then obtain n100 d100 where
    c: "?r div 36524 - ?r div 36524 div 4 = n100" "?r = 36524 * n100 + d100" "0 \<le> n100" "n100 \<le> 3"
       "0 \<le> d100" "d100 < 36524 \<or> d100 = 36524 \<and> n100 = 3"
    by (rule capped_div) auto
  let ?s = "d100 mod 1461"
  have "0 \<le> ?s" "?s \<le> 4 * 365" using pos_mod_bound [of 1461 d100] by simp_all
  then obtain n1 yd where
    a: "?s div 365 - ?s div 365 div 4 = n1" "?s = 365 * n1 + yd" "0 \<le> n1" "n1 \<le> 3"
       "0 \<le> yd" "yd < 365 \<or> yd = 365 \<and> n1 = 3"
    by (rule capped_div) auto
  have n4: "0 \<le> d100 div 1461" "d100 div 1461 \<le> 24" using c(5,6) by auto
  have d: "d = 146097 * (d div 146097) + ?r" and d100: "d100 = 1461 * (d100 div 1461) + ?s"
    by (simp_all only: mult_div_mod_eq)
  have "d100 div 1461 = 24 \<Longrightarrow> yd = 365 \<Longrightarrow> n100 = 3" using a(2,6) c(6) d100 by auto
  then have "cycles d (d div 146097) n100 (d100 div 1461) n1 yd"
    unfolding cycles_def using c(2-4) a(2-6) n4 d d100 by auto
  moreover have "year_day d = (400 * (d div 146097) + 100 * n100 + 4 * (d100 div 1461) + n1 + 1, yd)"
  proof -
    have "?r - 36524 * n100 = d100" and "?s - 365 * n1 = yd" using c(2) a(2) by linarith+
    then show ?thesis by (simp only: year_day_def Let_def c(1) a(1))
  qed
  ultimately show thesis by (rule that)
qed

text \<open>Day of the year and number of the year against the reference\<close>

lemma div_cycle:
  fixes a b k n :: int
  assumes "n = k * a + b" and "0 \<le> b" and "b < k"
  shows "n div k = a" and "n mod k = b"
  using assms by (simp_all add: div_pos_pos_trivial)

lemma cycles_year:
  assumes "cycles d n400 n100 n4 n1 yd"
  defines "y \<equiv> 400 * n400 + 100 * n100 + 4 * n4 + n1 + 1"
  shows "d = days_before_year y + yd" and "0 \<le> yd" and "yd < (if isLeap y then 366 else 365)"
proof -
  note b = assms(1) [unfolded cycles_def]
  have "(y - 1) div 4 = 100 * n400 + 25 * n100 + n4"
    by (rule div_cycle [of _ _ _ n1]) (use b in \<open>auto simp: y_def\<close>)
  moreover have "(y - 1) div 100 = 4 * n400 + n100"
    by (rule div_cycle [of _ _ _ "4 * n4 + n1"]) (use b in \<open>auto simp: y_def\<close>)
  moreover have "(y - 1) div 400 = n400"
    by (rule div_cycle [of _ _ _ "100 * n100 + 4 * n4 + n1"]) (use b in \<open>auto simp: y_def\<close>)
  ultimately show "d = days_before_year y + yd" using b by (simp add: days_before_year_def y_def)
  show "0 \<le> yd" using b by simp
  show "yd < (if isLeap y then 366 else 365)"
  proof (cases "yd = 365")
    case True
    with b have n1: "n1 = 3" and n4: "n4 = 24 \<longrightarrow> n100 = 3" by auto
    have "y = 4 * (100 * n400 + 25 * n100 + n4 + 1)" using n1 by (simp add: y_def)
    then have "y mod 4 = 0" by (simp only: mod_mult_self1_is_0)
    moreover have "y mod 100 = 4 * n4 + 4 \<and> n4 < 24 \<or> y = 400 * (n400 + 1)"
      using n4 n1 b div_cycle(2) [of y 100 "4 * n400 + n100" "4 * n4 + 4"] by (cases "n4 = 24") (auto simp: y_def)
    ultimately have "isLeap y" using b by (auto simp: isLeap_def)
    with True show ?thesis by simp
  qed (use b in auto)
qed

lemma year_day_bounds:
  assumes "year_day d = (y, yd)"
  shows "d = days_before_year y + yd" and "0 \<le> yd" and "yd < (if isLeap y then 366 else 365)"
  using year_day_cycles [of d] cycles_year assms by (metis prod.inject)+

lemma days_before_year_Suc: "days_before_year (y + 1) = days_before_year y + (if isLeap y then 366 else 365)"
proof -
  have step: "y div k = (y - 1) div k + (if y mod k = 0 then 1 else 0)" if "k \<in> {4, 100, 400}" for k :: int
  proof -
    from that have "k > 1" by auto
    have y: "y = k * (y div k) + y mod k" and m: "0 \<le> y mod k" "y mod k < k" using \<open>k > 1\<close> by simp_all
    show ?thesis
    proof (cases "y mod k = 0")
      case True
      have "(y - 1) div k = y div k - 1"
        by (rule div_cycle [of _ _ _ "k - 1"]) (use y True \<open>k > 1\<close> in \<open>auto simp: algebra_simps\<close>)
      with True show ?thesis by simp
    next
      case False
      have "(y - 1) div k = y div k"
        by (rule div_cycle [of _ _ _ "y mod k - 1"]) (use y m False in \<open>auto simp: algebra_simps\<close>)
      with False show ?thesis by simp
    qed
  qed
  define q where "q k = (y - 1) div k" for k
  define z where "z k = (y mod k = 0)" for k
  have z: "z 400 \<Longrightarrow> z 100" "z 100 \<Longrightarrow> z 4"
    using dvd_trans [of 100 400 y] dvd_trans [of 4 100 y] by (simp_all add: z_def dvd_eq_mod_eq_0)
  have s: "y div k = q k + (if z k then 1 else 0)" if "k \<in> {4, 100, 400}" for k
    using step [OF that] by (simp add: q_def z_def)
  have "days_before_year (y + 1) = 365 * y + y div 4 - y div 100 + y div 400"
    by (simp add: days_before_year_def)
  also have "\<dots> = 365 * y + q 4 - q 100 + q 400 + (if z 4 \<and> (\<not> z 100 \<or> z 400) then 1 else 0)"
    unfolding s [of 4, OF insertI1] s [of 100, OF insertI2 [OF insertI1]]
      s [of 400, OF insertI2 [OF insertI2 [OF insertI1]]]
    using z by (cases "z 4"; cases "z 100"; cases "z 400") simp_all
  also have "\<dots> = days_before_year y + (if isLeap y then 366 else 365)"
  proof -
    have "isLeap y \<longleftrightarrow> z 4 \<and> (\<not> z 100 \<or> z 400)" by (simp only: isLeap_def z_def)
    moreover have "days_before_year y = 365 * (y - 1) + q 4 - q 100 + q 400"
      by (simp only: days_before_year_def q_def)
    ultimately show ?thesis by simp
  qed
  finally show ?thesis .
qed

lemma days_before_year_mono: "y \<le> y' \<Longrightarrow> days_before_year y \<le> days_before_year y'"
proof (induction y' rule: int_ge_induct)
  case (step i)
  then show ?case using days_before_year_Suc [of i] by (simp split: if_splits)
qed simp

text \<open>The date of a later day is later, year first, then the day within the year.\<close>

lemma year_day_mono:
  assumes "d < d'" and "year_day d = (y, yd)" and "year_day d' = (y', yd')"
  shows "y < y' \<or> y = y' \<and> yd < yd'"
proof (rule ccontr)
  assume neg: "\<not> ?thesis"
  note b = year_day_bounds [OF assms(2)] and b' = year_day_bounds [OF assms(3)]
  show False
  proof (cases "y' < y")
    case True
    then have "days_before_year (y' + 1) \<le> days_before_year y" by (intro days_before_year_mono) simp
    with b b' assms(1) days_before_year_Suc [of y'] show False by simp
  next
    case False
    with neg b b' assms(1) show False by simp
  qed
qed

section \<open>Months\<close>

lemma month_day_mono:
  assumes "d < d'" and "month_day ls m d = (a, b)" and "month_day ls m d' = (a', b')"
  shows "a < a' \<or> a = a' \<and> b < b'"
  using assms
proof (induction ls arbitrary: m d d')
  case (Cons l ls)
  have up: "m \<le> fst (month_day ls m d)" for ls m d by (induction ls m d rule: month_day.induct) auto
  show ?case
  proof (cases "d < l")
    case True
    with Cons.prems up [of "m + 1" ls "d' - l"] show ?thesis by (auto split: if_splits)
  next
    case False
    with Cons.prems Cons.IH [of "d - l" "d' - l" "m + 1"] show ?thesis by simp
  qed
qed auto

lemma month_day_sum:
  assumes "0 \<le> d" and "d < sum_list ls" and "month_day ls m d = (a, b)"
  shows "m \<le> a \<and> a < m + int (length ls) \<and> 1 \<le> b \<and> b \<le> ls ! nat (a - m) \<and>
    d = sum_list (take (nat (a - m)) ls) + b - 1"
  using assms
proof (induction ls arbitrary: m d)
  case (Cons l ls)
  show ?case
  proof (cases "d < l")
    case True
    with Cons.prems show ?thesis by auto
  next
    case False
    with Cons.prems Cons.IH [of "d - l" "m + 1"]
    have IH: "m + 1 \<le> a \<and> a < m + 1 + int (length ls) \<and> 1 \<le> b \<and> b \<le> ls ! nat (a - (m + 1)) \<and>
      d - l = sum_list (take (nat (a - (m + 1))) ls) + b - 1" by simp
    then have "nat (a - m) = Suc (nat (a - (m + 1)))" by (simp add: Suc_nat_eq_nat_zadd1)
    with IH show ?thesis by simp
  qed
qed simp

lemma month_lengths_sum: "sum_list (month_lengths leap) = (if leap then 366 else 365)"
  by (simp add: month_lengths_def)

lemma date_of_bounds:
  assumes "date_of day = dt"
  shows "day_of dt = day" and "1 \<le> d_Month dt" and "d_Month dt \<le> 12" and "1 \<le> d_Day dt" and "d_Day dt \<le> 31"
proof -
  obtain y yd where y: "year_day (day + unix_epoch_day) = (y, yd)" by (rule prod.exhaust)
  obtain m d where m: "month_day (month_lengths (isLeap y)) 1 yd = (m, d)" by (rule prod.exhaust)
  have dt: "dt = \<lparr>d_Year = y, d_Month = m, d_Day = d\<rparr>" using assms y m by (simp add: date_of_def)
  note b = year_day_bounds [OF y]
  have s: "1 \<le> m \<and> m < 1 + int (length (month_lengths (isLeap y))) \<and> 1 \<le> d \<and>
      d \<le> month_lengths (isLeap y) ! nat (m - 1) \<and>
      yd = sum_list (take (nat (m - 1)) (month_lengths (isLeap y))) + d - 1"
    using b month_day_sum [OF _ _ m] by (simp add: month_lengths_sum)
  then show "day_of dt = day" using b by (simp add: day_of_def dt)
  have len: "length (month_lengths l) = 12" for l by (simp add: month_lengths_def)
  show "1 \<le> d_Month dt" "d_Month dt \<le> 12" "1 \<le> d_Day dt" using s by (simp_all add: dt len)
  have short: "x \<in> set (month_lengths l) \<Longrightarrow> x \<le> 31" for x l
    by (auto simp: month_lengths_def split: if_splits)
  have "month_lengths (isLeap y) ! nat (m - 1) \<in> set (month_lengths (isLeap y))"
    using s by (intro nth_mem) (simp add: len nat_less_iff)
  from short [OF this] s show "d_Day dt \<le> 31" by (simp add: dt)
qed

end
