(* ===== verification/Go_Rfc3339.thy ===== *)
theory Go_Rfc3339
  imports Go_Date
begin

text \<open>
  The text of an instant: \<^verbatim>\<open>t.UTC().Format(time.RFC3339Nano)\<close>. Fields are padded with zeros; the fraction of
  a second loses its trailing zeros, and its point with them when nothing is left. The text
  determines the instant. Its byte order is the order of instants at the resolution of seconds, in the
  years with four digits; within one second it is not, because \<^verbatim>\<open>Z\<close> sorts after the digits.
\<close>

section \<open>Digits\<close>

definition digit :: "nat \<Rightarrow> char" where
  "digit n = char_of (48 + n)"

definition digit_value :: "char \<Rightarrow> nat" where
  "digit_value c = of_char c - 48"

definition pad :: "nat \<Rightarrow> nat \<Rightarrow> string" where
  "pad w n = replicate (w - length (digits_of n)) CHR ''0'' @ digits_of n"

text \<open>\<^verbatim>\<open>time.appendInt\<close>\<close>

definition appendInt :: "int \<Rightarrow> nat \<Rightarrow> string" where
  "appendInt x w = (if x < 0 then CHR ''-'' # pad w (nat (- x)) else pad w (nat x))"

fun value_of :: "nat \<Rightarrow> string \<Rightarrow> nat" where
  "value_of a [] = a"
| "value_of a (c # s) = value_of (10 * a + digit_value c) s"

lemma value_of_append [simp]: "value_of a (s @ t) = value_of (value_of a s) t"
  by (induction a s rule: value_of.induct) auto

lemma digit_value_digit [simp]: "n < 10 \<Longrightarrow> digit_value (digit n) = n"
  by (simp add: digit_value_def digit_def)

lemma digits_of_rec: "digits_of n = (if n < 10 then [digit n] else digits_of (n div 10) @ [digit (n mod 10)])"
  by (subst digits_of.simps) (simp add: digit_def)

lemma value_of_digits [simp]: "value_of 0 (digits_of n) = n"
proof (induction n rule: less_induct)
  case (less n)
  then show ?case by (cases "n < 10") (simp_all add: digits_of_rec [of n])
qed

lemma value_of_zeros [simp]: "value_of 0 (replicate k CHR ''0'') = 0"
  by (induction k) (simp_all add: digit_value_def)

lemma value_of_pad [simp]: "value_of 0 (pad w n) = n"
  by (simp add: pad_def)

lemma pad_inject [simp]: "pad w m = pad w n \<longleftrightarrow> m = n"
  using value_of_pad by metis

lemma digits_of_inject [simp]: "digits_of m = digits_of n \<longleftrightarrow> m = n"
  using value_of_digits by metis

lemma digit_less: "m < 10 \<Longrightarrow> n < 10 \<Longrightarrow> digit m < digit n \<longleftrightarrow> m < n"
  by (simp add: digit_def less_char_def)

lemma digit_inject: "m < 10 \<Longrightarrow> n < 10 \<Longrightarrow> digit m = digit n \<longleftrightarrow> m = n"
  using digit_value_digit by metis

lemma digits_of_digits: "c \<in> set (digits_of n) \<Longrightarrow> \<exists>k<10. c = digit k"
proof (induction n rule: less_induct)
  case (less n)
  show ?case
  proof (cases "n < 10")
    case True
    with less.prems show ?thesis by (auto simp: digits_of_rec [of n])
  next
    case False
    with less.prems consider "c \<in> set (digits_of (n div 10))" | "c = digit (n mod 10)"
      by (auto simp: digits_of_rec [of n])
    then show ?thesis
    proof cases
      case 1
      with less.IH [of "n div 10"] False show ?thesis by simp
    next
      case 2
      then show ?thesis by (intro exI [of _ "n mod 10"]) simp
    qed
  qed
qed

lemma digit_range: "k < 10 \<Longrightarrow> digit k = c \<Longrightarrow> of_char c = 48 + k"
  by (auto simp: digit_def)

lemma pad_digits: "c \<in> set (pad w n) \<Longrightarrow> 48 \<le> (of_char c :: nat) \<and> (of_char c :: nat) < 58"
proof -
  assume "c \<in> set (pad w n)"
  then consider "c = CHR ''0''" | "c \<in> set (digits_of n)" by (auto simp: pad_def)
  then show ?thesis
  proof cases
    case 2
    then obtain k where "k < 10" "c = digit k" using digits_of_digits by blast
    with digit_range [of k c] show ?thesis by simp
  qed simp
qed

lemma pad_no_sep: "CHR ''-'' \<notin> set (pad w n)" "CHR ''Z'' \<notin> set (pad w n)" "CHR ''.'' \<notin> set (pad w n)"
  using pad_digits [of "CHR ''-''" w n] pad_digits [of "CHR ''Z''" w n] pad_digits [of "CHR ''.''" w n]
  by auto

lemma digits_nonempty: "digits_of n \<noteq> []"
  by (subst digits_of_rec) simp

lemma pad_nonempty: "pad w n \<noteq> []"
  by (simp add: pad_def digits_nonempty)

section \<open>Fields of fixed width\<close>

primrec dig :: "nat \<Rightarrow> nat \<Rightarrow> string" where
  "dig 0 n = []"
| "dig (Suc w) n = dig w (n div 10) @ [digit (n mod 10)]"

lemma length_dig [simp]: "length (dig w n) = w"
  by (induction w arbitrary: n) auto

lemma digit_zero: "digit 0 = CHR ''0''"
  by code_simp

lemma dig_zero: "dig w 0 = replicate w CHR ''0''"
  by (induction w) (simp_all add: digit_zero flip: replicate_append_same)

lemma pad_dig: "n < 10 ^ w \<Longrightarrow> 0 < w \<Longrightarrow> pad w n = dig w n"
proof (induction w arbitrary: n)
  case (Suc w)
  show ?case
  proof (cases "n < 10")
    case True
    then show ?thesis by (simp add: pad_def digits_of_rec [of n] dig_zero)
  next
    case False
    have "w \<noteq> 0" using Suc.prems False by (cases w) auto
    moreover have "n div 10 < 10 ^ w" using Suc.prems(1) by (simp add: less_mult_imp_div_less mult.commute)
    ultimately have "pad w (n div 10) = dig w (n div 10)" using Suc.IH by simp
    with False show ?thesis by (simp add: pad_def digits_of_rec [of n])
  qed
qed simp

lemma pad_length: "n < 10 ^ w \<Longrightarrow> 0 < w \<Longrightarrow> length (pad w n) = w"
  by (simp add: pad_dig)

lemma append_less_append:
  fixes a b s t :: string
  assumes "length a = length b"
  shows "a @ s < b @ t \<longleftrightarrow> a < b \<or> a = b \<and> s < t"
  using assms by (induction a b rule: list_induct2) auto

lemma less_by_digit:
  fixes a b x y :: nat
  shows "x < 10 \<Longrightarrow> y < 10 \<Longrightarrow> 10 * a + x < 10 * b + y \<longleftrightarrow> a < b \<or> a = b \<and> x < y"
  by arith

lemma dig_less: "m < 10 ^ w \<Longrightarrow> n < 10 ^ w \<Longrightarrow> dig w m < dig w n \<longleftrightarrow> m < n"
proof (induction w arbitrary: m n)
  case (Suc w)
  have q: "m div 10 < 10 ^ w" "n div 10 < 10 ^ w"
    using Suc.prems by (simp_all add: less_mult_imp_div_less mult.commute)
  have inj: "dig w (m div 10) = dig w (n div 10) \<longleftrightarrow> m div 10 = n div 10"
    using Suc.IH [OF q] Suc.IH [OF q(2,1)] by (metis less_irrefl linorder_neqE_nat)
  have "m < n \<longleftrightarrow> m div 10 < n div 10 \<or> m div 10 = n div 10 \<and> m mod 10 < n mod 10"
    using less_by_digit [of "m mod 10" "n mod 10" "m div 10" "n div 10"] by (simp only: mult_div_mod_eq mod_less_divisor zero_less_numeral)
  with Suc.IH [OF q] inj show ?case by (simp add: append_less_append digit_less)
qed simp

lemma pad_less: "m < 10 ^ w \<Longrightarrow> n < 10 ^ w \<Longrightarrow> 0 < w \<Longrightarrow> pad w m < pad w n \<longleftrightarrow> m < n"
  by (simp add: pad_dig dig_less)

section \<open>The format\<close>

definition fraction :: "nat \<Rightarrow> string" where
  "fraction ns =
     (if ns = 0 then [] else CHR ''.'' # rev (dropWhile (\<lambda>c. c = CHR ''0'') (rev (pad 9 ns))))"

text \<open>The fields after the year, of a day and a second of the day\<close>

definition stamp_fields :: "date \<Rightarrow> int \<Rightarrow> string" where
  "stamp_fields dt s =
     appendInt (d_Month dt) 2 @ ''-'' @ appendInt (d_Day dt) 2 @ ''T'' @ appendInt (s div 3600) 2 @ '':'' @
     appendInt (s mod 3600 div 60) 2 @ '':'' @ appendInt (s mod 60) 2"

definition RFC3339Nano :: "time \<Rightarrow> string" where
  "RFC3339Nano t =
     (let sec = time_Unix t; dt = date_of (sec div 86400) in
      appendInt (d_Year dt) 4 @ ''-'' @ stamp_fields dt (sec mod 86400) @ fraction (nat (t mod Second)) @ ''Z'')"

section \<open>The text determines the instant\<close>

lemma appendInt_pos: "0 \<le> x \<Longrightarrow> appendInt x w = pad w (nat x)"
  by (simp add: appendInt_def)

lemma appendInt_sep_inject:
  assumes "appendInt x w @ CHR ''-'' # s = appendInt y w @ CHR ''-'' # t"
  shows "x = y \<and> s = t"
proof -
  have head: "pad w n @ u \<noteq> CHR ''-'' # v" for n u v
    using pad_no_sep(1) [of w n] pad_nonempty [of w n] by (cases "pad w n") auto
  have split: "m = n \<and> s = t" if "pad w m @ CHR ''-'' # s = pad w n @ CHR ''-'' # t" for m n
    using sep_append_inj [OF that pad_no_sep(1) pad_no_sep(1)] by simp
  have head': "pad w n @ u = CHR ''-'' # v \<longleftrightarrow> False" "CHR ''-'' # v = pad w n @ u \<longleftrightarrow> False" for n u v
    using head by metis+
  show ?thesis
  proof (cases "x < 0"; cases "y < 0")
    assume "x < 0" "y < 0"
    with assms split [of "nat (- x)" "nat (- y)"] show ?thesis by (auto simp: appendInt_def)
  next
    assume "\<not> x < 0" "\<not> y < 0"
    with assms split [of "nat x" "nat y"] show ?thesis by (auto simp: appendInt_def)
  qed (use assms in \<open>simp_all add: appendInt_def head'\<close>)
qed

definition small_fields :: "date \<Rightarrow> int \<Rightarrow> bool" where
  "small_fields dt s \<longleftrightarrow>
     0 \<le> d_Month dt \<and> d_Month dt < 100 \<and> 0 \<le> d_Day dt \<and> d_Day dt < 100 \<and> 0 \<le> s \<and> s < 86400"

lemma small_fields_date: "0 \<le> s \<Longrightarrow> s < 86400 \<Longrightarrow> small_fields (date_of d) s"
  using date_of_bounds(2-5) [OF refl, of d] by (simp add: small_fields_def)

lemma time_of_day:
  fixes s :: int
  assumes "0 \<le> s" and "s < 86400"
  obtains h m x where "s div 3600 = h" "s mod 3600 div 60 = m" "s mod 60 = x" "s = 3600 * h + 60 * m + x"
    "0 \<le> h" "h < 24" "0 \<le> m" "m < 60" "0 \<le> x" "x < 60"
proof (rule that [OF refl refl refl])
  have "s mod 60 = s mod 3600 mod 60" by (simp add: mod_mod_cancel)
  then show "s = 3600 * (s div 3600) + 60 * (s mod 3600 div 60) + s mod 60"
    by (metis add.assoc mult_div_mod_eq)
  have "s div 3600 \<le> 86399 div 3600" by (rule zdiv_mono1) (use assms(2) in simp_all)
  then show "s div 3600 < 24" by simp
  have "s mod 3600 div 60 \<le> 3599 div 60"
    by (rule zdiv_mono1) (use pos_mod_bound [of 3600 s] in simp_all)
  then show "s mod 3600 div 60 < 60" by simp
  show "0 \<le> s div 3600" using assms(1) by (simp add: pos_imp_zdiv_nonneg_iff)
  show "0 \<le> s mod 3600 div 60" by (simp add: pos_imp_zdiv_nonneg_iff)
  show "0 \<le> s mod 60" "s mod 60 < 60" by simp_all
qed

lemma pad2_length: "0 \<le> x \<Longrightarrow> x < 100 \<Longrightarrow> length (pad 2 (nat x)) = 2"
  by (rule pad_length) auto

lemma pad2_less: "0 \<le> x \<Longrightarrow> x < 100 \<Longrightarrow> 0 \<le> y \<Longrightarrow> y < 100 \<Longrightarrow> pad 2 (nat x) < pad 2 (nat y) \<longleftrightarrow> x < y"
  by (subst pad_less) auto

lemma small_fields_time:
  assumes "small_fields dt s"
  obtains h m x where "s div 3600 = h" "s mod 3600 div 60 = m" "s mod 60 = x" "s = 3600 * h + 60 * m + x"
    "0 \<le> h" "h < 24" "0 \<le> m" "m < 60" "0 \<le> x" "x < 60"
proof -
  have "0 \<le> s" "s < 86400" using assms by (simp_all add: small_fields_def)
  then show thesis by (rule time_of_day) (rule that)
qed

lemma stamp_fields_length: "small_fields dt s \<Longrightarrow> length (stamp_fields dt s) = 14"
  by (frule small_fields_time [of dt s])
    (simp_all add: small_fields_def stamp_fields_def appendInt_pos pad2_length)

lemma stamp_fields_less:
  assumes "small_fields dt s" and "small_fields dt' s'"
    and "d_Month dt < d_Month dt' \<or> d_Month dt = d_Month dt' \<and>
      (d_Day dt < d_Day dt' \<or> d_Day dt = d_Day dt' \<and> s < s')"
  shows "stamp_fields dt s < stamp_fields dt' s'"
proof -
  obtain h m x where t: "s div 3600 = h" "s mod 3600 div 60 = m" "s mod 60 = x" "s = 3600 * h + 60 * m + x"
    "0 \<le> h" "h < 24" "0 \<le> m" "m < 60" "0 \<le> x" "x < 60"
    by (rule small_fields_time [OF assms(1)])
  obtain h' m' x' where t': "s' div 3600 = h'" "s' mod 3600 div 60 = m'" "s' mod 60 = x'"
    "s' = 3600 * h' + 60 * m' + x'" "0 \<le> h'" "h' < 24" "0 \<le> m'" "m' < 60" "0 \<le> x'" "x' < 60"
    by (rule small_fields_time [OF assms(2)])
  have lex: "s < s' \<Longrightarrow> h < h' \<or> h = h' \<and> (m < m' \<or> m = m' \<and> x < x')"
    using t(4-10) t'(4-10) by linarith
  have eq: "stamp_fields dt s = pad 2 (nat (d_Month dt)) @ CHR ''-'' # pad 2 (nat (d_Day dt)) @ CHR ''T'' #
      pad 2 (nat h) @ CHR '':'' # pad 2 (nat m) @ CHR '':'' # pad 2 (nat x)"
    using t(5-10) assms(1) unfolding stamp_fields_def t(1-3) by (simp add: appendInt_pos small_fields_def)
  have eq': "stamp_fields dt' s' = pad 2 (nat (d_Month dt')) @ CHR ''-'' # pad 2 (nat (d_Day dt')) @ CHR ''T'' #
      pad 2 (nat h') @ CHR '':'' # pad 2 (nat m') @ CHR '':'' # pad 2 (nat x')"
    using t'(5-10) assms(2) unfolding stamp_fields_def t'(1-3) by (simp add: appendInt_pos small_fields_def)
  have two: "length (pad 2 (nat (d_Month dt))) = length (pad 2 (nat (d_Month dt')))"
    "length (pad 2 (nat (d_Day dt))) = length (pad 2 (nat (d_Day dt')))"
    "length (pad 2 (nat h)) = length (pad 2 (nat h'))" "length (pad 2 (nat m)) = length (pad 2 (nat m'))"
    using t(5-10) t'(5-10) assms(1,2) by (simp_all add: pad2_length small_fields_def)
  have less: "pad 2 (nat (d_Month dt)) < pad 2 (nat (d_Month dt')) \<longleftrightarrow> d_Month dt < d_Month dt'"
    "pad 2 (nat (d_Day dt)) < pad 2 (nat (d_Day dt')) \<longleftrightarrow> d_Day dt < d_Day dt'"
    "pad 2 (nat h) < pad 2 (nat h') \<longleftrightarrow> h < h'" "pad 2 (nat m) < pad 2 (nat m') \<longleftrightarrow> m < m'"
    "pad 2 (nat x) < pad 2 (nat x') \<longleftrightarrow> x < x'"
    using t(5-10) t'(5-10) assms(1,2) by (simp_all add: pad2_less small_fields_def)
  show ?thesis
    unfolding eq eq' by (simp only: append_less_append two Cons_less_Cons less less_irrefl) (use assms(3) lex in auto)
qed

text \<open>A later second has a later date and time of day, year first.\<close>

definition sec_year :: "int \<Rightarrow> int" where
  "sec_year sec = d_Year (date_of (sec div 86400))"

definition sec_fields :: "int \<Rightarrow> string" where
  "sec_fields sec = stamp_fields (date_of (sec div 86400)) (sec mod 86400)"

lemma sec_small: "small_fields (date_of (sec div 86400)) (sec mod 86400)"
  by (rule small_fields_date) simp_all

lemma sec_fields_length: "length (sec_fields sec) = 14"
  unfolding sec_fields_def by (rule stamp_fields_length [OF sec_small])

lemma date_of_mono:
  assumes "d < d'"
  shows "d_Year (date_of d) < d_Year (date_of d') \<or> d_Year (date_of d) = d_Year (date_of d') \<and>
    (d_Month (date_of d) < d_Month (date_of d') \<or>
     d_Month (date_of d) = d_Month (date_of d') \<and> d_Day (date_of d) < d_Day (date_of d'))"
proof -
  obtain y yd where y: "year_day (d + unix_epoch_day) = (y, yd)" by (rule prod.exhaust)
  obtain y' yd' where y': "year_day (d' + unix_epoch_day) = (y', yd')" by (rule prod.exhaust)
  obtain m k where m: "month_day (month_lengths (isLeap y)) 1 yd = (m, k)" by (rule prod.exhaust)
  obtain m' k' where m': "month_day (month_lengths (isLeap y')) 1 yd' = (m', k')" by (rule prod.exhaust)
  have "y < y' \<or> y = y' \<and> yd < yd'" using year_day_mono [OF _ y y'] assms by simp
  then have "y < y' \<or> y = y' \<and> (m < m' \<or> m = m' \<and> k < k')"
    using month_day_mono [of yd yd' "month_lengths (isLeap y)" 1 m k m' k'] m m' by auto
  then show ?thesis by (simp add: date_of_def y y' m m')
qed

lemma sec_mono:
  assumes "sec < sec'"
  shows "sec_year sec < sec_year sec' \<or> sec_year sec = sec_year sec' \<and> sec_fields sec < sec_fields sec'"
proof (cases "sec div 86400 = sec' div 86400")
  case True
  then have "sec mod 86400 < sec' mod 86400"
    using assms by (metis add_less_cancel_left mult_div_mod_eq)
  then show ?thesis
    unfolding sec_fields_def sec_year_def using True stamp_fields_less [OF sec_small [of sec] sec_small [of sec']] by simp
next
  case False
  have "sec div 86400 \<le> sec' div 86400" using assms by (simp add: zdiv_mono1)
  with False have "sec div 86400 < sec' div 86400" by simp
  from date_of_mono [OF this] show ?thesis
    unfolding sec_fields_def sec_year_def using stamp_fields_less [OF sec_small [of sec] sec_small [of sec']] by blast
qed

lemma sec_inject: "sec_year sec = sec_year sec' \<Longrightarrow> sec_fields sec = sec_fields sec' \<Longrightarrow> sec = sec'"
  using sec_mono [of sec sec'] sec_mono [of sec' sec] by (cases sec sec' rule: linorder_cases) auto

lemma RFC3339Nano_alt:
  "RFC3339Nano t = appendInt (sec_year (time_Unix t)) 4 @ CHR ''-'' # sec_fields (time_Unix t) @
     fraction (nat (t mod Second)) @ ''Z''"
  by (simp add: RFC3339Nano_def sec_year_def sec_fields_def Let_def)

lemma trimmed_whole:
  assumes "\<And>c. P c \<longleftrightarrow> c = z"
  shows "rev (dropWhile P (rev u)) @ replicate (length u - length (dropWhile P (rev u))) z = u"
proof -
  have "rev u = takeWhile P (rev u) @ dropWhile P (rev u)" by simp
  moreover have "takeWhile P (rev u) = replicate (length (takeWhile P (rev u))) z"
    by (rule replicate_eqI [symmetric, THEN sym]) (auto simp: assms dest: set_takeWhileD)
  moreover have "length (takeWhile P (rev u)) = length u - length (dropWhile P (rev u))"
    by (metis diff_add_inverse2 length_append length_rev takeWhile_dropWhile_id)
  ultimately show ?thesis by (metis rev_append rev_replicate rev_rev_ident)
qed

lemma trimmed_inject:
  assumes "length s = length t"
    and "rev (dropWhile P (rev s)) = rev (dropWhile P (rev t))" and "\<And>c. P c \<longleftrightarrow> c = z"
  shows "s = t"
  using trimmed_whole [of P z s] trimmed_whole [of P z t] assms by (metis length_rev)

lemma fraction_inject:
  assumes "m < 10 ^ 9" and "n < 10 ^ 9" and "fraction m @ ''Z'' = fraction n @ ''Z''"
  shows "m = n"
proof -
  have "fraction m = fraction n" using assms(3) by simp
  then consider "m = 0" "n = 0"
    | "rev (dropWhile (\<lambda>c. c = CHR ''0'') (rev (pad 9 m))) = rev (dropWhile (\<lambda>c. c = CHR ''0'') (rev (pad 9 n)))"
    by (auto simp: fraction_def split: if_splits)
  then show ?thesis
  proof cases
    case 2
    have "pad 9 m = pad 9 n"
      by (rule trimmed_inject [OF _ 2]) (use assms(1,2) in \<open>simp_all add: pad_length\<close>)
    then show ?thesis by simp
  qed simp
qed

lemma RFC3339Nano_inject [simp]: "RFC3339Nano t = RFC3339Nano u \<longleftrightarrow> t = u"
proof
  assume eq: "RFC3339Nano t = RFC3339Nano u"
  have year: "sec_year (time_Unix t) = sec_year (time_Unix u)"
    and rest: "sec_fields (time_Unix t) @ fraction (nat (t mod Second)) @ ''Z'' =
      sec_fields (time_Unix u) @ fraction (nat (u mod Second)) @ ''Z''"
    using appendInt_sep_inject [OF eq [unfolded RFC3339Nano_alt]] by auto
  have "sec_fields (time_Unix t) = sec_fields (time_Unix u)"
    and frac: "fraction (nat (t mod Second)) @ ''Z'' = fraction (nat (u mod Second)) @ ''Z''"
    using rest sec_fields_length by (auto simp: append_eq_append_conv)
  with year have sec: "t div Second = u div Second" by (auto simp: time_Unix_def dest: sec_inject)
  have small: "0 \<le> v mod Second" "nat (v mod Second) < 10 ^ 9" for v
    using pos_mod_bound [of Second v] by (simp_all add: Second_def nat_less_iff)
  have "nat (t mod Second) = nat (u mod Second)" by (rule fraction_inject [OF small(2) small(2) frac])
  then have "t mod Second = u mod Second" using small(1) by (simp add: nat_eq_iff)
  with sec show "t = u" by (metis mult_div_mod_eq)
qed simp

section \<open>Byte order and time order\<close>

text \<open>The years in which the text has its fixed width\<close>

definition four_digit_year :: "time \<Rightarrow> bool" where
  "four_digit_year t \<longleftrightarrow> 0 \<le> sec_year (time_Unix t) \<and> sec_year (time_Unix t) \<le> 9999"

lemma RFC3339Nano_less_sec:
  assumes "four_digit_year t" and "four_digit_year u" and "time_Unix t < time_Unix u"
  shows "RFC3339Nano t < RFC3339Nano u"
proof -
  let ?y = "nat (sec_year (time_Unix t))" and ?y' = "nat (sec_year (time_Unix u))"
  have y: "0 \<le> sec_year (time_Unix t)" "0 \<le> sec_year (time_Unix u)" "?y < 10 ^ 4" "?y' < 10 ^ 4"
    using assms(1,2) by (simp_all add: four_digit_year_def nat_less_iff)
  have len: "length (pad 4 ?y) = length (pad 4 ?y')" using y by (simp add: pad_length)
  have len': "length (sec_fields (time_Unix t)) = length (sec_fields (time_Unix u))"
    by (simp add: sec_fields_length)
  have less: "pad 4 ?y < pad 4 ?y' \<longleftrightarrow> sec_year (time_Unix t) < sec_year (time_Unix u)"
    using y by (subst pad_less) auto
  from sec_mono [OF assms(3)] show ?thesis
    unfolding RFC3339Nano_alt appendInt_pos [OF y(1)] appendInt_pos [OF y(2)]
    by (auto simp: append_less_append len len' less)
qed

text \<open>So the byte order errs by less than a second in either direction.\<close>

lemma RFC3339Nano_less_imp:
  assumes "four_digit_year t" and "four_digit_year u" and "RFC3339Nano t < RFC3339Nano u"
  shows "time_Unix t \<le> time_Unix u"
  using RFC3339Nano_less_sec [OF assms(2,1)] assms(3) by (meson less_asym linorder_not_less)

lemma digit_eval:
  "digit 0 = CHR ''0''" "digit (Suc 0) = CHR ''1''" "digit 1 = CHR ''1''" "digit 2 = CHR ''2''"
  "digit 3 = CHR ''3''" "digit 4 = CHR ''4''" "digit 5 = CHR ''5''" "digit 6 = CHR ''6''"
  "digit 7 = CHR ''7''" "digit 8 = CHR ''8''" "digit 9 = CHR ''9''"
  by code_simp+

lemmas stamp_eval = RFC3339Nano_def time_Unix_def Second_def stamp_fields_def appendInt_def fraction_def pad_def

lemma leap_day: "date_of 19782 = \<lparr>d_Year = 2024, d_Month = 2, d_Day = 29\<rparr>"
  by code_simp

text \<open>Within a second the shorter fraction sorts last.\<close>

lemma epoch_day: "date_of 0 = \<lparr>d_Year = 1970, d_Month = 1, d_Day = 1\<rparr>"
  by code_simp

lemma half_second_digits: "digits_of 500000000 = ''500000000''" "digits_of 500000001 = ''500000001''"
  by (simp_all add: digits_of_rec digit_eval)

lemma epoch_digits: "digits_of 1970 = ''1970''" "digits_of 1 = ''1''" "digits_of (Suc 0) = ''1''" "digits_of 0 = ''0''"
  by (simp_all add: digits_of_rec digit_eval)

lemma half_second_stamps:
  "RFC3339Nano 500000000 = ''1970-01-01T00:00:00.5Z''"
  "RFC3339Nano 500000001 = ''1970-01-01T00:00:00.500000001Z''"
  by (simp_all add: stamp_eval epoch_day half_second_digits epoch_digits)

lemma byte_order_not_time_order: "RFC3339Nano 500000001 < RFC3339Nano 500000000"
  by (simp add: half_second_stamps less_char_def)

section \<open>Reading a stamp\<close>

text \<open>
  The instant of a stamp with a four-digit year, found from the positions of its fields; a text that
  is not the stamp of an instant has none.
\<close>

definition two_digits :: "string \<Rightarrow> nat \<Rightarrow> int" where
  "two_digits s i = int (value_of 0 (take 2 (drop i s)))"

definition read_fraction :: "string \<Rightarrow> int" where
  "read_fraction s =
     (case s of
        [] \<Rightarrow> 0
      | c # r \<Rightarrow> if c = CHR ''Z'' then 0
          else let ds = takeWhile (\<lambda>c. c \<noteq> CHR ''Z'') r in
            int (value_of 0 (ds @ replicate (9 - length ds) CHR ''0'')))"

definition read_stamp :: "string \<Rightarrow> time option" where
  "read_stamp s =
     (let day = day_of \<lparr>d_Year = int (value_of 0 (take 4 s)), d_Month = two_digits s 5, d_Day = two_digits s 8\<rparr>;
          t = (86400 * day + 3600 * two_digits s 11 + 60 * two_digits s 14 + two_digits s 17) * Second +
              read_fraction (drop 19 s)
      in if RFC3339Nano t = s then Some t else None)"

lemma read_stamp_sound: "read_stamp s = Some t \<Longrightarrow> s = RFC3339Nano t"
  by (auto simp: read_stamp_def Let_def split: if_splits)

lemma trimmed_pad:
  assumes "n < 10 ^ 9"
  defines "ds \<equiv> rev (dropWhile (\<lambda>c. c = CHR ''0'') (rev (pad 9 n)))"
  shows "value_of 0 (ds @ replicate (9 - length ds) CHR ''0'') = n" and "CHR ''Z'' \<notin> set ds"
proof -
  have len: "length (pad 9 n) = 9" using assms(1) by (simp add: pad_length)
  have "ds @ replicate (9 - length ds) CHR ''0'' = pad 9 n"
    using trimmed_whole [of "\<lambda>c. c = CHR ''0''" "CHR ''0''" "pad 9 n"] len by (simp add: ds_def)
  then show "value_of 0 (ds @ replicate (9 - length ds) CHR ''0'') = n" by (simp only: value_of_pad)
  show "CHR ''Z'' \<notin> set ds" using pad_no_sep(2) [of 9 n] by (auto simp: ds_def dest: set_dropWhileD)
qed

lemma read_fraction_fraction:
  assumes "n < 10 ^ 9"
  shows "read_fraction (fraction n @ ''Z'') = int n"
proof (cases "n = 0")
  case False
  then show ?thesis
    using trimmed_pad [OF assms] by (simp add: fraction_def read_fraction_def takeWhile_append)
qed (simp add: fraction_def read_fraction_def)

lemma read_stamp_RFC3339Nano:
  assumes "four_digit_year t"
  shows "read_stamp (RFC3339Nano t) = Some t"
proof -
  let ?sec = "time_Unix t" and ?y = "sec_year (time_Unix t)"
  let ?dt = "date_of (time_Unix t div 86400)" and ?s = "time_Unix t mod 86400"
  have y: "0 \<le> ?y" "length (pad 4 (nat ?y)) = 4"
    using assms by (auto simp: four_digit_year_def nat_less_iff intro!: pad_length)
  obtain h m x where f: "?s div 3600 = h" "?s mod 3600 div 60 = m" "?s mod 60 = x" "?s = 3600 * h + 60 * m + x"
    "0 \<le> h" "h < 24" "0 \<le> m" "m < 60" "0 \<le> x" "x < 60"
    by (rule small_fields_time [OF sec_small])
  note b = sec_small [of ?sec, unfolded small_fields_def]
  have eq: "RFC3339Nano t = pad 4 (nat ?y) @ CHR ''-'' # pad 2 (nat (d_Month ?dt)) @ CHR ''-'' #
      pad 2 (nat (d_Day ?dt)) @ CHR ''T'' # pad 2 (nat h) @ CHR '':'' # pad 2 (nat m) @ CHR '':'' # pad 2 (nat x) @
      fraction (nat (t mod Second)) @ ''Z''"
    unfolding RFC3339Nano_alt sec_fields_def stamp_fields_def f(1-3)
    using y(1) b f(5-10) by (simp add: appendInt_pos)
  have two: "length (pad 2 (nat (d_Month ?dt))) = 2" "length (pad 2 (nat (d_Day ?dt))) = 2"
    "length (pad 2 (nat h)) = 2" "length (pad 2 (nat m)) = 2" "length (pad 2 (nat x)) = 2"
    using b f(5-10) by (simp_all add: pad2_length)
  have small: "nat (t mod Second) < 10 ^ 9" "0 \<le> t mod Second"
    using pos_mod_bound [of Second t] by (simp_all add: Second_def nat_less_iff)
  have frac: "read_fraction (fraction (nat (t mod Second)) @ ''Z'') = t mod Second"
    using read_fraction_fraction [OF small(1)] small(2) by simp
  have vals: "int (value_of 0 (take 4 (RFC3339Nano t))) = ?y" "two_digits (RFC3339Nano t) 5 = d_Month ?dt"
    "two_digits (RFC3339Nano t) 8 = d_Day ?dt" "two_digits (RFC3339Nano t) 11 = h"
    "two_digits (RFC3339Nano t) 14 = m" "two_digits (RFC3339Nano t) 17 = x"
    "read_fraction (drop 19 (RFC3339Nano t)) = t mod Second"
    unfolding eq two_digits_def using y(1) b f(5-10) by (simp_all add: drop_Cons' y(2) two frac)
  have "\<lparr>d_Year = ?y, d_Month = d_Month ?dt, d_Day = d_Day ?dt\<rparr> = ?dt" by (simp add: sec_year_def)
  then have day: "day_of \<lparr>d_Year = ?y, d_Month = d_Month ?dt, d_Day = d_Day ?dt\<rparr> = ?sec div 86400"
    using date_of_bounds(1) [OF refl] by simp
  have "86400 * (?sec div 86400) + 3600 * h + 60 * m + x = ?sec"
    using f(4) mult_div_mod_eq [of 86400 ?sec] by linarith
  moreover have "?sec * Second + t mod Second = t" unfolding time_Unix_def by (simp add: mult.commute)
  ultimately show ?thesis unfolding read_stamp_def Let_def vals day by simp
qed

end
