(* ===== verification/Dynamo_Sdk.thy ===== *)
theory Dynamo_Sdk
  imports Store Go_Rfc3339
begin

text \<open>
  The interface of \<^verbatim>\<open>internal/store/dynamo.go\<close> to the AWS SDK: attribute values, the inputs and outputs of
  the three calls, and what the service documents of them. The SDK itself is a parameter, the record
  \<open>dynamo_api\<close> of calls on a state \<open>'d\<close>. Its documented behaviour is the locale \<open>dynamo_service\<close>: a
  table of items with a key schema; condition, filter and update expressions, in the fragment of
  the expression language that the store writes; a call that fails may have had its effect, unless it
  was rejected as invalid; scans are eventually consistent, so nothing is promised of the items they
  return but that the filter holds of each. A locale that extends it adds consistent reads.
\<close>

section \<open>Items and calls\<close>

datatype attr =
    AV_S string
  | AV_N string
  | AV_L "attr list"
  | AV_M "(string \<times> attr) list"

type_synonym item = "string \<Rightarrow> attr option"

record PutItemInput =
  pi_TableName :: string
  pi_Item :: item

record UpdateItemInput =
  ui_TableName :: string
  ui_Key :: item
  ui_UpdateExpression :: string
  ui_ConditionExpression :: string
  ui_Names :: "(string \<times> string) list"
  ui_Values :: "(string \<times> attr) list"

record ScanInput =
  sc_TableName :: string
  sc_FilterExpression :: "string option"
  sc_Names :: "(string \<times> string) list"
  sc_Values :: "(string \<times> attr) list"
  sc_Limit :: int
  sc_ExclusiveStartKey :: "item option"

record ScanOutput =
  so_Items :: "item list"
  so_LastEvaluatedKey :: "item option"

record 'd dynamo_api =
  PutItem :: "PutItemInput \<Rightarrow> 'd \<Rightarrow> go_error option \<times> 'd"
  UpdateItem :: "UpdateItemInput \<Rightarrow> 'd \<Rightarrow> go_error option \<times> 'd"
  Scan :: "ScanInput \<Rightarrow> 'd \<Rightarrow> ScanOutput result \<times> 'd"

section \<open>Expressions\<close>

text \<open>Words of an expression; parentheses and commas are words of their own.\<close>

definition flush :: "string \<Rightarrow> string list \<Rightarrow> string list" where
  "flush w ts = (if w = [] then ts else w # ts)"

fun tokens :: "string \<Rightarrow> string \<Rightarrow> string list" where
  "tokens w [] = flush w []"
| "tokens w (c # s) =
     (if c = CHR '' '' then flush w (tokens [] s)
      else if c = CHR ''('' \<or> c = CHR '')'' \<or> c = CHR '','' then flush w ([c] # tokens [] s)
      else tokens (w @ [c]) s)"

text \<open>An operand: a substituted name, a value or the name of an attribute.\<close>

definition path_of :: "(string \<times> string) list \<Rightarrow> string \<Rightarrow> string" where
  "path_of names t = (case map_of names t of Some n \<Rightarrow> n | None \<Rightarrow> t)"

definition operand ::
  "(string \<times> string) list \<Rightarrow> (string \<times> attr) list \<Rightarrow> item \<Rightarrow> string \<Rightarrow> attr option" where
  "operand names vals it t =
     (case map_of vals t of Some v \<Rightarrow> Some v | None \<Rightarrow> it (path_of names t))"

text \<open>Comparisons of an absent attribute, and \<^verbatim>\<open><\<close> between other things than strings, hold of nothing.\<close>

definition compare :: "string \<Rightarrow> attr option \<Rightarrow> attr option \<Rightarrow> bool" where
  "compare cmp a b \<longleftrightarrow>
     (case (a, b) of
        (Some x, Some y) \<Rightarrow>
          if cmp = ''='' then x = y
          else if cmp = ''<'' then (case (x, y) of (AV_S s, AV_S t) \<Rightarrow> s < t | _ \<Rightarrow> False)
          else False
      | _ \<Rightarrow> False)"

fun condition ::
  "(string \<times> string) list \<Rightarrow> (string \<times> attr) list \<Rightarrow> item \<Rightarrow> string list \<Rightarrow> bool" where
  "condition names vals it [a, cmp, b] = compare cmp (operand names vals it a) (operand names vals it b)"
| "condition names vals it (a # cmp # b # w # ts) =
     (w = ''AND'' \<and> compare cmp (operand names vals it a) (operand names vals it b) \<and>
      condition names vals it ts)"
| "condition names vals it _ = False"

definition satisfies ::
  "string \<Rightarrow> (string \<times> string) list \<Rightarrow> (string \<times> attr) list \<Rightarrow> item \<Rightarrow> bool" where
  "satisfies expr names vals it = condition names vals it (tokens [] expr)"

text \<open>
  The right-hand side of an assignment: an operand, \<^verbatim>\<open>list_append(a, b)\<close> or \<^verbatim>\<open>if_not_exists(path, a)\<close>. The
  result is the value, if the operands have the right types, and the words that are left. The fuel
  bounds the nesting.
\<close>

definition list_append :: "attr option \<Rightarrow> attr option \<Rightarrow> attr option" where
  "list_append a b = (case (a, b) of (Some (AV_L xs), Some (AV_L ys)) \<Rightarrow> Some (AV_L (xs @ ys)) | _ \<Rightarrow> None)"

fun set_value ::
  "nat \<Rightarrow> (string \<times> string) list \<Rightarrow> (string \<times> attr) list \<Rightarrow> item \<Rightarrow> string list \<Rightarrow>
     attr option \<times> string list" where
  "set_value n names vals it [] = (None, [])"
| "set_value 0 names vals it ts = (None, [])"
| "set_value (Suc n) names vals it (f # ts) =
     (if f = ''list_append'' then
        (case set_value n names vals it (drop 1 ts) of (a, ts1) \<Rightarrow>
          (case set_value n names vals it (drop 1 ts1) of (b, ts2) \<Rightarrow> (list_append a b, drop 1 ts2)))
      else if f = ''if_not_exists'' then
        (case set_value n names vals it (drop 3 ts) of (a, ts1) \<Rightarrow>
          (case it (path_of names (hd (drop 1 ts))) of
             Some v \<Rightarrow> (Some v, drop 1 ts1) | None \<Rightarrow> (a, drop 1 ts1)))
      else (operand names vals it f, ts))"

text \<open>The assignments of a \<^verbatim>\<open>SET\<close>; every right-hand side sees the item as it was.\<close>

fun assignments ::
  "nat \<Rightarrow> (string \<times> string) list \<Rightarrow> (string \<times> attr) list \<Rightarrow> item \<Rightarrow> string list \<Rightarrow>
     (string \<times> attr) list option" where
  "assignments 0 names vals it ts = None"
| "assignments (Suc n) names vals it (p # eq # ts) =
     (case set_value n names vals it ts of
        (Some v, []) \<Rightarrow> Some [(path_of names p, v)]
      | (Some v, comma # ts1) \<Rightarrow>
          (case assignments n names vals it ts1 of
             None \<Rightarrow> None | Some as \<Rightarrow> Some ((path_of names p, v) # as))
      | (None, _) \<Rightarrow> None)"
| "assignments (Suc n) names vals it _ = None"

definition apply_update ::
  "string \<Rightarrow> (string \<times> string) list \<Rightarrow> (string \<times> attr) list \<Rightarrow> item \<Rightarrow> item option" where
  "apply_update expr names vals it =
     (case tokens [] expr of
        [] \<Rightarrow> None
      | verb # ts \<Rightarrow>
          if verb = ''SET'' then map_option (\<lambda>as. it ++ map_of as) (assignments (length ts) names vals it ts)
          else None)"

section \<open>The service\<close>

definition key_of :: "string list \<Rightarrow> item \<Rightarrow> item" where
  "key_of schema it = it |` set schema"

definition put_item :: "string list \<Rightarrow> item \<Rightarrow> item set \<Rightarrow> item set" where
  "put_item schema it T = insert it {x \<in> T. key_of schema x \<noteq> key_of schema it}"

text \<open>
  The effect of a conditional update: the condition is evaluated on the item under the key, or on an empty
  one when there is none, and the item is then replaced, or created.
\<close>

definition updated :: "string list \<Rightarrow> UpdateItemInput \<Rightarrow> item set \<Rightarrow> item set \<Rightarrow> bool" where
  "updated schema u T T' \<longleftrightarrow>
     (\<exists>old. (case old of Some it \<Rightarrow> it \<in> T \<and> key_of schema it = ui_Key u
                       | None \<Rightarrow> ui_Key u \<notin> key_of schema ` T) \<and>
       satisfies (ui_ConditionExpression u) (ui_Names u) (ui_Values u)
         (case old of Some it \<Rightarrow> it | None \<Rightarrow> Map.empty) \<and>
       (\<exists>it'. apply_update (ui_UpdateExpression u) (ui_Names u) (ui_Values u)
                (case old of Some it \<Rightarrow> it | None \<Rightarrow> ui_Key u) = Some it' \<and>
          T' = insert it' {x \<in> T. key_of schema x \<noteq> ui_Key u}))"

text \<open>
  \<open>items\<close> are the contents of the table \<open>table\<close> and \<open>schema\<close> the names of its key attributes; \<open>ahead\<close> counts
  the keys a scan still has before it, which every page with a continuation key decreases.
\<close>

locale dynamo_service =
  fixes sdk :: "'d dynamo_api" and table :: string and schema :: "string list"
    and items :: "'d \<Rightarrow> item set" and ahead :: "'d \<Rightarrow> item option \<Rightarrow> nat"
  assumes PutItem_ok: "PutItem sdk p d = (None, d') \<Longrightarrow> pi_TableName p = table \<Longrightarrow>
      items d' = put_item schema (pi_Item p) (items d)"
    and PutItem_err: "PutItem sdk p d = (Some e, d') \<Longrightarrow> pi_TableName p = table \<Longrightarrow>
      items d' = items d \<or> items d' = put_item schema (pi_Item p) (items d)"
    and UpdateItem_ok: "UpdateItem sdk u d = (None, d') \<Longrightarrow> ui_TableName u = table \<Longrightarrow>
      updated schema u (items d) (items d')"
    and UpdateItem_err: "UpdateItem sdk u d = (Some e, d') \<Longrightarrow> ui_TableName u = table \<Longrightarrow>
      items d' = items d \<or> updated schema u (items d) (items d')"
    and UpdateItem_invalid: "UpdateItem sdk u d = (Some e, d') \<Longrightarrow> ui_TableName u = table \<Longrightarrow>
      Contains (Error e) ''ValidationException'' \<Longrightarrow> items d' = items d"
    and Scan_items: "Scan sdk q d = (r, d') \<Longrightarrow> items d' = items d"
    and Scan_filter: "Scan sdk q d = (Inr out, d') \<Longrightarrow> sc_TableName q = table \<Longrightarrow>
      sc_FilterExpression q = Some f \<Longrightarrow> it \<in> set (so_Items out) \<Longrightarrow> satisfies f (sc_Names q) (sc_Values q) it"
    and Scan_progress: "Scan sdk q d = (Inr out, d') \<Longrightarrow> sc_TableName q = table \<Longrightarrow>
      so_LastEvaluatedKey out = Some k \<Longrightarrow> ahead d' (Some k) < ahead d (sc_ExclusiveStartKey q)"

end
