(* ===== verification/Store_Dynamo.thy ===== *)
theory Store_Dynamo
  imports Dynamo_Sdk Go_Escape
begin

text \<open>
  \<^verbatim>\<open>internal/store/dynamo.go\<close>: the store of the running gateway. The SDK client and the two functions of
  \<^verbatim>\<open>attributevalue\<close> are parameters; how an operation looks as an item follows from the struct tags in
  \<^verbatim>\<open>operation.go\<close> and is the predicate \<open>encodes\<close>. The scan loops have no bound of their own and are partial
  functions; that they return is a theorem. Contexts reach the SDK only.
\<close>

section \<open>Operations as items\<close>

text \<open>The struct tags. A field with \<^verbatim>\<open>omitempty\<close> is absent when empty, or holds what an update wrote.\<close>

definition plain :: "item \<Rightarrow> string \<Rightarrow> string \<Rightarrow> bool" where
  "plain it tag v \<longleftrightarrow> it tag = Some (AV_S v)"

definition omitempty :: "item \<Rightarrow> string \<Rightarrow> string \<Rightarrow> bool" where
  "omitempty it tag v \<longleftrightarrow> it tag = Some (AV_S v) \<or> v = '''' \<and> it tag = None"

definition event_attr :: "AuditEvent \<Rightarrow> attr" where
  "event_attr e = AV_M [(''event'', AV_S (Event e)), (''at'', AV_S (RFC3339Nano (At e)))]"

definition plain_fields :: "Operation \<Rightarrow> (string \<times> string) list" where
  "plain_fields op =
     [(''operation_id'', Op_OperationID op), (''repository'', Op_Repository op),
      (''repository_id'', Op_RepositoryID op), (''action'', Op_Action op), (''namespace'', Op_Namespace op),
      (''deployment'', Op_Deployment op), (''ns_dep'', Op_NsDep op), (''status'', Op_Status op),
      (''requested_at'', RFC3339Nano (Op_RequestedAt op))]"

definition omitempty_fields :: "Operation \<Rightarrow> (string \<times> string) list" where
  "omitempty_fields op =
     [(''repository_owner'', Op_RepositoryOwner op), (''actor'', Op_Actor op), (''workflow'', Op_Workflow op),
      (''workflow_ref'', Op_WorkflowRef op), (''run_id'', Op_RunID op), (''run_attempt'', Op_RunAttempt op),
      (''event_name'', Op_EventName op), (''container'', Op_Container op), (''image'', Op_Image op),
      (''error_code'', Op_ErrorCode op), (''error_message'', Op_ErrorMessage op)]"

definition encodes :: "Operation \<Rightarrow> item \<Rightarrow> bool" where
  "encodes op it \<longleftrightarrow>
     list_all (\<lambda>(tag, v). plain it tag v) (plain_fields op) \<and>
     list_all (\<lambda>(tag, v). omitempty it tag v) (omitempty_fields op) \<and>
     it ''completed_at'' = map_option (\<lambda>t. AV_S (RFC3339Nano t)) (Op_CompletedAt op) \<and>
     it ''expires_at'' = Some (AV_N (itoa (Op_ExpiresAt op))) \<and>
     it ''events'' = Some (AV_L (map event_attr (Op_Events op)))"

text \<open>\<^verbatim>\<open>attributevalue.MarshalMap\<close> and \<^verbatim>\<open>UnmarshalMap\<close> at operations\<close>

record codec =
  MarshalMap :: "Operation \<Rightarrow> item result"
  UnmarshalMap :: "item \<Rightarrow> Operation result"

section \<open>The store\<close>

record 'd dynamoStore =
  ds_table :: string
  ds_client :: "'d dynamo_api"

definition NewDynamo :: "'c result \<Rightarrow> ('c \<Rightarrow> 'd dynamo_api) \<Rightarrow> string \<Rightarrow> 'd dynamoStore result" where
  "NewDynamo loadDefaultConfig newFromConfig tbl =
     (case loadDefaultConfig of
        Inl e \<Rightarrow> Inl (Wrapf ''aws config: '' e '''')
      | Inr cfg \<Rightarrow> Inr \<lparr>ds_table = tbl, ds_client = newFromConfig cfg\<rparr>)"

definition dynamo_PutOperation ::
  "'d dynamoStore \<Rightarrow> codec \<Rightarrow> Operation \<Rightarrow> 'd \<Rightarrow> go_error option \<times> 'd" where
  "dynamo_PutOperation ds cd op d =
     (case MarshalMap cd op of
        Inl e \<Rightarrow> (Some (Wrapf ''marshal: '' e ''''), d)
      | Inr av \<Rightarrow>
          (case PutItem (ds_client ds) \<lparr>pi_TableName = ds_table ds, pi_Item = av\<rparr> d of
             (None, d1) \<Rightarrow> (None, d1)
           | (Some e, d1) \<Rightarrow> (Some (Wrapf ''put: '' e ''''), d1)))"

subsection \<open>Finding an operation\<close>

definition find_input :: "'d dynamoStore \<Rightarrow> string \<Rightarrow> item option \<Rightarrow> ScanInput" where
  "find_input ds i start =
     \<lparr>sc_TableName = ds_table ds, sc_FilterExpression = Some ''#op = :op'',
      sc_Names = [(''#op'', ''operation_id'')], sc_Values = [('':op'', AV_S i)],
      sc_Limit = 100, sc_ExclusiveStartKey = start\<rparr>"

fun find_items :: "codec \<Rightarrow> string \<Rightarrow> item list \<Rightarrow> Operation option \<Rightarrow> Operation option result" where
  "find_items cd i [] found = Inr found"
| "find_items cd i (it # its) found =
     (case UnmarshalMap cd it of
        Inl e \<Rightarrow> Inl (Wrapf ''unmarshal operation: '' e '''')
      | Inr op \<Rightarrow>
          if found \<noteq> None then Inl (Errorf (''scan by operation_id: duplicate operation_id '' @ Quote i))
          else find_items cd i its (Some op))"

partial_function (option) find_loop ::
  "'d dynamoStore \<Rightarrow> codec \<Rightarrow> string \<Rightarrow> item option \<Rightarrow> Operation option \<Rightarrow> 'd \<Rightarrow>
     (Operation result \<times> 'd) option" where
  "find_loop ds cd i start found d =
     (case Scan (ds_client ds) (find_input ds i start) d of
        (Inl e, d1) \<Rightarrow> Some (Inl (Wrapf ''scan by operation_id: '' e ''''), d1)
      | (Inr out, d1) \<Rightarrow>
          (case find_items cd i (so_Items out) found of
             Inl e \<Rightarrow> Some (Inl e, d1)
           | Inr found1 \<Rightarrow>
               (case so_LastEvaluatedKey out of
                  None \<Rightarrow> Some (case found1 of None \<Rightarrow> Inl ErrNotFound | Some op \<Rightarrow> Inr op, d1)
                | Some k \<Rightarrow> find_loop ds cd i (Some k) found1 d1)))"

text \<open>A call as a total function: a scan whose pages never end would be ended by its context.\<close>

definition until_done :: "('r result \<times> 'd) option \<Rightarrow> 'd \<Rightarrow> 'r result \<times> 'd" where
  "until_done res d = (case res of Some x \<Rightarrow> x | None \<Rightarrow> (Inl context_DeadlineExceeded, d))"

definition findOperation :: "'d dynamoStore \<Rightarrow> codec \<Rightarrow> string \<Rightarrow> 'd \<Rightarrow> Operation result \<times> 'd" where
  "findOperation ds cd i d = until_done (find_loop ds cd i None None d) d"

definition dynamo_GetOperation :: "'d dynamoStore \<Rightarrow> codec \<Rightarrow> string \<Rightarrow> 'd \<Rightarrow> Operation result \<times> 'd" where
  "dynamo_GetOperation ds cd i d = findOperation ds cd i d"

subsection \<open>The terminal update\<close>

definition updateKeysFor :: "Operation \<Rightarrow> item list" where
  "updateKeysFor op =
     (let hashOnly = [''operation_id'' \<mapsto> AV_S (Op_OperationID op)] in
      if IsZero (Op_RequestedAt op) then [hashOnly]
      else [[''operation_id'' \<mapsto> AV_S (Op_OperationID op),
             ''requested_at'' \<mapsto> AV_S (RFC3339Nano (Op_RequestedAt op))], hashOnly])"

definition isKeySchemaMismatch :: "go_error option \<Rightarrow> bool" where
  "isKeySchemaMismatch err =
     (case err of
        None \<Rightarrow> False
      | Some e \<Rightarrow> Contains (Error e) ''ValidationException'' \<and>
          Contains (Error e) ''key element does not match the schema'')"

definition update_expr :: string where
  "update_expr =
     ''SET #st = :st, events = list_append(if_not_exists(events, :empty), :ev), '' @
     ''error_code = :ec, error_message = :em, completed_at = :ca''"

definition update_values :: "TerminalUpdate \<Rightarrow> (string \<times> attr) list" where
  "update_values upd =
     [('':st'', AV_S (Upd_Status upd)), ('':running'', AV_S StatusRunning),
      ('':ev'', AV_L [AV_M [(''event'', AV_S (Upd_Event upd)),
                            (''at'', AV_S (RFC3339Nano (Upd_CompletedAt upd)))]]),
      ('':empty'', AV_L []), ('':ec'', AV_S (Upd_ErrorCode upd)), ('':em'', AV_S (Upd_ErrorMessage upd)),
      ('':ca'', AV_S (RFC3339Nano (Upd_CompletedAt upd)))]"

definition update_input :: "'d dynamoStore \<Rightarrow> TerminalUpdate \<Rightarrow> item \<Rightarrow> UpdateItemInput" where
  "update_input ds upd key =
     \<lparr>ui_TableName = ds_table ds, ui_Key = key, ui_UpdateExpression = update_expr,
      ui_ConditionExpression = ''#st = :running'', ui_Names = [(''#st'', ''status'')],
      ui_Values = update_values upd\<rparr>"

text \<open>The loop over the keys: it returns nil at once, or leaves the last error.\<close>

fun update_loop ::
  "'d dynamoStore \<Rightarrow> TerminalUpdate \<Rightarrow> item list \<Rightarrow> go_error option \<Rightarrow> 'd \<Rightarrow>
     (go_error option + unit) \<times> 'd" where
  "update_loop ds upd [] err d = (Inl err, d)"
| "update_loop ds upd (key # keys) err d =
     (case UpdateItem (ds_client ds) (update_input ds upd key) d of
        (None, d1) \<Rightarrow> (Inr (), d1)
      | (Some e, d1) \<Rightarrow>
          if \<not> isKeySchemaMismatch (Some e) then (Inl (Some e), d1)
          else update_loop ds upd keys (Some e) d1)"

definition update_error :: "go_error option \<Rightarrow> go_error" where
  "update_error err =
     (case err of
        None \<Rightarrow> Errorf ''update: %!w(<nil>)''
      | Some e \<Rightarrow>
          if errors_As e ''ResourceNotFoundException'' then ErrNotFound
          else if errors_As e ''ConditionalCheckFailedException'' then ErrAlreadyTerminal
          else Wrapf ''update: '' e '''')"

definition dynamo_UpdateTerminal ::
  "'d dynamoStore \<Rightarrow> codec \<Rightarrow> string \<Rightarrow> TerminalUpdate \<Rightarrow> 'd \<Rightarrow> go_error option \<times> 'd" where
  "dynamo_UpdateTerminal ds cd i upd d =
     (case findOperation ds cd i d of
        (Inl e, d1) \<Rightarrow> (Some e, d1)
      | (Inr op, d1) \<Rightarrow>
          (case update_loop ds upd (updateKeysFor op) None d1 of
             (Inr _, d2) \<Rightarrow> (None, d2)
           | (Inl err, d2) \<Rightarrow> (Some (update_error err), d2)))"

subsection \<open>The sweep query\<close>

definition list_input :: "'d dynamoStore \<Rightarrow> time \<Rightarrow> item option \<Rightarrow> ScanInput" where
  "list_input ds olderThan start =
     \<lparr>sc_TableName = ds_table ds, sc_FilterExpression = Some ''#st = :running AND requested_at < :t'',
      sc_Names = [(''#st'', ''status'')],
      sc_Values = [('':running'', AV_S StatusRunning), ('':t'', AV_S (RFC3339Nano olderThan))],
      sc_Limit = 100, sc_ExclusiveStartKey = start\<rparr>"

fun list_items :: "codec \<Rightarrow> item list \<Rightarrow> Operation list \<Rightarrow> Operation list result" where
  "list_items cd [] found = Inr found"
| "list_items cd (it # its) found =
     (case UnmarshalMap cd it of
        Inl e \<Rightarrow> Inl (Wrapf ''unmarshal scan item: '' e '''')
      | Inr op \<Rightarrow> list_items cd its (found @ [op]))"

partial_function (option) list_loop ::
  "'d dynamoStore \<Rightarrow> codec \<Rightarrow> time \<Rightarrow> item option \<Rightarrow> Operation list \<Rightarrow> 'd \<Rightarrow>
     (Operation list result \<times> 'd) option" where
  "list_loop ds cd olderThan start found d =
     (case Scan (ds_client ds) (list_input ds olderThan start) d of
        (Inl e, d1) \<Rightarrow> Some (Inl (Wrapf ''scan: '' e ''''), d1)
      | (Inr out, d1) \<Rightarrow>
          (case list_items cd (so_Items out) found of
             Inl e \<Rightarrow> Some (Inl e, d1)
           | Inr found1 \<Rightarrow>
               (case so_LastEvaluatedKey out of
                  None \<Rightarrow> Some (Inr found1, d1)
                | Some k \<Rightarrow> list_loop ds cd olderThan (Some k) found1 d1)))"

definition dynamo_ListRunningPastDeadline ::
  "'d dynamoStore \<Rightarrow> codec \<Rightarrow> time \<Rightarrow> 'd \<Rightarrow> Operation list result \<times> 'd" where
  "dynamo_ListRunningPastDeadline ds cd olderThan d = until_done (list_loop ds cd olderThan None [] d) d"

definition dynamo_Ping :: "'d dynamoStore \<Rightarrow> 'd \<Rightarrow> go_error option \<times> 'd" where
  "dynamo_Ping ds d =
     (case Scan (ds_client ds)
             \<lparr>sc_TableName = ds_table ds, sc_FilterExpression = None, sc_Names = [], sc_Values = [],
              sc_Limit = 1, sc_ExclusiveStartKey = None\<rparr> d of
        (Inl e, d1) \<Rightarrow> (Some e, d1)
      | (Inr out, d1) \<Rightarrow> (None, d1))"

definition dynamo_store :: "'d dynamoStore \<Rightarrow> codec \<Rightarrow> 'd store_api" where
  "dynamo_store ds cd =
     \<lparr>PutOperation = dynamo_PutOperation ds cd, GetOperation = dynamo_GetOperation ds cd,
      UpdateTerminal = (\<lambda>i upd now. dynamo_UpdateTerminal ds cd i upd),
      ListRunningPastDeadline = dynamo_ListRunningPastDeadline ds cd, Ping = dynamo_Ping ds\<rparr>"

section \<open>Encodings\<close>

text \<open>An item encodes at most one operation.\<close>

lemma plain_inject: "plain it tag v \<Longrightarrow> plain it tag w \<Longrightarrow> v = w"
  by (simp add: plain_def)

lemma omitempty_inject: "omitempty it tag v \<Longrightarrow> omitempty it tag w \<Longrightarrow> v = w"
  by (auto simp: omitempty_def)

lemma itoa_inject [simp]: "itoa x = itoa y \<longleftrightarrow> x = y"
proof
  assume eq: "itoa x = itoa y"
  have head: "digits_of n \<noteq> CHR ''-'' # s" for n s
    using pad_no_sep(1) [of 0 n] by (cases "digits_of n") (auto simp: pad_def)
  have head': "CHR ''-'' # s \<noteq> digits_of n" for n s using head by metis
  show "x = y"
    using eq head head' by (cases "x < 0"; cases "y < 0") (auto simp: itoa_def)
qed simp

lemma event_attr_inject [simp]: "event_attr e = event_attr f \<longleftrightarrow> e = f"
  by (cases e; cases f) (simp add: event_attr_def)

lemma stamp_option_inject:
  "a = map_option (\<lambda>t. AV_S (RFC3339Nano t)) x \<Longrightarrow> a = map_option (\<lambda>t. AV_S (RFC3339Nano t)) y \<Longrightarrow> x = y"
  by (cases x; cases y) simp_all

lemma number_inject: "a = Some (AV_N (itoa m)) \<Longrightarrow> a = Some (AV_N (itoa n)) \<Longrightarrow> m = n"
  by simp

lemma events_inject: "a = Some (AV_L (map event_attr es)) \<Longrightarrow> a = Some (AV_L (map event_attr fs)) \<Longrightarrow> es = fs"
  using inj_map_eq_map [of event_attr es fs] by (simp add: inj_on_def)

lemma fields_inject:
  assumes "list_all (\<lambda>(tag, v). P tag v) xs" and "list_all (\<lambda>(tag, v). P tag v) ys"
    and "map fst xs = map fst ys" and "\<And>tag v w. P tag v \<Longrightarrow> P tag w \<Longrightarrow> v = w"
  shows "xs = ys"
  using assms(1-3)
proof (induction xs arbitrary: ys)
  case (Cons x xs)
  then obtain y zs where ys: "ys = y # zs" by (cases ys) auto
  obtain t v where x: "x = (t, v)" by (cases x)
  obtain w where y: "y = (t, w)" using Cons.prems(3) ys x by (cases y) simp
  have "v = w" using Cons.prems(1,2) ys x y assms(4) [of t v w] by simp
  with Cons ys x y show ?case by simp
qed simp

lemma encodes_inject:
  assumes "encodes op it" and "encodes op' it"
  shows "op = op'"
proof -
  note e = assms [unfolded encodes_def]
  have plain: "plain_fields op = plain_fields op'"
    by (rule fields_inject [of "plain it"]) (use e plain_inject in \<open>auto simp: plain_fields_def\<close>)
  have omit: "omitempty_fields op = omitempty_fields op'"
    by (rule fields_inject [of "omitempty it"]) (use e omitempty_inject in \<open>auto simp: omitempty_fields_def\<close>)
  have "Op_CompletedAt op = Op_CompletedAt op'" using e stamp_option_inject by metis
  moreover have "Op_ExpiresAt op = Op_ExpiresAt op'" using e number_inject by metis
  moreover have "Op_Events op = Op_Events op'" using e events_inject by metis
  ultimately show ?thesis
    using plain omit by (cases op; cases op') (simp add: plain_fields_def omitempty_fields_def)
qed

section \<open>Scans and the state\<close>

text \<open>A search over a client whose scans leave its state alone leaves it alone.\<close>

lemma find_loop_state:
  assumes "find_loop ds cd i start found d = Some y"
    and "\<And>q d r d'. Scan (ds_client ds) q d = (r, d') \<Longrightarrow> d' = d"
  shows "snd y = d"
proof -
  have "(\<forall>q d r d'. Scan (ds_client ds) q d = (r, d') \<longrightarrow> d' = d) \<longrightarrow> snd y = d"
  proof (rule find_loop.raw_induct [OF _ assms(1), where P = "\<lambda>ds cd i start found d y.
      (\<forall>q d r d'. Scan (ds_client ds) q d = (r, d') \<longrightarrow> d' = d) \<longrightarrow> snd y = d"], intro impI)
    fix loop :: "'a dynamoStore \<Rightarrow> codec \<Rightarrow> string \<Rightarrow> item option \<Rightarrow> Operation option \<Rightarrow> 'a \<Rightarrow> (Operation result \<times> 'a) option"
      and ds :: "'a dynamoStore" and cd i start found d y
    assume IH: "\<And>ds cd i start found d y. loop ds cd i start found d = Some y \<Longrightarrow>
        (\<forall>q d r d'. Scan (ds_client ds) q d = (r, d') \<longrightarrow> d' = d) \<longrightarrow> snd y = d"
      and body: "(case Scan (ds_client ds) (find_input ds i start) d of
        (Inl e, d1) \<Rightarrow> Some (Inl (Wrapf ''scan by operation_id: '' e ''''), d1)
      | (Inr out, d1) \<Rightarrow>
          (case find_items cd i (so_Items out) found of
             Inl e \<Rightarrow> Some (Inl e, d1)
           | Inr found1 \<Rightarrow>
               (case so_LastEvaluatedKey out of
                  None \<Rightarrow> Some (case found1 of None \<Rightarrow> Inl ErrNotFound | Some op \<Rightarrow> Inr op, d1)
                | Some k \<Rightarrow> loop ds cd i (Some k) found1 d1))) = Some y"
      and still: "\<forall>q d r d'. Scan (ds_client ds) q d = (r, d') \<longrightarrow> d' = d"
    obtain r d1 where scan: "Scan (ds_client ds) (find_input ds i start) d = (r, d1)" by (rule prod.exhaust)
    with still have "d1 = d" by blast
    with IH still scan body show "snd y = d" by (auto split: sum.splits option.splits)
  qed
  with assms(2) show ?thesis by blast
qed

end
