(* ===== verification/Kube_Client.thy ===== *)
theory Kube_Client
  imports Kube Go_Rfc3339 Go_Escape Go_Http
begin

text \<open>
  The client of \<^verbatim>\<open>internal/kube/client.go\<close>: construction, the restart and rollout patches, reads and watches.
  The typed deployment interface of client-go is the parameter \<open>deployments_api\<close>, a record of calls on the
  state \<open>'k\<close> of the API server; \<^verbatim>\<open>retry.RetryOnConflict\<close> is the parameter \<open>retry\<close>, with its documented
  behaviour as \<open>retries_conflicts\<close>. The client's own state is the clock it stamps from. Its
  methods together are an instance \<open>kube_client\<close> of the \<^verbatim>\<open>Kube\<close> interface.
\<close>

section \<open>The client\<close>

datatype patch_type = JSONPatchType | MergePatchType | StrategicMergePatchType | ApplyPatchType

record 'k deployments_api =
  dep_Patch :: "string \<Rightarrow> string \<Rightarrow> patch_type \<Rightarrow> string \<Rightarrow> 'k \<Rightarrow> Deployment result \<times> 'k"
  dep_Get :: "string \<Rightarrow> string \<Rightarrow> 'k \<Rightarrow> Deployment result \<times> 'k"
  dep_Watch :: "string \<Rightarrow> string \<Rightarrow> 'k \<Rightarrow> watch_event list result \<times> 'k"

record 'k kclient =
  kcl_clock :: clock
  kcl_remote :: 'k

definition NewFromConfig :: "('c \<Rightarrow> 'k deployments_api result) \<Rightarrow> 'c \<Rightarrow> 'k deployments_api result" where
  "NewFromConfig newForConfig cfg = (case newForConfig cfg of Inl e \<Rightarrow> Inl e | Inr cs \<Rightarrow> Inr cs)"

definition NewInCluster ::
  "'c result \<Rightarrow> ('c \<Rightarrow> 'k deployments_api result) \<Rightarrow> 'k deployments_api result" where
  "NewInCluster inClusterConfig newForConfig =
     (case inClusterConfig of
        Inl e \<Rightarrow> Inl (Wrapf ''in-cluster config: '' e '''')
      | Inr cfg \<Rightarrow> NewFromConfig newForConfig cfg)"

definition restartStamp :: "clock \<Rightarrow> string \<times> clock" where
  "restartStamp c = (case Now c of (t, c') \<Rightarrow> (RFC3339Nano t, c'))"

text \<open>The two patches, as \<^verbatim>\<open>fmt.Sprintf\<close> builds them\<close>

definition restart_patch :: "string \<Rightarrow> string" where
  \<open>restart_patch stamp =
     ''{"spec":{"template":{"metadata":{"annotations":{"kubectl.kubernetes.io/restartedAt":'' @ Quote stamp @
     ''}}}}}''\<close>

definition rollout_patch :: "string \<Rightarrow> string \<Rightarrow> string \<Rightarrow> string" where
  \<open>rollout_patch stamp container img =
     ''{"spec":{"template":{"metadata":{"annotations":{"kubectl.kubernetes.io/restartedAt":'' @ Quote stamp @
     ''}},"spec":{"containers":[{"name":'' @ Quote container @ '',"image":'' @ Quote img @ ''}]}}}}''\<close>

text \<open>One attempt: a fresh stamp and the call of \<^verbatim>\<open>Patch\<close>\<close>

definition patch_attempt ::
  "'k deployments_api \<Rightarrow> string \<Rightarrow> string \<Rightarrow> (string \<Rightarrow> string) \<Rightarrow> 'k kclient \<Rightarrow> go_error option \<times> 'k kclient" where
  "patch_attempt deps namespace name body st =
     (case restartStamp (kcl_clock st) of (stamp, c) \<Rightarrow>
       (case dep_Patch deps namespace name StrategicMergePatchType (body stamp) (kcl_remote st) of (r, k) \<Rightarrow>
         (case r of Inl e \<Rightarrow> Some e | Inr _ \<Rightarrow> None, st\<lparr>kcl_clock := c, kcl_remote := k\<rparr>)))"

type_synonym 'k retry =
  "('k kclient \<Rightarrow> go_error option \<times> 'k kclient) \<Rightarrow> 'k kclient \<Rightarrow> go_error option \<times> 'k kclient"

definition client_RestartDeployment ::
  "'k deployments_api \<Rightarrow> 'k retry \<Rightarrow> string \<Rightarrow> string \<Rightarrow> 'k kclient \<Rightarrow> go_error option \<times> 'k kclient" where
  "client_RestartDeployment deps retry namespace name st =
     retry (patch_attempt deps namespace name restart_patch) st"

definition client_RolloutDeployment ::
  "'k deployments_api \<Rightarrow> 'k retry \<Rightarrow> string \<Rightarrow> string \<Rightarrow> string \<Rightarrow> string \<Rightarrow> 'k kclient \<Rightarrow>
     go_error option \<times> 'k kclient" where
  "client_RolloutDeployment deps retry namespace name container img st =
     (if container = '''' \<or> img = '''' then (Some (Errorf ''rollout requires container and image''), st)
      else retry (patch_attempt deps namespace name (\<lambda>stamp. rollout_patch stamp container img)) st)"

definition on_remote :: "('k \<Rightarrow> 'r \<times> 'k) \<Rightarrow> 'k kclient \<Rightarrow> 'r \<times> 'k kclient" where
  "on_remote f st = (case f (kcl_remote st) of (r, k) \<Rightarrow> (r, st\<lparr>kcl_remote := k\<rparr>))"

definition client_GetDeployment ::
  "'k deployments_api \<Rightarrow> string \<Rightarrow> string \<Rightarrow> 'k kclient \<Rightarrow> Deployment result \<times> 'k kclient" where
  "client_GetDeployment deps namespace name = on_remote (dep_Get deps namespace name)"

definition client_WatchDeployment ::
  "'k deployments_api \<Rightarrow> string \<Rightarrow> string \<Rightarrow> 'k kclient \<Rightarrow> watch_event list result \<times> 'k kclient" where
  "client_WatchDeployment deps namespace name = on_remote (dep_Watch deps namespace (''metadata.name='' @ name))"

definition kube_client :: "'k deployments_api \<Rightarrow> 'k retry \<Rightarrow> 'k kclient kube_api" where
  "kube_client deps retry =
     \<lparr>RestartDeployment = client_RestartDeployment deps retry,
      RolloutDeployment = client_RolloutDeployment deps retry,
      GetDeployment = client_GetDeployment deps, WatchDeployment = client_WatchDeployment deps\<rparr>"

section \<open>Retrying on conflicts\<close>

text \<open>
  The documented behaviour of \<^verbatim>\<open>RetryOnConflict\<close>: it runs the function, and again after a wait as long as it
  fails with a conflict and attempts are left, and returns what the last run returned. \<open>attempts\<close> relates a
  state to what such a sequence of runs can end in.
\<close>

inductive attempts ::
  "(go_error \<Rightarrow> bool) \<Rightarrow> ('k kclient \<Rightarrow> go_error option \<times> 'k kclient) \<Rightarrow> 'k kclient \<Rightarrow>
     go_error option \<Rightarrow> 'k kclient \<Rightarrow> bool"
  for isConflict f where
    last: "f st = (r, st') \<Longrightarrow> attempts isConflict f st r st'"
  | again: "f st = (Some e, st1) \<Longrightarrow> isConflict e \<Longrightarrow> clk_now (kcl_clock st1) \<le> clk_now c \<Longrightarrow>
      attempts isConflict f (st1\<lparr>kcl_clock := c\<rparr>) r st' \<Longrightarrow> attempts isConflict f st r st'"

definition retries_conflicts :: "(go_error \<Rightarrow> bool) \<Rightarrow> 'k retry \<Rightarrow> bool" where
  "retries_conflicts isConflict retry \<longleftrightarrow>
     (\<forall>f st r st'. retry f st = (r, st') \<longrightarrow> attempts isConflict f st r st')"

text \<open>An instance: as many further attempts as given, without a wait.\<close>

primrec retry_at_once :: "(go_error \<Rightarrow> bool) \<Rightarrow> nat \<Rightarrow> 'k retry" where
  "retry_at_once isConflict 0 f st = f st"
| "retry_at_once isConflict (Suc n) f st =
     (case f st of (r, st1) \<Rightarrow>
       (case r of None \<Rightarrow> (None, st1)
        | Some e \<Rightarrow> if isConflict e then retry_at_once isConflict n f st1 else (Some e, st1)))"

lemma retry_at_once_attempts:
  "retry_at_once isConflict n f st = (r, st') \<Longrightarrow> attempts isConflict f st r st'"
proof (induction n arbitrary: st)
  case (Suc n)
  obtain r1 st1 where f: "f st = (r1, st1)" by (rule prod.exhaust)
  have [simp]: "st1\<lparr>kcl_clock := kcl_clock st1\<rparr> = st1" by simp
  show ?case
    using Suc f attempts.again [of f st _ st1 isConflict "kcl_clock st1" r st']
    by (auto intro: attempts.last split: option.splits if_splits)
qed (auto intro: attempts.last)

lemma retry_at_once_documented: "retries_conflicts isConflict (retry_at_once isConflict n)"
  unfolding retries_conflicts_def using retry_at_once_attempts by blast

text \<open>A successful call ends in an accepted patch whose stamp was read during the call.\<close>

definition accepted_patch ::
  "'k deployments_api \<Rightarrow> string \<Rightarrow> string \<Rightarrow> (string \<Rightarrow> string) \<Rightarrow> 'k kclient \<Rightarrow> 'k kclient \<Rightarrow> time \<Rightarrow> bool" where
  "accepted_patch deps namespace name body st st' t \<longleftrightarrow>
     (\<exists>k dep. dep_Patch deps namespace name StrategicMergePatchType (body (RFC3339Nano t)) k =
        (Inr dep, kcl_remote st')) \<and>
     clk_now (kcl_clock st) \<le> t \<and> t \<le> clk_now (kcl_clock st')"

lemma patch_attempt_accepted:
  assumes "patch_attempt deps namespace name body st = (None, st')"
  shows "accepted_patch deps namespace name body st st' (clk_now (kcl_clock st))"
  using assms
  by (auto simp: patch_attempt_def restartStamp_def Now_def accepted_patch_def split: prod.splits sum.splits) blast

lemma patch_attempt_clock:
  assumes "patch_attempt deps namespace name body st = (r, st')"
  shows "clk_now (kcl_clock st) \<le> clk_now (kcl_clock st')"
  using assms by (auto simp: patch_attempt_def restartStamp_def Now_def split: prod.splits)

lemma attempts_accepted:
  assumes "attempts isConflict (patch_attempt deps namespace name body) st r st'" and "r = None"
  shows "\<exists>t. accepted_patch deps namespace name body st st' t"
  using assms
proof (induction rule: attempts.induct)
  case (last st r st')
  then show ?case using patch_attempt_accepted by blast
next
  case (again st e st1 c r st')
  then obtain t where "accepted_patch deps namespace name body (st1\<lparr>kcl_clock := c\<rparr>) st' t" by blast
  with patch_attempt_clock [OF again.hyps(1)] again.hyps(3) show ?case
    by (auto simp: accepted_patch_def intro!: exI [of _ t])
qed

lemma attempts_error:
  assumes "attempts isConflict (patch_attempt deps namespace name body) st r st'" and "r = Some e"
  shows "\<exists>t k. dep_Patch deps namespace name StrategicMergePatchType (body (RFC3339Nano t)) k = (Inl e, kcl_remote st')"
  using assms
proof (induction rule: attempts.induct)
  case (last st r st')
  then show ?case
    by (auto simp: patch_attempt_def restartStamp_def split: prod.splits sum.splits) blast
qed

section \<open>Reading a patch as JSON\<close>

text \<open>
  How the receiver reads a patch: the part of the JSON grammar that the patches use, objects, arrays and
  strings without white space. The string escape for code units is left out, which \<^verbatim>\<open>%q\<close> does not write for
  ASCII text. The fuel bounds nesting and members; the length of the text is enough.
\<close>

definition json_escape :: "char \<Rightarrow> char option" where
  "json_escape e =
     (if e = CHR 0x22 \<or> e = CHR 0x5C \<or> e = CHR ''/'' then Some e
      else if e = CHR ''b'' then Some (CHR 0x08) else if e = CHR ''f'' then Some (CHR 0x0C)
      else if e = CHR ''n'' then Some (CHR 0x0A) else if e = CHR ''r'' then Some (CHR 0x0D)
      else if e = CHR ''t'' then Some (CHR 0x09) else None)"

fun json_chars :: "string \<Rightarrow> (string \<times> string) option" where
  "json_chars [] = None"
| "json_chars (c # s) =
     (if c = CHR 0x22 then Some ([], s)
      else if c = CHR 0x5C then
        (case s of [] \<Rightarrow> None
         | e # r \<Rightarrow> (case json_escape e of None \<Rightarrow> None | Some x \<Rightarrow> map_option (apfst (Cons x)) (json_chars r)))
      else if code c < 32 then None
      else map_option (apfst (Cons c)) (json_chars s))"

fun json_value :: "nat \<Rightarrow> string \<Rightarrow> (json \<times> string) option"
  and json_members :: "nat \<Rightarrow> string \<Rightarrow> ((string \<times> json) list \<times> string) option"
  and json_elems :: "nat \<Rightarrow> string \<Rightarrow> (json list \<times> string) option" where
  "json_value (Suc n) (c # s) =
     (if c = CHR 0x22 then map_option (apfst JStr) (json_chars s)
      else if c = CHR ''{'' then map_option (apfst JObj) (json_members n s)
      else if c = CHR ''['' then map_option (apfst JArr) (json_elems n s)
      else None)"
| "json_value _ _ = None"
| "json_members (Suc n) (q # s) =
     (if q = CHR 0x22 then
        (case json_chars s of
           Some (k, c # r) \<Rightarrow>
             (if c = CHR '':'' then
                (case json_value n r of
                   Some (v, d # t) \<Rightarrow>
                     (if d = CHR '','' then map_option (apfst (Cons (k, v))) (json_members n t)
                      else if d = CHR ''}'' then Some ([(k, v)], t) else None)
                 | _ \<Rightarrow> None)
              else None)
         | _ \<Rightarrow> None)
      else None)"
| "json_members _ _ = None"
| "json_elems (Suc n) s =
     (case json_value n s of
        Some (v, d # t) \<Rightarrow>
          (if d = CHR '','' then map_option (apfst (Cons v)) (json_elems n t)
           else if d = CHR '']'' then Some ([v], t) else None)
      | _ \<Rightarrow> None)"
| "json_elems 0 _ = None"

definition read_json :: "string \<Rightarrow> json option" where
  "read_json s = (case json_value (length s) s of Some (j, []) \<Rightarrow> Some j | _ \<Rightarrow> None)"

text \<open>The ASCII characters that \<^verbatim>\<open>%q\<close> writes in a way JSON has too\<close>

definition json_safe :: "char \<Rightarrow> bool" where
  "json_safe c \<longleftrightarrow> (32 \<le> code c \<and> code c \<noteq> 127) \<or> code c \<in> {8, 9, 10, 12, 13}"

definition ascii :: "string \<Rightarrow> bool" where
  "ascii s \<longleftrightarrow> (\<forall>c \<in> set s. code c < 128)"

lemma json_escape_bytes:
  "json_escape (CHR 0x22) = Some (CHR 0x22)" "json_escape (CHR 0x5C) = Some (CHR 0x5C)"
  "json_escape (CHR ''b'') = Some (CHR 0x08)" "json_escape (CHR ''f'') = Some (CHR 0x0C)"
  "json_escape (CHR ''n'') = Some (CHR 0x0A)" "json_escape (CHR ''r'') = Some (CHR 0x0D)"
  "json_escape (CHR ''t'') = Some (CHR 0x09)" "json_escape (CHR ''a'') = None"
  "json_escape (CHR ''v'') = None" "json_escape (CHR ''x'') = None"
  by (simp_all add: json_escape_def)

lemma json_chars_quote_byte:
  "json_chars (quote_byte c @ r) =
     (if json_safe c then map_option (apfst (Cons c)) (json_chars r) else None)"
proof -
  have eqs: "code (CHR 0x22) = 34" "code (CHR 0x5C) = 92" "code (CHR 0x07) = 7" "code (CHR 0x08) = 8"
    "code (CHR 0x0C) = 12" "code (CHR 0x0A) = 10" "code (CHR 0x0D) = 13" "code (CHR 0x09) = 9" "code (CHR 0x0B) = 11"
    by (simp_all add: code_def)
  show ?thesis
  proof (cases "c \<in> {CHR 0x22, CHR 0x5C, CHR 0x07, CHR 0x08, CHR 0x0C, CHR 0x0A, CHR 0x0D, CHR 0x09, CHR 0x0B}")
    case True
    then show ?thesis
      by (elim insertE emptyE) (simp_all add: quote_byte_def json_escape_bytes json_safe_def eqs)
  next
    case False
    then have "code c \<noteq> 34" "code c \<noteq> 92" "code c \<noteq> 7" "code c \<noteq> 8" "code c \<noteq> 12" "code c \<noteq> 10" "code c \<noteq> 13"
      "code c \<noteq> 9" "code c \<noteq> 11"
      unfolding eqs [symmetric] code_inject by simp_all
    with False show ?thesis
      by (simp add: quote_byte_def json_safe_def json_escape_bytes)
  qed
qed

lemma json_chars_quote:
  "json_chars (concat (map quote_byte s) @ CHR 0x22 # r) = (if list_all json_safe s then Some (s, r) else None)"
  by (induction s) (simp_all add: json_chars_quote_byte)

lemma json_value_Quote:
  "json_value (Suc n) (Quote s @ r) = (if list_all json_safe s then Some (JStr s, r) else None)"
  by (simp add: Quote_def json_chars_quote)

text \<open>What the two patches say\<close>

definition obj1 :: "string \<Rightarrow> json \<Rightarrow> json" where
  "obj1 k v = JObj [(k, v)]"

definition restart_object :: "string \<Rightarrow> json" where
  "restart_object stamp =
     obj1 ''spec'' (obj1 ''template'' (obj1 ''metadata'' (obj1 ''annotations''
       (obj1 ''kubectl.kubernetes.io/restartedAt'' (JStr stamp)))))"

definition rollout_object :: "string \<Rightarrow> string \<Rightarrow> string \<Rightarrow> json" where
  "rollout_object stamp container img =
     obj1 ''spec'' (obj1 ''template'' (JObj
       [(''metadata'', obj1 ''annotations'' (obj1 ''kubectl.kubernetes.io/restartedAt'' (JStr stamp))),
        (''spec'', obj1 ''containers'' (JArr [JObj [(''name'', JStr container), (''image'', JStr img)]]))]))"

abbreviation suc6 :: "nat \<Rightarrow> nat" where
  "suc6 n \<equiv> Suc (Suc (Suc (Suc (Suc (Suc n)))))"

lemma restart_patch_value:
  "json_value (suc6 (suc6 (suc6 n))) (restart_patch stamp) =
     (if list_all json_safe stamp then Some (restart_object stamp, []) else None)"
  unfolding restart_patch_def by (simp add: json_value_Quote code_def restart_object_def obj1_def)

lemma rollout_patch_value:
  "json_value (suc6 (suc6 (suc6 n))) (rollout_patch stamp container img) =
     (if list_all json_safe stamp \<and> list_all json_safe container \<and> list_all json_safe img
      then Some (rollout_object stamp container img, []) else None)"
  unfolding rollout_patch_def by (simp add: json_value_Quote code_def rollout_object_def obj1_def)

lemma read_json_fuel:
  assumes "\<And>n. json_value (suc6 (suc6 (suc6 n))) s = v" and "18 \<le> length s"
  shows "read_json s = (case v of Some (j, []) \<Rightarrow> Some j | _ \<Rightarrow> None)"
proof -
  obtain n where "length s = 18 + n" using assms(2) le_Suc_ex by blast
  then have "length s = suc6 (suc6 (suc6 n))" by simp
  then show ?thesis unfolding read_json_def using assms(1) by simp
qed

lemma stamp_safe: "list_all json_safe (RFC3339Nano t)"
proof -
  have num: "list_all json_safe (pad w n)" for w n
    unfolding list_all_iff json_safe_def code_def using pad_digits by fastforce
  have int: "list_all json_safe (appendInt x w)" for x w
    by (simp add: appendInt_def num) (simp add: json_safe_def code_def)
  have frac: "list_all json_safe (fraction n)" for n
  proof -
    have "list_all json_safe (rev (dropWhile P (rev (pad 9 n))))" for P
      using num [of 9 n] by (auto simp: list_all_iff dest: set_dropWhileD)
    moreover have "json_safe CHR ''.''" by (simp add: json_safe_def code_def)
    ultimately show ?thesis by (simp add: fraction_def)
  qed
  show ?thesis by (simp add: RFC3339Nano_def stamp_fields_def int frac Let_def) (simp add: json_safe_def code_def)
qed

lemma read_restart_patch: "read_json (restart_patch (RFC3339Nano t)) = Some (restart_object (RFC3339Nano t))"
  by (subst read_json_fuel [OF restart_patch_value]) (simp_all add: stamp_safe restart_patch_def)

lemma read_rollout_patch:
  "read_json (rollout_patch (RFC3339Nano t) container img) =
     (if list_all json_safe container \<and> list_all json_safe img
      then Some (rollout_object (RFC3339Nano t) container img) else None)"
  by (subst read_json_fuel [OF rollout_patch_value]) (simp_all add: stamp_safe rollout_patch_def)

section \<open>Properties\<close>

text \<open>C13. What a rollout asks of the cluster is exactly the requested container and image: read as JSON, the
  patch for any ASCII container name and image either sets the image of that one container and the
  restart annotation, or, when one of the two contains a control character that JSON has no
  short escape for, is not JSON at all and is rejected whole. No name or image can add a field
  to the patch.\<close>

theorem rollout_patch_no_injection:
  assumes "ascii container" and "ascii img"
  shows "read_json (rollout_patch (RFC3339Nano t) container img) =
    (if \<forall>c \<in> set (container @ img). json_safe c
     then Some (rollout_object (RFC3339Nano t) container img) else None)"
  by (auto simp: read_rollout_patch list_all_iff)

theorem rollout_patch_no_injection_witness:
  "read_json (rollout_patch (RFC3339Nano 0) ''api'' [CHR 0x22, CHR 0x7D]) =
     Some (rollout_object (RFC3339Nano 0) ''api'' [CHR 0x22, CHR 0x7D])"
  using rollout_patch_no_injection [of "''api''" "[CHR 0x22, CHR 0x7D]" 0]
  by (simp add: ascii_def json_safe_def code_def)

text \<open>C17. A restart or a rollout always changes the pod template, even one to the image that is already
  running: each successful call ended with a patch the API server accepted, stamped with an
  instant of that call, and two successful calls of which one began strictly after the other
  had ended carry different annotations.\<close>

theorem accepted_patches_differ:
  assumes "retries_conflicts isConflict retry"
    and "RestartDeployment (kube_client deps retry) ns dep st1 = (None, st2) \<or>
      RolloutDeployment (kube_client deps retry) ns dep container img st1 = (None, st2)"
    and "clk_now (kcl_clock st2) < clk_now (kcl_clock st3)"
    and "RestartDeployment (kube_client deps retry) ns dep st3 = (None, st4) \<or>
      RolloutDeployment (kube_client deps retry) ns dep container img st3 = (None, st4)"
  shows "\<exists>t u. RFC3339Nano t \<noteq> RFC3339Nano u \<and>
    (accepted_patch deps ns dep restart_patch st1 st2 t \<or>
     accepted_patch deps ns dep (\<lambda>s. rollout_patch s container img) st1 st2 t) \<and>
    (accepted_patch deps ns dep restart_patch st3 st4 u \<or>
     accepted_patch deps ns dep (\<lambda>s. rollout_patch s container img) st3 st4 u)"
proof -
  have call: "\<exists>t. accepted_patch deps ns dep restart_patch st st' t \<or>
      accepted_patch deps ns dep (\<lambda>s. rollout_patch s container img) st st' t"
    if "RestartDeployment (kube_client deps retry) ns dep st = (None, st') \<or>
      RolloutDeployment (kube_client deps retry) ns dep container img st = (None, st')" for st st'
    using that
  proof
    assume "RestartDeployment (kube_client deps retry) ns dep st = (None, st')"
    then have "attempts isConflict (patch_attempt deps ns dep restart_patch) st None st'"
      using assms(1) by (simp add: kube_client_def client_RestartDeployment_def retries_conflicts_def)
    from attempts_accepted [OF this refl] show ?thesis by blast
  next
    assume "RolloutDeployment (kube_client deps retry) ns dep container img st = (None, st')"
    then have "attempts isConflict (patch_attempt deps ns dep (\<lambda>s. rollout_patch s container img)) st None st'"
      using assms(1)
      by (simp add: kube_client_def client_RolloutDeployment_def retries_conflicts_def split: if_splits)
    from attempts_accepted [OF this refl] show ?thesis by blast
  qed
  obtain t u where t: "accepted_patch deps ns dep restart_patch st1 st2 t \<or>
      accepted_patch deps ns dep (\<lambda>s. rollout_patch s container img) st1 st2 t"
    and u: "accepted_patch deps ns dep restart_patch st3 st4 u \<or>
      accepted_patch deps ns dep (\<lambda>s. rollout_patch s container img) st3 st4 u"
    using call [OF assms(2)] call [OF assms(4)] by auto
  have "t \<le> clk_now (kcl_clock st2)" "clk_now (kcl_clock st3) \<le> u"
    using t u by (auto simp: accepted_patch_def)
  with assms(3) have "RFC3339Nano t \<noteq> RFC3339Nano u" by simp
  with t u show ?thesis by blast
qed

text \<open>An API server that keeps the bodies it was sent and accepts them\<close>

definition sample_deployments :: "string list deployments_api" where
  "sample_deployments =
     \<lparr>dep_Patch = (\<lambda>ns name ty body k. (Inr sample_deployment, k @ [body])),
      dep_Get = (\<lambda>ns name k. (Inr sample_deployment, k)),
      dep_Watch = (\<lambda>ns sel k. (Inr [], k))\<rparr>"

definition sample_kclient :: "time \<Rightarrow> string list kclient" where
  "sample_kclient t =
     \<lparr>kcl_clock = \<lparr>clk_now = t, clk_work = (\<lambda>_. 0), clk_pick = (\<lambda>_. False), clk_tick = 0\<rparr>, kcl_remote = []\<rparr>"

definition sample_kube_client :: "string list kclient kube_api" where
  "sample_kube_client = kube_client sample_deployments (retry_at_once (\<lambda>_. False) 3)"

lemma sample_restart:
  "\<exists>st'. RestartDeployment sample_kube_client ns dep (sample_kclient t) = (None, st') \<and> clk_now (kcl_clock st') = t"
  by (simp add: sample_kube_client_def kube_client_def client_RestartDeployment_def patch_attempt_def restartStamp_def
      Now_def elapse_def sample_deployments_def sample_kclient_def numeral_3_eq_3)

theorem accepted_patches_differ_witness:
  "\<exists>st st' t u. RestartDeployment sample_kube_client ''b'' ''api'' (sample_kclient 0) = (None, st) \<and>
     RestartDeployment sample_kube_client ''b'' ''api'' (sample_kclient 1) = (None, st') \<and>
     RFC3339Nano t \<noteq> RFC3339Nano u \<and>
     (accepted_patch sample_deployments ''b'' ''api'' restart_patch (sample_kclient 0) st t \<or>
      accepted_patch sample_deployments ''b'' ''api'' (\<lambda>s. rollout_patch s '''' '''') (sample_kclient 0) st t) \<and>
     (accepted_patch sample_deployments ''b'' ''api'' restart_patch (sample_kclient 1) st' u \<or>
      accepted_patch sample_deployments ''b'' ''api'' (\<lambda>s. rollout_patch s '''' '''') (sample_kclient 1) st' u)"
proof -
  obtain st where a: "RestartDeployment sample_kube_client ''b'' ''api'' (sample_kclient 0) = (None, st)" "clk_now (kcl_clock st) = 0"
    using sample_restart by blast
  obtain st' where b: "RestartDeployment sample_kube_client ''b'' ''api'' (sample_kclient 1) = (None, st')"
    using sample_restart by blast
  have later: "clk_now (kcl_clock st) < clk_now (kcl_clock (sample_kclient 1))" using a(2) by (simp add: sample_kclient_def)
  from accepted_patches_differ [where container = "''''" and img = "''''", OF retry_at_once_documented
      disjI1 [OF a(1) [unfolded sample_kube_client_def]] later disjI1 [OF b [unfolded sample_kube_client_def]]] a(1) b
  show ?thesis by blast
qed

text \<open>A rollout with no container or no image is refused before anything reaches the cluster, and every
  other call fails only with an error that the API server returned to its last attempt.\<close>

lemma client_Rollout_errors:
  assumes "retries_conflicts isConflict retry"
    and "client_RolloutDeployment deps retry ns dep container img st = (Some e, st')"
  shows "if container = '''' \<or> img = '''' then e = Errorf ''rollout requires container and image'' \<and> st' = st
    else \<exists>t k. dep_Patch deps ns dep StrategicMergePatchType (rollout_patch (RFC3339Nano t) container img) k =
      (Inl e, kcl_remote st')"
proof (cases "container = '''' \<or> img = ''''")
  case True
  with assms(2) show ?thesis by (auto simp: client_RolloutDeployment_def)
next
  case False
  have "attempts isConflict (patch_attempt deps ns dep (\<lambda>s. rollout_patch s container img)) st (Some e) st'"
    using assms False by (simp add: client_RolloutDeployment_def retries_conflicts_def)
  from attempts_error [OF this refl] False show ?thesis by simp
qed

end
