(* ===== verification/Gateway_Boot.thy ===== *)
theory Gateway_Boot
  imports Gateway_Main Api Store_Dynamo Kube_Client Manager_Correct
begin

text \<open>
  The start of the process, \<^verbatim>\<open>main\<close> of \<^verbatim>\<open>cmd/gateway/main.go\<close>: what it builds, from which variables, in which
  order, and where it gives up. Everything outside the repository that it calls is a field of the record
  \<open>platform\<close>. What \<^verbatim>\<open>main\<close> does once everything is built is in \<open>Gateway_Run\<close>.
\<close>

definition oidcIssuer :: string where
  "oidcIssuer = ''https://token.actions.githubusercontent.com''"

definition audience :: string where
  "audience = ''https://gateway.tuando.app''"

record ('kcfg, 'k, 'prov, 'token, 'acfg, 'd) platform =
  pf_getenv :: "string \<Rightarrow> string"
  pf_readFile :: "string \<Rightarrow> string result"
  pf_parsePolicy :: "string \<Rightarrow> Policy result"
  pf_newProvider :: "string \<Rightarrow> 'prov result"
  pf_verifierFor :: "'prov \<Rightarrow> string \<Rightarrow> string \<Rightarrow> 'token result"
  pf_claims :: "'token \<Rightarrow> GitHubIdentity result"
  pf_inClusterConfig :: "'kcfg result"
  pf_newForConfig :: "'kcfg \<Rightarrow> 'k deployments_api result"
  pf_retry :: "'k retry"
  pf_loadDefaultConfig :: "'acfg result"
  pf_newDynamo :: "'acfg \<Rightarrow> 'd dynamo_api"
  pf_codec :: codec

text \<open>The authorizer of a backend; only the Keycloak one can be asked whether it is ready.\<close>

definition backend_authorizer :: "'h http_env \<Rightarrow> backend \<Rightarrow> 'h backend_state authorizer" where
  "backend_authorizer henv b =
     \<lparr>Authorize = authorizer_of henv b,
      Ready = (case b of
          KeycloakBackend cfg \<Rightarrow>
            Some (\<lambda>ctx st. case st of (c, u, s, lg) \<Rightarrow>
              (case on_clock (kc_Ready henv cfg ctx) (c, s) of (r, c1, s1) \<Rightarrow> (r, c1, u, s1, lg)))
        | _ \<Rightarrow> None)\<rparr>"

record ('d, 'k, 'h) gateway =
  gw_addr :: string
  gw_deps :: "('d, 'k kclient, telegram, 'h backend_state) Deps"

definition notifier_config :: "(string \<Rightarrow> string) \<Rightarrow> notify_Config" where
  "notifier_config getenv =
     \<lparr>BotToken = getenv ''TELEGRAM_BOT_TOKEN'', ChatID = getenv ''TELEGRAM_CHAT_ID'',
      APIBase = getenv ''TELEGRAM_API_BASE''\<rparr>"

text \<open>The failure of a step is its log line and the error; the process then exits with status 1.\<close>

definition main_boot ::
  "'h http_env \<Rightarrow> ('kcfg, 'k, 'prov, 'token, 'acfg, 'd) platform \<Rightarrow> (string \<times> go_error) + ('d, 'k, 'h) gateway" where
  "main_boot henv pf =
     (let getenv = pf_getenv pf;
          policyPath = envOr getenv ''POLICY_PATH'' ''/etc/gateway/policy.yaml'';
          tbl = envOr getenv ''DYNAMO_TABLE'' ''deploy-gateway-operations'';
          addr = '':'' @ envOr getenv ''PORT'' ''8080''
      in
      case buildAuthorizer getenv (pf_readFile pf) (pf_parsePolicy pf) (getenv ''AUTHZ_BACKEND'') policyPath of
        Inl e \<Rightarrow> Inl (''authorization backend'', e)
      | Inr az \<Rightarrow>
      (case NewVerifier (pf_newProvider pf) (pf_verifierFor pf) oidcIssuer audience of
        Inl e \<Rightarrow> Inl (''oidc verifier'', e)
      | Inr verifier \<Rightarrow>
      (case NewInCluster (pf_inClusterConfig pf) (pf_newForConfig pf) of
        Inl e \<Rightarrow> Inl (''kubernetes client'', e)
      | Inr deps \<Rightarrow>
      (case NewDynamo (pf_loadDefaultConfig pf) (pf_newDynamo pf) tbl of
        Inl e \<Rightarrow> Inl (''dynamo store'', e)
      | Inr ds \<Rightarrow>
          let st = dynamo_store ds (pf_codec pf);
              notifier = fst (notify_New (notifier_config getenv));
              ops = NewManager (kube_client deps (pf_retry pf)) st (Some notifier) (10 * Minute)
          in Inr \<lparr>gw_addr = addr,
                  gw_deps = \<lparr>dp_Verifier = Verifier_Verify verifier (pf_claims pf),
                             dp_Authz = backend_authorizer henv az, dp_Ops = ops, dp_Store = st,
                             dp_AuthzTimeout = 0\<rparr>\<rparr>))))"

text \<open>The pieces of a gateway that has started\<close>

definition boot_table :: "('kcfg, 'k, 'prov, 'token, 'acfg, 'd) platform \<Rightarrow> string" where
  "boot_table pf = envOr (pf_getenv pf) ''DYNAMO_TABLE'' ''deploy-gateway-operations''"

lemma main_boot_parts:
  assumes "main_boot henv pf = Inr g"
  obtains az cfg verifier deps where
    "pf_loadDefaultConfig pf = Inr cfg"
    "dp_Store (gw_deps g) = dynamo_store \<lparr>ds_table = boot_table pf, ds_client = pf_newDynamo pf cfg\<rparr> (pf_codec pf)"
    "mgr_store (dp_Ops (gw_deps g)) = dp_Store (gw_deps g)"
    "mgr_notify (dp_Ops (gw_deps g)) = fst (notify_New (notifier_config (pf_getenv pf)))"
    "mgr_kube (dp_Ops (gw_deps g)) = kube_client deps (pf_retry pf)"
    "mgr_defaultDeadline (dp_Ops (gw_deps g)) = 10 * Minute"
    "dp_Verifier (gw_deps g) = Verifier_Verify verifier (pf_claims pf)"
    "dp_Authz (gw_deps g) = backend_authorizer henv az" "dp_AuthzTimeout (gw_deps g) = 0"
  using assms
  by (auto simp: main_boot_def Let_def NewDynamo_def NewManager_def boot_table_def durations split: sum.splits)

lemma notify_enabled:
  "getenv ''TELEGRAM_BOT_TOKEN'' \<noteq> '''' \<Longrightarrow> getenv ''TELEGRAM_CHAT_ID'' \<noteq> '''' \<Longrightarrow>
     fst (notify_New (notifier_config getenv)) = telegram_notifier"
  by (simp add: notify_New_def notifier_config_def Let_def)

end
