(* ===== verification/Dynamo_Correct.thy ===== *)
theory Dynamo_Correct
  imports Store_Dynamo
begin

text \<open>
  The DynamoDB store keeps the contract of a store. The locale \<open>dynamo_backend\<close> adds to the service what
  the store relies on of \<^verbatim>\<open>attributevalue\<close> and of the key schema; in it the scan loops are shown to return
  and the contract \<open>store_contract\<close> to hold, although scans may be stale: the terminal write
  rests on the condition of the update alone.
\<close>

section \<open>The expressions of the store\<close>

lemmas expression_eval = satisfies_def flush_def compare_def operand_def path_of_def

lemma find_filter:
  "satisfies ''#op = :op'' [(''#op'', ''operation_id'')] [('':op'', AV_S i)] it \<longleftrightarrow>
     it ''operation_id'' = Some (AV_S i)"
  by (auto simp: expression_eval split: option.splits)

lemma list_filter:
  "satisfies ''#st = :running AND requested_at < :t'' [(''#st'', ''status'')]
       [('':running'', AV_S StatusRunning), ('':t'', AV_S t)] it \<longleftrightarrow>
     it ''status'' = Some (AV_S StatusRunning) \<and> (\<exists>r. it ''requested_at'' = Some (AV_S r) \<and> r < t)"
  by (auto simp: expression_eval split: option.splits attr.splits)

lemma update_condition:
  "satisfies ''#st = :running'' [(''#st'', ''status'')] (update_values upd) it \<longleftrightarrow>
     it ''status'' = Some (AV_S StatusRunning)"
  by (auto simp: expression_eval update_values_def split: option.splits)

lemma update_tokens:
  "tokens [] update_expr =
     [''SET'', ''#st'', ''='', '':st'', '','', ''events'', ''='', ''list_append'', ''('', ''if_not_exists'', ''('',
      ''events'', '','', '':empty'', '')'', '','', '':ev'', '')'', '','', ''error_code'', ''='', '':ec'', '','',
      ''error_message'', ''='', '':em'', '','', ''completed_at'', ''='', '':ca'']"
  by (simp add: update_expr_def flush_def)

definition terminal_item :: "item \<Rightarrow> attr list \<Rightarrow> TerminalUpdate \<Rightarrow> item" where
  "terminal_item it es upd =
     it(''completed_at'' \<mapsto> AV_S (RFC3339Nano (Upd_CompletedAt upd)), ''error_message'' \<mapsto> AV_S (Upd_ErrorMessage upd),
        ''error_code'' \<mapsto> AV_S (Upd_ErrorCode upd),
        ''events'' \<mapsto> AV_L (es @ [AV_M [(''event'', AV_S (Upd_Event upd)), (''at'', AV_S (RFC3339Nano (Upd_CompletedAt upd)))]]),
        ''status'' \<mapsto> AV_S (Upd_Status upd))"

lemma update_apply:
  assumes "it ''events'' = Some (AV_L es)"
  shows "apply_update update_expr [(''#st'', ''status'')] (update_values upd) it =
    Some (terminal_item it es upd)"
  unfolding apply_update_def update_tokens
  using assms
  by (simp add: update_values_def operand_def path_of_def list_append_def numeral_eq_Suc map_add_def fun_eq_iff
      terminal_item_def)

section \<open>Rows of a table\<close>

definition item_rows :: "item set \<Rightarrow> rows" where
  "item_rows T i =
     (if \<exists>op. Op_OperationID op = i \<and> (\<exists>it \<in> T. encodes op it)
      then Some (THE op. Op_OperationID op = i \<and> (\<exists>it \<in> T. encodes op it)) else None)"

text \<open>Every item is an operation, and no two items have the same operation id.\<close>

definition table_inv :: "item set \<Rightarrow> bool" where
  "table_inv T \<longleftrightarrow>
     (\<forall>it \<in> T. \<exists>op. encodes op it) \<and>
     (\<forall>it \<in> T. \<forall>it' \<in> T. it ''operation_id'' = it' ''operation_id'' \<longrightarrow> it = it')"

lemma encodes_id: "encodes op it \<Longrightarrow> it ''operation_id'' = Some (AV_S (Op_OperationID op))"
  by (simp add: encodes_def plain_fields_def plain_def)

lemma encodes_status: "encodes op it \<Longrightarrow> it ''status'' = Some (AV_S (Op_Status op))"
  by (simp add: encodes_def plain_fields_def plain_def)

lemma encodes_requested: "encodes op it \<Longrightarrow> it ''requested_at'' = Some (AV_S (RFC3339Nano (Op_RequestedAt op)))"
  by (simp add: encodes_def plain_fields_def plain_def)

lemma table_inv_encodes:
  assumes "table_inv T" and "it \<in> T"
  obtains op where "encodes op it"
  using assms by (simp add: table_inv_def) blast

lemma table_inv_row:
  assumes "table_inv T" and "it \<in> T" and "encodes op it" and "it' \<in> T" and "encodes op' it'"
    and "Op_OperationID op = Op_OperationID op'"
  shows "it = it' \<and> op = op'"
  using assms encodes_id [OF assms(3)] encodes_id [OF assms(5)] encodes_inject
  by (metis table_inv_def)

lemma item_rows_iff:
  assumes "table_inv T"
  shows "item_rows T i = Some op \<longleftrightarrow> Op_OperationID op = i \<and> (\<exists>it \<in> T. encodes op it)"
proof -
  have unique: "op' = op''" if "Op_OperationID op' = i \<and> (\<exists>it \<in> T. encodes op' it)"
    and "Op_OperationID op'' = i \<and> (\<exists>it \<in> T. encodes op'' it)" for op' op''
    using that table_inv_row [OF assms] by metis
  show ?thesis
  proof
    assume some: "item_rows T i = Some op"
    then obtain op' where op': "Op_OperationID op' = i \<and> (\<exists>it \<in> T. encodes op' it)"
      by (auto simp: item_rows_def split: if_splits)
    have "(THE op. Op_OperationID op = i \<and> (\<exists>it \<in> T. encodes op it)) = op'"
      by (rule the_equality [of "\<lambda>op. Op_OperationID op = i \<and> (\<exists>it \<in> T. encodes op it)", OF op']) (rule unique [OF _ op'])
    with some op' show "Op_OperationID op = i \<and> (\<exists>it \<in> T. encodes op it)"
      by (auto simp: item_rows_def split: if_splits)
  next
    assume op: "Op_OperationID op = i \<and> (\<exists>it \<in> T. encodes op it)"
    have "(THE op. Op_OperationID op = i \<and> (\<exists>it \<in> T. encodes op it)) = op"
      by (rule the_equality [of "\<lambda>op. Op_OperationID op = i \<and> (\<exists>it \<in> T. encodes op it)", OF op]) (rule unique [OF _ op])
    with op show "item_rows T i = Some op" unfolding item_rows_def by metis
  qed
qed

lemma item_rows_None:
  assumes "table_inv T" and "item_rows T i = None" and "it \<in> T"
  shows "it ''operation_id'' \<noteq> Some (AV_S i)"
proof
  assume id: "it ''operation_id'' = Some (AV_S i)"
  obtain op where op: "encodes op it" using assms(1,3) by (auto simp: table_inv_def)
  with id encodes_id [OF op] have "Op_OperationID op = i" by simp
  with op assms(3) item_rows_iff [OF assms(1), of i op] have "item_rows T i = Some op" by blast
  with assms(2) show False by simp
qed

text \<open>Replacing the item of an operation, or adding one\<close>

lemma table_replace:
  assumes "table_inv T" and "encodes op it" and "Op_OperationID op = i"
    and "\<And>x. x \<in> S \<longleftrightarrow> x \<in> T \<and> x ''operation_id'' \<noteq> Some (AV_S i)"
  shows "table_inv (insert it S)" and "item_rows (insert it S) = (item_rows T)(i \<mapsto> op)"
proof -
  have id: "it ''operation_id'' = Some (AV_S i)" using encodes_id [OF assms(2)] assms(3) by simp
  show inv: "table_inv (insert it S)"
    using assms(1,2) id unfolding table_inv_def by (metis assms(4) insert_iff)
  have other: "Op_OperationID op' \<noteq> i" if "x \<in> S" and "encodes op' x" for x op'
    using that assms(4) encodes_id [OF that(2)] by auto
  have same: "x \<in> S" if "x \<in> T" and "encodes op' x" and "Op_OperationID op' \<noteq> i" for x op'
    using that assms(4) encodes_id [OF that(2)] by auto
  show "item_rows (insert it S) = (item_rows T)(i \<mapsto> op)"
  proof
    fix j
    have "item_rows (insert it S) j = Some op' \<longleftrightarrow> ((item_rows T)(i \<mapsto> op)) j = Some op'" for op'
    proof (cases "j = i")
      case True
      have "item_rows (insert it S) i = Some op" using item_rows_iff [OF inv, of i op] assms(2,3) by blast
      with True show ?thesis by simp
    next
      case False
      have "(\<exists>x \<in> insert it S. encodes op' x) \<longleftrightarrow> (\<exists>x \<in> T. encodes op' x)" if "Op_OperationID op' = j"
        using that False assms(3,4) same encodes_inject [OF assms(2)] by blast
      with False show ?thesis
        using item_rows_iff [OF inv, of j op'] item_rows_iff [OF assms(1), of j op'] by auto
    qed
    then show "item_rows (insert it S) j = ((item_rows T)(i \<mapsto> op)) j"
      by (metis not_None_eq)
  qed
qed

lemma encodes_terminal:
  assumes "encodes op it" and "it ''events'' = Some (AV_L es)"
  shows "encodes (terminal_row op upd (Upd_CompletedAt upd))
    (terminal_item it es upd)"
  using assms
  by (simp add: encodes_def plain_fields_def omitempty_fields_def plain_def omitempty_def terminal_row_def event_attr_def
      terminal_item_def)

text \<open>The terminal write of this store stamps the audit event with the completion time.\<close>

definition stamped_write :: "rows \<Rightarrow> string \<Rightarrow> TerminalUpdate \<Rightarrow> rows \<Rightarrow> bool" where
  "stamped_write R i upd R' \<longleftrightarrow>
     (\<exists>op. R i = Some op \<and> \<not> Terminal op \<and> R' = R(i \<mapsto> terminal_row op upd (Upd_CompletedAt upd)))"

lemma stamped_terminal: "stamped_write R i upd R' \<Longrightarrow> terminal_write R i upd R'"
  by (auto simp: stamped_write_def terminal_write_def)

section \<open>The contract\<close>

locale dynamo_backend = dynamo_service "ds_client ds" "ds_table ds" schema items ahead
  for ds :: "'d dynamoStore" and schema items ahead +
  fixes cd :: codec
  assumes marshal_encodes: "MarshalMap cd op = Inr it \<Longrightarrow> encodes op it"
    and unmarshal_id: "UnmarshalMap cd it = Inr op \<Longrightarrow> it ''operation_id'' = Some (AV_S i) \<Longrightarrow> Op_OperationID op = i"
    and unmarshal_encoded: "UnmarshalMap cd it = Inr op \<Longrightarrow> encodes op' it \<Longrightarrow> op = op'"
    and schema_known: "schema = [''operation_id''] \<or> schema = [''operation_id'', ''requested_at'']"
begin

lemma find_items_id:
  assumes "find_items cd i its found = Inr found'" and "\<And>it. it \<in> set its \<Longrightarrow> it ''operation_id'' = Some (AV_S i)"
    and "\<And>op. found = Some op \<Longrightarrow> Op_OperationID op = i"
  shows "found' = Some op \<Longrightarrow> Op_OperationID op = i"
  using assms
proof (induction its arbitrary: found)
  case (Cons it its)
  then obtain op' where op': "UnmarshalMap cd it = Inr op'" "found = None" "find_items cd i its (Some op') = Inr found'"
    by (auto split: sum.splits if_splits)
  have "Op_OperationID op' = i" using unmarshal_id [OF op'(1)] Cons.prems(3) by simp
  then show ?case using Cons.IH [OF Cons.prems(1) op'(3)] Cons.prems(3) by simp
qed simp

text \<open>A search returns, whatever the pages hold, and leaves the table alone.\<close>

lemma find_loop_returns:
  assumes "\<And>op. found = Some op \<Longrightarrow> Op_OperationID op = i"
  shows "\<exists>r d'. find_loop ds cd i start found d = Some (r, d') \<and> items d' = items d \<and>
    (\<forall>op. r = Inr op \<longrightarrow> Op_OperationID op = i)"
  using assms
proof (induction "ahead d start" arbitrary: d start found rule: less_induct)
  case less
  let ?q = "find_input ds i start"
  obtain r1 d1 where scan: "Scan (ds_client ds) ?q d = (r1, d1)" by (rule prod.exhaust)
  have same: "items d1 = items d" by (rule Scan_items [OF scan])
  show ?case
  proof (cases r1)
    case (Inl e)
    then show ?thesis using scan same by (simp add: find_loop.simps [of ds cd i start found d])
  next
    case (Inr out)
    have ids: "it \<in> set (so_Items out) \<Longrightarrow> it ''operation_id'' = Some (AV_S i)" for it
      using Scan_filter [OF scan [unfolded Inr], of "''#op = :op''" it] by (simp add: find_input_def find_filter)
    show ?thesis
    proof (cases "find_items cd i (so_Items out) found")
      case (Inl e)
      then show ?thesis using scan same \<open>r1 = Inr out\<close> by (simp add: find_loop.simps [of ds cd i start found d])
    next
      case (Inr found1)
      have found1: "found1 = Some op \<Longrightarrow> Op_OperationID op = i" for op
        using find_items_id [OF Inr] ids less.prems by blast
      show ?thesis
      proof (cases "so_LastEvaluatedKey out")
        case None
        then show ?thesis
          using scan same \<open>r1 = Inr out\<close> Inr found1 by (auto simp: find_loop.simps [of ds cd i start found d] split: option.splits)
      next
        case (Some k)
        have "ahead d1 (Some k) < ahead d start"
          using Scan_progress [OF scan [unfolded \<open>r1 = Inr out\<close>] _ Some] by (simp add: find_input_def)
        from less.hyps [OF this found1] same scan \<open>r1 = Inr out\<close> Inr Some show ?thesis
          by (simp add: find_loop.simps [of ds cd i start found d])
      qed
    qed
  qed
qed

lemma list_loop_returns:
  "\<exists>r d'. list_loop ds cd t start found d = Some (r, d') \<and> items d' = items d"
proof (induction "ahead d start" arbitrary: d start found rule: less_induct)
  case less
  let ?q = "list_input ds t start"
  obtain r1 d1 where scan: "Scan (ds_client ds) ?q d = (r1, d1)" by (rule prod.exhaust)
  have same: "items d1 = items d" by (rule Scan_items [OF scan])
  show ?case
  proof (cases r1)
    case (Inr out)
    have ahead: "ahead d1 (Some k) < ahead d start" if "so_LastEvaluatedKey out = Some k" for k
      using Scan_progress [OF scan [unfolded Inr] _ that] by (simp add: list_input_def)
    show ?thesis
      using scan same Inr less.hyps [OF ahead]
      by (auto simp: list_loop.simps [of ds cd t start found d] split: sum.splits option.splits)
  qed (use scan same in \<open>simp add: list_loop.simps [of ds cd t start found d]\<close>)
qed

lemma findOperation_spec:
  assumes "findOperation ds cd i d = (r, d')"
  shows "items d' = items d \<and> (\<forall>op. r = Inr op \<longrightarrow> Op_OperationID op = i)"
  using find_loop_returns [of None i None d] assms by (auto simp: findOperation_def until_done_def)

lemma put_rows_of:
  assumes "dynamo_PutOperation ds cd op d = (r, d')" and "table_inv (items d)"
    and "item_rows (items d) (Op_OperationID op) = None"
  shows "table_inv (items d') \<and> (if r = None then item_rows (items d') = (item_rows (items d))(Op_OperationID op \<mapsto> op)
    else item_rows (items d') = item_rows (items d) \<or> item_rows (items d') = (item_rows (items d))(Op_OperationID op \<mapsto> op))"
proof (cases "MarshalMap cd op")
  case (Inl e)
  then show ?thesis using assms(1,2) by (auto simp: dynamo_PutOperation_def)
next
  case (Inr av)
  let ?p = "\<lparr>pi_TableName = ds_table ds, pi_Item = av\<rparr>"
  obtain r1 d1 where put: "PutItem (ds_client ds) ?p d = (r1, d1)" by (rule prod.exhaust)
  note enc = marshal_encodes [OF Inr]
  have others: "x \<in> {x \<in> items d. key_of schema x \<noteq> key_of schema av} \<longleftrightarrow>
      x \<in> items d \<and> x ''operation_id'' \<noteq> Some (AV_S (Op_OperationID op))" for x
  proof -
    have "key_of schema x \<noteq> key_of schema av" if "x \<in> items d"
    proof
      assume eq: "key_of schema x = key_of schema av"
      have "x ''operation_id'' = av ''operation_id''"
        using fun_cong [OF eq, of "''operation_id''"] schema_known by (auto simp: key_of_def)
      then show False using item_rows_None [OF assms(2,3) that] encodes_id [OF enc] by simp
    qed
    then show ?thesis using item_rows_None [OF assms(2,3)] by blast
  qed
  note new = table_replace [OF assms(2) enc refl others]
  show ?thesis
  proof (cases r1)
    case None
    with put Inr assms(1) have "r = None" "d' = d1" by (simp_all add: dynamo_PutOperation_def)
    with PutItem_ok [OF put [unfolded None]] new show ?thesis by (simp add: put_item_def)
  next
    case (Some e)
    with put Inr assms(1) have "r \<noteq> None" "d' = d1" by (auto simp: dynamo_PutOperation_def)
    with PutItem_err [OF put [unfolded Some]] new assms(2) show ?thesis by (auto simp: put_item_def)
  qed
qed

lemma updated_row:
  assumes "table_inv T" and "key ''operation_id'' = Some (AV_S i)"
    and "updated schema (update_input ds upd key) T T'"
  shows "table_inv T' \<and> stamped_write (item_rows T) i upd (item_rows T')"
proof -
  have hash: "''operation_id'' \<in> set schema" using schema_known by auto
  obtain old it' where old: "case old of Some it \<Rightarrow> it \<in> T \<and> key_of schema it = key | None \<Rightarrow> key \<notin> key_of schema ` T"
    and cond: "(case old of Some it \<Rightarrow> it | None \<Rightarrow> Map.empty) ''status'' = Some (AV_S StatusRunning)"
    and new: "apply_update update_expr [(''#st'', ''status'')] (update_values upd)
        (case old of Some it \<Rightarrow> it | None \<Rightarrow> key) = Some it'"
    and T': "T' = insert it' {x \<in> T. key_of schema x \<noteq> key}"
    using assms(3) unfolding updated_def update_input_def UpdateItemInput.simps update_condition by blast
  obtain it where it: "old = Some it" using cond by (cases old) auto
  have T: "it \<in> T" and key: "key_of schema it = key" using old it by simp_all
  have id: "it ''operation_id'' = Some (AV_S i)"
    using assms(2) key hash unfolding key_of_def by (metis restrict_in)
  obtain op where op: "encodes op it" using assms(1) T by (auto simp: table_inv_def)
  have i: "Op_OperationID op = i" using encodes_id [OF op] id by simp
  have running: "\<not> Terminal op" using encodes_status [OF op] cond it by (simp add: Terminal_def)
  have events: "it ''events'' = Some (AV_L (map event_attr (Op_Events op)))" using op by (simp add: encodes_def)
  have enc: "encodes (terminal_row op upd (Upd_CompletedAt upd)) it'"
    using encodes_terminal [OF op events, of upd] new it update_apply [of it, OF events, of upd] by simp
  have others: "x \<in> {x \<in> T. key_of schema x \<noteq> key} \<longleftrightarrow> x \<in> T \<and> x ''operation_id'' \<noteq> Some (AV_S i)" for x
  proof -
    have "x ''operation_id'' = Some (AV_S i)" if "key_of schema x = key"
      using that assms(2) hash unfolding key_of_def by (metis restrict_in)
    moreover have "x = it" if "x \<in> T" and "x ''operation_id'' = Some (AV_S i)"
      using that assms(1) T id by (simp add: table_inv_def)
    ultimately show ?thesis using key by blast
  qed
  have "item_rows T i = Some op" using item_rows_iff [OF assms(1), of i op] i op T by blast
  moreover have "table_inv T'" and "item_rows T' = (item_rows T)(i \<mapsto> terminal_row op upd (Upd_CompletedAt upd))"
    using table_replace [OF assms(1) enc _ others] i unfolding T' by simp_all
  ultimately show ?thesis using running by (auto simp: stamped_write_def)
qed

lemma update_loop_rows:
  assumes "update_loop ds upd keys err d = (r, d')" and "table_inv (items d)"
    and "\<And>key. key \<in> set keys \<Longrightarrow> key ''operation_id'' = Some (AV_S i)"
  shows "table_inv (items d') \<and> (if r = Inr () then stamped_write (item_rows (items d)) i upd (item_rows (items d'))
    else items d' = items d \<or> stamped_write (item_rows (items d)) i upd (item_rows (items d')))"
  using assms
proof (induction keys arbitrary: err d)
  case (Cons key keys)
  obtain r1 d1 where upd: "UpdateItem (ds_client ds) (update_input ds upd key) d = (r1, d1)" by (rule prod.exhaust)
  have tbl: "ui_TableName (update_input ds upd key) = ds_table ds" by (simp add: update_input_def)
  have key: "key ''operation_id'' = Some (AV_S i)" using Cons.prems(3) by simp
  note row = updated_row [of "items d" key i upd, OF Cons.prems(2) key]
  show ?case
  proof (cases r1)
    case None
    with Cons.prems(1) upd have "r = Inr ()" "d' = d1" by simp_all
    then show ?thesis using row [OF UpdateItem_ok [OF upd [unfolded None] tbl]] by simp
  next
    case (Some e)
    show ?thesis
    proof (cases "isKeySchemaMismatch (Some e)")
      case True
      then have same: "items d1 = items d"
        using UpdateItem_invalid [OF upd [unfolded Some] tbl] by (simp add: isKeySchemaMismatch_def)
      have loop: "update_loop ds upd keys (Some e) d1 = (r, d')" using Cons.prems(1) upd Some True by simp
      have inv: "table_inv (items d1)" using Cons.prems(2) same by simp
      show ?thesis using Cons.IH [OF loop inv] Cons.prems(3) unfolding same by (metis list.set_intros(2))
    next
      case False
      then have "r = Inl (Some e)" "d' = d1" using Cons.prems(1) upd Some by simp_all
      with UpdateItem_err [OF upd [unfolded Some] tbl] row Cons.prems(2)
      show ?thesis by auto
    qed
  qed
qed auto

lemma update_keys_id: "Op_OperationID op = i \<Longrightarrow> key \<in> set (updateKeysFor op) \<Longrightarrow> key ''operation_id'' = Some (AV_S i)"
  by (auto simp: updateKeysFor_def Let_def split: if_splits)

lemma UpdateTerminal_rows:
  assumes "dynamo_UpdateTerminal ds cd i upd d = (r, d')" and "table_inv (items d)"
  shows "table_inv (items d') \<and> (if r = None then stamped_write (item_rows (items d)) i upd (item_rows (items d'))
    else items d' = items d \<or> stamped_write (item_rows (items d)) i upd (item_rows (items d')))"
proof -
  obtain r1 d1 where find: "findOperation ds cd i d = (r1, d1)" by (rule prod.exhaust)
  note found = findOperation_spec [OF find]
  show ?thesis
  proof (cases r1)
    case (Inl e)
    then show ?thesis using assms find found by (auto simp: dynamo_UpdateTerminal_def)
  next
    case (Inr op)
    obtain r2 d2 where loop: "update_loop ds upd (updateKeysFor op) None d1 = (r2, d2)" by (rule prod.exhaust)
    have "Op_OperationID op = i" using found Inr by simp
    then have "table_inv (items d2) \<and> (if r2 = Inr () then stamped_write (item_rows (items d1)) i upd (item_rows (items d2))
        else items d2 = items d1 \<or> stamped_write (item_rows (items d1)) i upd (item_rows (items d2)))"
      using update_loop_rows [OF loop, of i] update_keys_id assms(2) found by auto
    with assms found find Inr loop show ?thesis
      by (auto simp: dynamo_UpdateTerminal_def split: sum.splits)
  qed
qed

end

sublocale dynamo_backend \<subseteq> store_contract "dynamo_store ds cd" "\<lambda>d. item_rows (items d)" "\<lambda>d. table_inv (items d)"
proof
  fix s s' :: 'd and op :: Operation and i :: string and upd :: TerminalUpdate and now t :: time and e :: go_error
  assume inv: "table_inv (items s)"
  have put: "table_inv (items s') \<and> (if r = None then item_rows (items s') = (item_rows (items s))(Op_OperationID op \<mapsto> op)
      else item_rows (items s') = item_rows (items s) \<or> item_rows (items s') = (item_rows (items s))(Op_OperationID op \<mapsto> op))"
    if "PutOperation (dynamo_store ds cd) op s = (r, s')" and "item_rows (items s) (Op_OperationID op) = None" for r
    using that inv put_rows_of by (simp add: dynamo_store_def)
  show "table_inv (items s') \<and> item_rows (items s') = (item_rows (items s))(Op_OperationID op \<mapsto> op)"
    if "PutOperation (dynamo_store ds cd) op s = (None, s')" and "item_rows (items s) (Op_OperationID op) = None"
    using put [OF that] by simp
  show "table_inv (items s') \<and> (item_rows (items s') = item_rows (items s) \<or>
      item_rows (items s') = (item_rows (items s))(Op_OperationID op \<mapsto> op))"
    if "PutOperation (dynamo_store ds cd) op s = (Some e, s')" and "item_rows (items s) (Op_OperationID op) = None"
    using put [OF that] by simp
  show "table_inv (items s') \<and> item_rows (items s') = item_rows (items s)"
    if "GetOperation (dynamo_store ds cd) i s = (rg, s')" for rg
    using that inv findOperation_spec [of i s rg s'] by (simp add: dynamo_store_def dynamo_GetOperation_def)
  show "table_inv (items s') \<and> terminal_write (item_rows (items s)) i upd (item_rows (items s'))"
    if "UpdateTerminal (dynamo_store ds cd) i upd now s = (None, s')"
    using that inv UpdateTerminal_rows [of i upd s None s'] by (simp add: dynamo_store_def stamped_terminal)
  show "table_inv (items s') \<and> (item_rows (items s') = item_rows (items s) \<or>
      terminal_write (item_rows (items s)) i upd (item_rows (items s')))"
    if "UpdateTerminal (dynamo_store ds cd) i upd now s = (Some e, s')"
    using that inv UpdateTerminal_rows [of i upd s "Some e" s'] by (auto simp: dynamo_store_def stamped_terminal)
  show "table_inv (items s') \<and> item_rows (items s') = item_rows (items s)"
    if "ListRunningPastDeadline (dynamo_store ds cd) t s = (rl, s')" for rl
    using that inv list_loop_returns [of t None "[]" s]
    by (auto simp: dynamo_store_def dynamo_ListRunningPastDeadline_def until_done_def)
  show "table_inv (items s') \<and> item_rows (items s') = item_rows (items s)"
    if "Ping (dynamo_store ds cd) s = (rp, s')" for rp
    using that inv by (auto simp: dynamo_store_def dynamo_Ping_def split: prod.splits sum.splits dest!: Scan_items)
  show "keyed (item_rows (items s))" using item_rows_iff [OF inv] by (simp add: keyed_def)
qed

context dynamo_backend
begin

lemma keeps_contract: "store_contract (dynamo_store ds cd) (\<lambda>d. item_rows (items d)) (\<lambda>d. table_inv (items d))"
  by unfold_locales

end

end
