(* ===== verification/Dynamo_Fresh.thy ===== *)
theory Dynamo_Fresh
  imports Dynamo_Correct
begin

text \<open>
  The DynamoDB store over scans that read the present table: pages are consecutive pieces of one order of
  the items, a continuation key names the last item evaluated, and the last page has none. Then
  the loops see every item once, reads are fresh (\<open>fresh_store\<close>), and the sweep query is exact.
\<close>

section \<open>Positions in a scan\<close>

primrec after :: "string list \<Rightarrow> item list \<Rightarrow> item option \<Rightarrow> item list" where
  "after schema xs None = xs"
| "after schema xs (Some k) = tl (dropWhile (\<lambda>x. key_of schema x \<noteq> k) xs)"

lemma after_key:
  assumes "distinct (map (key_of schema) (a @ x # b))"
  shows "after schema (a @ x # b) (Some (key_of schema x)) = b"
proof -
  have "key_of schema x \<notin> key_of schema ` set a" using assms by simp
  then have "\<And>y. y \<in> set a \<Longrightarrow> key_of schema y \<noteq> key_of schema x" by (metis imageI)
  then have "dropWhile (\<lambda>y. key_of schema y \<noteq> key_of schema x) (a @ x # b) = x # b"
    by (simp add: dropWhile_append)
  then show ?thesis by simp
qed

lemma after_suffix: "\<exists>a. xs = a @ after schema xs start"
proof (cases start)
  case (Some k)
  let ?w = "dropWhile (\<lambda>x. key_of schema x \<noteq> k) xs" and ?t = "takeWhile (\<lambda>x. key_of schema x \<noteq> k) xs"
  show ?thesis
  proof (cases ?w)
    case Nil
    then have "after schema xs start = []" using Some by (simp only: after.simps list.sel)
    then show ?thesis by simp
  next
    case (Cons y ys)
    then have "xs = (?t @ [y]) @ ys" using takeWhile_dropWhile_id [of "\<lambda>x. key_of schema x \<noteq> k" xs] by simp
    then show ?thesis using Some Cons by (intro exI [of _ "?t @ [y]"]) simp
  qed
qed simp

lemma after_page:
  assumes "distinct (map (key_of schema) xs)" and "after schema xs start = seen @ rest" and "seen \<noteq> []"
  shows "after schema xs (Some (key_of schema (last seen))) = rest"
proof -
  obtain a where xs: "xs = a @ seen @ rest" using after_suffix assms(2) by metis
  have "xs = (a @ butlast seen) @ last seen # rest" using xs assms(3) by simp
  with assms(1) after_key [of schema "a @ butlast seen" "last seen" rest] show ?thesis by metis
qed

section \<open>Pages put together\<close>

lemma find_items_append:
  "find_items cd i (xs @ ys) found =
     (case find_items cd i xs found of Inl e \<Rightarrow> Inl e | Inr f \<Rightarrow> find_items cd i ys f)"
  by (induction xs arbitrary: found) (auto split: sum.splits)

lemma at_most_one:
  assumes "distinct xs" and "\<And>x y. x \<in> set xs \<Longrightarrow> y \<in> set xs \<Longrightarrow> x = y"
  shows "xs = [] \<or> (\<exists>x. xs = [x])"
proof (cases xs)
  case (Cons x ys)
  have "ys = []" using assms(1) assms(2) [of x "hd ys"] Cons by (cases ys) auto
  with Cons show ?thesis by simp
qed simp

definition find_result :: "Operation option result \<Rightarrow> Operation result" where
  "find_result x =
     (case x of Inl e \<Rightarrow> Inl e | Inr found \<Rightarrow> (case found of None \<Rightarrow> Inl ErrNotFound | Some op \<Rightarrow> Inr op))"

lemma list_items_append:
  "list_items cd (xs @ ys) found =
     (case list_items cd xs found of Inl e \<Rightarrow> Inl e | Inr f \<Rightarrow> list_items cd ys f)"
  by (induction xs arbitrary: found) (auto split: sum.splits)

lemma list_items_ops:
  assumes "list_items cd its found = Inr ops"
  shows "set ops = set found \<union> {op. \<exists>it \<in> set its. UnmarshalMap cd it = Inr op}"
  using assms
proof (induction its arbitrary: found)
  case (Cons it its)
  then obtain op where op: "UnmarshalMap cd it = Inr op" "list_items cd its (found @ [op]) = Inr ops"
    by (auto split: sum.splits)
  from Cons.IH [OF op(2)] op(1) show ?case by auto
qed simp

lemma list_items_decodes:
  assumes "list_items cd its found = Inr ops" and "it \<in> set its"
  shows "\<exists>op. UnmarshalMap cd it = Inr op"
  using assms by (induction its arbitrary: found) (auto split: sum.splits)

section \<open>Consistent scans\<close>

definition scan_failed :: "'d dynamoStore \<Rightarrow> go_error \<Rightarrow> bool" where
  "scan_failed ds e \<longleftrightarrow> (\<exists>q d d'. sc_TableName q = ds_table ds \<and> Scan (ds_client ds) q d = (Inl e, d'))"

definition named_item :: "string \<Rightarrow> item \<Rightarrow> bool" where
  "named_item i it \<longleftrightarrow> it ''operation_id'' = Some (AV_S i)"

definition overdue :: "time \<Rightarrow> item \<Rightarrow> bool" where
  "overdue t it \<longleftrightarrow> it ''status'' = Some (AV_S StatusRunning) \<and>
     (\<exists>r. it ''requested_at'' = Some (AV_S r) \<and> r < RFC3339Nano t)"

locale dynamo_consistent = dynamo_backend ds schema items ahead cd
  for ds :: "'d dynamoStore" and schema items ahead cd +
  fixes order :: "'d \<Rightarrow> item list"
  assumes order_items: "set (order d) = items d"
    and order_distinct: "distinct (map (key_of schema) (order d))"
    and Scan_order: "Scan (ds_client ds) q d = (r, d') \<Longrightarrow> order d' = order d"
    and Scan_page: "Scan (ds_client ds) q d = (Inr out, d') \<Longrightarrow> sc_TableName q = ds_table ds \<Longrightarrow>
      sc_FilterExpression q = Some f \<Longrightarrow>
      \<exists>seen rest. after schema (order d) (sc_ExclusiveStartKey q) = seen @ rest \<and>
        so_Items out = filter (satisfies f (sc_Names q) (sc_Values q)) seen \<and>
        (case so_LastEvaluatedKey out of
           None \<Rightarrow> rest = [] | Some k \<Rightarrow> seen \<noteq> [] \<and> key_of schema (last seen) = k)"
begin

lemma find_page:
  assumes "Scan (ds_client ds) (find_input ds i start) d = (Inr out, d1)"
  obtains seen rest where "after schema (order d) start = seen @ rest" and "so_Items out = filter (named_item i) seen"
    and "so_LastEvaluatedKey out = None \<longrightarrow> rest = []"
    and "\<forall>k. so_LastEvaluatedKey out = Some k \<longrightarrow> after schema (order d1) (Some k) = rest"
proof -
  obtain seen rest where p: "after schema (order d) start = seen @ rest" "so_Items out = filter (named_item i) seen"
    "case so_LastEvaluatedKey out of None \<Rightarrow> rest = [] | Some k \<Rightarrow> seen \<noteq> [] \<and> key_of schema (last seen) = k"
    using Scan_page [OF assms, of "''#op = :op''"]
    by (auto simp: find_input_def find_filter named_item_def [abs_def] cong: filter_cong)
  show thesis
    by (rule that [OF p(1,2)])
      (use p(3) after_page [OF order_distinct p(1)] Scan_order [OF assms] in \<open>auto split: option.splits\<close>)
qed

lemma list_page:
  assumes "Scan (ds_client ds) (list_input ds t start) d = (Inr out, d1)"
  obtains seen rest where "after schema (order d) start = seen @ rest" and "so_Items out = filter (overdue t) seen"
    and "so_LastEvaluatedKey out = None \<longrightarrow> rest = []"
    and "\<forall>k. so_LastEvaluatedKey out = Some k \<longrightarrow> after schema (order d1) (Some k) = rest"
proof -
  obtain seen rest where p: "after schema (order d) start = seen @ rest" "so_Items out = filter (overdue t) seen"
    "case so_LastEvaluatedKey out of None \<Rightarrow> rest = [] | Some k \<Rightarrow> seen \<noteq> [] \<and> key_of schema (last seen) = k"
    using Scan_page [OF assms, of "''#st = :running AND requested_at < :t''"]
    by (auto simp: list_input_def list_filter overdue_def [abs_def] cong: filter_cong)
  show thesis
    by (rule that [OF p(1,2)])
      (use p(3) after_page [OF order_distinct p(1)] Scan_order [OF assms] in \<open>auto split: option.splits\<close>)
qed

lemma find_loop_all:
  assumes "find_loop ds cd i start found d = Some (r, d')"
  shows "(\<exists>e. scan_failed ds e \<and> r = Inl (Wrapf ''scan by operation_id: '' e '''')) \<or>
    r = find_result (find_items cd i (filter (named_item i) (after schema (order d) start)) found)"
  using assms
proof (induction "ahead d start" arbitrary: d start found rule: less_induct)
  case less
  note loop = less.prems [unfolded find_loop.simps [of ds cd i start found d]]
  obtain r1 d1 where scan: "Scan (ds_client ds) (find_input ds i start) d = (r1, d1)" by (rule prod.exhaust)
  show ?case
  proof (cases r1)
    case (Inl e)
    have "sc_TableName (find_input ds i start) = ds_table ds" by (simp add: find_input_def)
    with scan Inl have "scan_failed ds e" unfolding scan_failed_def by blast
    with Inl show ?thesis using loop scan by auto
  next
    case (Inr out)
    obtain seen rest where page: "after schema (order d) start = seen @ rest" "so_Items out = filter (named_item i) seen"
      "so_LastEvaluatedKey out = None \<longrightarrow> rest = []"
      "\<forall>k. so_LastEvaluatedKey out = Some k \<longrightarrow> after schema (order d1) (Some k) = rest"
      by (rule find_page [OF scan [unfolded Inr]])
    show ?thesis
    proof (cases "find_items cd i (so_Items out) found")
      case (Inl e)
      then show ?thesis using loop scan \<open>r1 = Inr out\<close> page(1,2) by (simp add: find_items_append find_result_def)
    next
      case found1: (Inr found1)
      show ?thesis
      proof (cases "so_LastEvaluatedKey out")
        case None
        then show ?thesis using loop scan \<open>r1 = Inr out\<close> page found1 by (simp add: find_result_def split: option.splits)
      next
        case (Some k)
        have "ahead d1 (Some k) < ahead d start"
          using Scan_progress [OF scan [unfolded \<open>r1 = Inr out\<close>] _ Some] by (simp add: find_input_def)
        moreover have "find_loop ds cd i (Some k) found1 d1 = Some (r, d')"
          using loop scan \<open>r1 = Inr out\<close> found1 Some by simp
        ultimately have "(\<exists>e. scan_failed ds e \<and> r = Inl (Wrapf ''scan by operation_id: '' e '''')) \<or>
          r = find_result (find_items cd i (filter (named_item i) (after schema (order d1) (Some k))) found1)"
          by (rule less.hyps)
        with page(1,2,4) found1 Some show ?thesis by (simp add: find_items_append)
      qed
    qed
  qed
qed

lemma list_loop_all:
  assumes "list_loop ds cd t start found d = Some (Inr ops, d')"
  shows "list_items cd (filter (overdue t) (after schema (order d) start)) found = Inr ops"
  using assms
proof (induction "ahead d start" arbitrary: d start found rule: less_induct)
  case less
  obtain r1 d1 where scan: "Scan (ds_client ds) (list_input ds t start) d = (r1, d1)" by (rule prod.exhaust)
  obtain out where out: "r1 = Inr out" using less.prems scan by (cases r1) (auto simp: list_loop.simps [of ds cd t start found d])
  obtain seen rest where page: "after schema (order d) start = seen @ rest" "so_Items out = filter (overdue t) seen"
    "so_LastEvaluatedKey out = None \<longrightarrow> rest = []"
    "\<forall>k. so_LastEvaluatedKey out = Some k \<longrightarrow> after schema (order d1) (Some k) = rest"
    by (rule list_page [OF scan [unfolded out]])
  obtain found1 where f1: "list_items cd (so_Items out) found = Inr found1"
    using less.prems scan out
    by (cases "list_items cd (so_Items out) found") (auto simp: list_loop.simps [of ds cd t start found d])
  show ?case
  proof (cases "so_LastEvaluatedKey out")
    case None
    then have "found1 = ops"
      using less.prems scan out f1 by (simp add: list_loop.simps [of ds cd t start found d])
    with page None f1 show ?thesis by simp
  next
    case (Some k)
    have "ahead d1 (Some k) < ahead d start"
      using Scan_progress [OF scan [unfolded out] _ Some] by (simp add: list_input_def)
    moreover have "list_loop ds cd t (Some k) found1 d1 = Some (Inr ops, d')"
      using less.prems scan out f1 Some by (simp add: list_loop.simps [of ds cd t start found d])
    ultimately have "list_items cd (filter (overdue t) (after schema (order d1) (Some k))) found1 = Inr ops"
      by (rule less.hyps)
    with page(1,2,4) f1 Some show ?thesis by (simp add: list_items_append)
  qed
qed

text \<open>What a search returns, in terms of the rows\<close>

lemma named_at_most_one:
  assumes "table_inv (items d)"
  shows "filter (named_item i) (order d) = [] \<or> (\<exists>it. filter (named_item i) (order d) = [it])"
proof -
  have eq: "x = y" if "x \<in> set (filter (named_item i) (order d))" "y \<in> set (filter (named_item i) (order d))" for x y
    using that assms order_items by (auto simp: named_item_def table_inv_def)
  have "distinct (order d)" using order_distinct distinct_map by blast
  then have "distinct (filter (named_item i) (order d))" by simp
  then show ?thesis using eq by (rule at_most_one)
qed

lemma find_outcome:
  assumes "table_inv (items d)" and "findOperation ds cd i d = (r, d')"
  shows "(\<exists>e. scan_failed ds e \<and> r = Inl (Wrapf ''scan by operation_id: '' e '''')) \<or>
    (case item_rows (items d) i of
       None \<Rightarrow> r = Inl ErrNotFound
     | Some op \<Rightarrow> r = Inr op \<or>
         (\<exists>it e. encodes op it \<and> UnmarshalMap cd it = Inl e \<and> r = Inl (Wrapf ''unmarshal operation: '' e '''')))"
proof -
  have loop: "find_loop ds cd i None None d = Some (r, d')"
    using find_loop_returns [of None i None d] assms(2) by (auto simp: findOperation_def until_done_def)
  let ?its = "filter (named_item i) (order d)"
  have r: "(\<exists>e. scan_failed ds e \<and> r = Inl (Wrapf ''scan by operation_id: '' e '''')) \<or> r = find_result (find_items cd i ?its None)"
    using find_loop_all [OF loop] by simp
  consider "?its = []" | it where "?its = [it]" using named_at_most_one [OF assms(1)] by blast
  then show ?thesis
  proof cases
    case 1
    then have "item_rows (items d) i = None"
      using item_rows_iff [OF assms(1), of i] order_items encodes_id
      by (metis filter_empty_conv named_item_def not_None_eq)
    with r 1 show ?thesis by (auto simp: find_result_def)
  next
    case 2
    then have "it \<in> set ?its" by simp
    then have it: "it \<in> items d" "named_item i it" using order_items by auto
    obtain op where op: "encodes op it" by (rule table_inv_encodes [OF assms(1) it(1)])
    have row: "item_rows (items d) i = Some op"
      using item_rows_iff [OF assms(1), of i op] op it encodes_id [OF op] by (auto simp: named_item_def)
    show ?thesis
    proof (cases "UnmarshalMap cd it")
      case (Inl e)
      with r 2 row op show ?thesis by (auto simp: find_result_def)
    next
      case (Inr op')
      with unmarshal_encoded [OF Inr op] r 2 row show ?thesis by (auto simp: find_result_def)
    qed
  qed
qed

lemma find_fresh:
  assumes "table_inv (items d)" and "findOperation ds cd i d = (Inr op, d')"
  shows "item_rows (items d) i = Some op"
  using find_outcome [OF assms] by (auto split: option.splits)

lemma list_exact:
  assumes "table_inv (items d)" and "dynamo_ListRunningPastDeadline ds cd t d = (Inr ops, d')"
  shows "set ops = {op. item_rows (items d) (Op_OperationID op) = Some op \<and> \<not> Terminal op \<and>
    RFC3339Nano (Op_RequestedAt op) < RFC3339Nano t}"
proof -
  have "list_loop ds cd t None [] d = Some (Inr ops, d')"
    using list_loop_returns [of t None "[]" d] assms(2)
    by (auto simp: dynamo_ListRunningPastDeadline_def until_done_def)
  note all = list_loop_all [OF this, simplified]
  have decoded: "UnmarshalMap cd it = Inr op \<longleftrightarrow> encodes op it" if it: "it \<in> items d" "overdue t it" for it op
  proof -
    obtain op' where "encodes op' it" by (rule table_inv_encodes [OF assms(1) it(1)])
    then show ?thesis
      using list_items_decodes [OF all, of it] it order_items unmarshal_encoded encodes_inject by fastforce
  qed
  have st: "overdue t it \<longleftrightarrow> \<not> Terminal op \<and> RFC3339Nano (Op_RequestedAt op) < RFC3339Nano t" if "encodes op it" for it op
    using encodes_status [OF that] encodes_requested [OF that] by (auto simp: overdue_def Terminal_def)
  have "set ops = {op. \<exists>it \<in> items d. overdue t it \<and> UnmarshalMap cd it = Inr op}"
    using list_items_ops [OF all] order_items by auto
  also have "\<dots> = {op. \<exists>it \<in> items d. overdue t it \<and> encodes op it}" using decoded by blast
  also have "\<dots> = {op. (\<exists>it \<in> items d. encodes op it) \<and> \<not> Terminal op \<and> RFC3339Nano (Op_RequestedAt op) < RFC3339Nano t}"
    using st by blast
  finally show ?thesis using item_rows_iff [OF assms(1)] by simp
qed

end

sublocale dynamo_consistent \<subseteq> fresh_store "dynamo_store ds cd" "\<lambda>d. item_rows (items d)" "\<lambda>d. table_inv (items d)"
proof
  fix s s' :: 'd and op :: Operation and i :: string and t :: time
  assume inv: "table_inv (items s)"
  show "item_rows (items s) i = Some op" if "GetOperation (dynamo_store ds cd) i s = (Inr op, s')"
    using find_fresh [OF inv] that by (simp add: dynamo_store_def dynamo_GetOperation_def)
  show "item_rows (items s) (Op_OperationID op) = Some op \<and> \<not> Terminal op"
    if "ListRunningPastDeadline (dynamo_store ds cd) t s = (Inr ops, s')" and "op \<in> set ops" for ops
    using list_exact [OF inv] that by (simp add: dynamo_store_def)
qed

end
