(* ===== verification/Dynamo_Table.thy ===== *)
theory Dynamo_Table
  imports Dynamo_Fresh
begin

text \<open>
  A table that behaves as the service documents: items in scan order, pages of a bounded number of items,
  conditional updates by the expression language, validation of keys. It shows that the hypotheses on the SDK
  can hold, for both key schemas the store supports, and the theorems about the store are applied to
  it. The codec follows the struct tags; its decoder accepts what the encoder writes.
\<close>

section \<open>A codec\<close>

definition op_item :: "Operation \<Rightarrow> item" where
  "op_item op tag =
     (case map_of (plain_fields op) tag of
        Some v \<Rightarrow> Some (AV_S v)
      | None \<Rightarrow>
          (case map_of (omitempty_fields op) tag of
             Some v \<Rightarrow> if v = '''' then None else Some (AV_S v)
           | None \<Rightarrow>
               if tag = ''completed_at'' then map_option (\<lambda>t. AV_S (RFC3339Nano t)) (Op_CompletedAt op)
               else if tag = ''expires_at'' then Some (AV_N (itoa (Op_ExpiresAt op)))
               else if tag = ''events'' then Some (AV_L (map event_attr (Op_Events op)))
               else None))"

lemma encodes_op_item: "encodes op (op_item op)"
  by (simp add: encodes_def plain_fields_def omitempty_fields_def plain_def omitempty_def op_item_def)

definition str_of :: "item \<Rightarrow> string \<Rightarrow> string" where
  "str_of it tag = (case it tag of Some (AV_S s) \<Rightarrow> s | _ \<Rightarrow> '''')"

definition stamp_of :: "string \<Rightarrow> time" where
  "stamp_of s = (case read_stamp s of Some t \<Rightarrow> t | None \<Rightarrow> time_zero)"

definition read_int :: "string \<Rightarrow> int" where
  "read_int s = (case s of c # r \<Rightarrow> if c = CHR ''-'' then - int (value_of 0 r) else int (value_of 0 s) | [] \<Rightarrow> 0)"

definition event_of :: "attr \<Rightarrow> AuditEvent" where
  "event_of a =
     (case a of
        AV_M [(_, AV_S e), (_, AV_S t)] \<Rightarrow> \<lparr>Event = e, At = stamp_of t\<rparr>
      | _ \<Rightarrow> \<lparr>Event = '''', At = time_zero\<rparr>)"

definition item_operation :: "item \<Rightarrow> Operation" where
  "item_operation it =
     \<lparr>Op_OperationID = str_of it ''operation_id'', Op_Repository = str_of it ''repository'',
      Op_RepositoryID = str_of it ''repository_id'', Op_RepositoryOwner = str_of it ''repository_owner'',
      Op_Actor = str_of it ''actor'', Op_Workflow = str_of it ''workflow'',
      Op_WorkflowRef = str_of it ''workflow_ref'', Op_RunID = str_of it ''run_id'',
      Op_RunAttempt = str_of it ''run_attempt'', Op_EventName = str_of it ''event_name'',
      Op_Action = str_of it ''action'', Op_Namespace = str_of it ''namespace'',
      Op_Deployment = str_of it ''deployment'', Op_Container = str_of it ''container'',
      Op_Image = str_of it ''image'', Op_NsDep = str_of it ''ns_dep'', Op_Status = str_of it ''status'',
      Op_ErrorCode = str_of it ''error_code'', Op_ErrorMessage = str_of it ''error_message'',
      Op_RequestedAt = stamp_of (str_of it ''requested_at''),
      Op_CompletedAt = (case it ''completed_at'' of Some (AV_S s) \<Rightarrow> read_stamp s | _ \<Rightarrow> None),
      Op_ExpiresAt = (case it ''expires_at'' of Some (AV_N s) \<Rightarrow> read_int s | _ \<Rightarrow> 0),
      Op_Events = (case it ''events'' of Some (AV_L as) \<Rightarrow> map event_of as | _ \<Rightarrow> [])\<rparr>"

definition table_codec :: codec where
  "table_codec =
     \<lparr>MarshalMap = (\<lambda>op. Inr (op_item op)),
      UnmarshalMap = (\<lambda>it. let op = item_operation it in
        if encodes op it then Inr op else Inl (Typed ''UnmarshalTypeError'' ''unmarshal failed''))\<rparr>"

lemma read_int_itoa: "read_int (itoa n) = n"
proof (cases "n < 0")
  case False
  obtain c r where d: "digits_of (nat n) = c # r" using digits_nonempty by (cases "digits_of (nat n)") auto
  have "c \<noteq> CHR ''-''" using pad_no_sep(1) [of 0 "nat n"] d by (auto simp: pad_def)
  with False d value_of_digits [of "nat n"] show ?thesis by (simp add: itoa_def read_int_def)
qed (simp add: itoa_def read_int_def)

text \<open>An operation is read back when its times have four-digit years.\<close>

definition readable :: "Operation \<Rightarrow> bool" where
  "readable op \<longleftrightarrow> four_digit_year (Op_RequestedAt op) \<and> (\<forall>t. Op_CompletedAt op = Some t \<longrightarrow> four_digit_year t) \<and>
     (\<forall>e \<in> set (Op_Events op). four_digit_year (At e))"

lemma stamp_of_stamp: "four_digit_year t \<Longrightarrow> stamp_of (RFC3339Nano t) = t"
  by (simp add: stamp_of_def read_stamp_RFC3339Nano)

lemma event_of_attr: "four_digit_year (At e) \<Longrightarrow> event_of (event_attr e) = e"
  by (simp add: event_of_def event_attr_def stamp_of_stamp)

lemma str_of_plain: "plain it tag v \<Longrightarrow> str_of it tag = v"
  by (simp add: plain_def str_of_def)

lemma str_of_omitempty: "omitempty it tag v \<Longrightarrow> str_of it tag = v"
  by (auto simp: omitempty_def str_of_def)

lemma item_operation_encoded:
  assumes "encodes op it" and "readable op"
  shows "item_operation it = op"
proof -
  have r: "stamp_of (RFC3339Nano (Op_RequestedAt op)) = Op_RequestedAt op"
    using assms(2) by (simp add: readable_def stamp_of_stamp)
  have c: "(case map_option (\<lambda>t. AV_S (RFC3339Nano t)) (Op_CompletedAt op) of Some (AV_S s) \<Rightarrow> read_stamp s | _ \<Rightarrow> None) =
      Op_CompletedAt op"
    using assms(2) by (cases "Op_CompletedAt op") (simp_all add: readable_def read_stamp_RFC3339Nano)
  have e: "map (event_of \<circ> event_attr) (Op_Events op) = Op_Events op"
    using assms(2) by (intro map_idI) (simp add: readable_def event_of_attr)
  have p: "list_all (\<lambda>(tag, v). str_of it tag = v) (plain_fields op)"
    "list_all (\<lambda>(tag, v). str_of it tag = v) (omitempty_fields op)"
    using assms(1) by (auto simp: encodes_def list_all_iff str_of_plain str_of_omitempty)
  show ?thesis
    using p assms(1) r c e
    by (simp add: item_operation_def encodes_def plain_fields_def omitempty_fields_def read_int_itoa)
qed

lemma table_codec_reads: "encodes op it \<Longrightarrow> readable op \<Longrightarrow> UnmarshalMap table_codec it = Inr op"
  by (simp add: table_codec_def item_operation_encoded)

section \<open>A table\<close>

text \<open>The state lists items in scan order; a later item under the key of an earlier one is ignored.\<close>

fun scan_order :: "string list \<Rightarrow> item list \<Rightarrow> item list" where
  "scan_order schema [] = []"
| "scan_order schema (x # xs) = x # filter (\<lambda>y. key_of schema y \<noteq> key_of schema x) (scan_order schema xs)"

definition replace_item :: "string list \<Rightarrow> item \<Rightarrow> item \<Rightarrow> item list \<Rightarrow> item list" where
  "replace_item schema key it xs = filter (\<lambda>x. key_of schema x \<noteq> key) (scan_order schema xs) @ [it]"

definition ValidationException :: "string \<Rightarrow> go_error" where
  "ValidationException m = Errorf (''api error ValidationException: '' @ m)"

definition table_PutItem :: "string \<Rightarrow> string list \<Rightarrow> PutItemInput \<Rightarrow> item list \<Rightarrow> go_error option \<times> item list" where
  "table_PutItem tbl schema p xs =
     (if pi_TableName p \<noteq> tbl then (Some (Typed ''ResourceNotFoundException'' ''no such table''), xs)
      else (None, replace_item schema (key_of schema (pi_Item p)) (pi_Item p) xs))"

definition table_UpdateItem ::
  "string \<Rightarrow> string list \<Rightarrow> UpdateItemInput \<Rightarrow> item list \<Rightarrow> go_error option \<times> item list" where
  "table_UpdateItem tbl schema u xs =
     (if ui_TableName u \<noteq> tbl then (Some (Typed ''ResourceNotFoundException'' ''no such table''), xs)
      else if dom (ui_Key u) \<noteq> set schema
      then (Some (ValidationException ''The provided key element does not match the schema''), xs)
      else
        let old = find (\<lambda>x. key_of schema x = ui_Key u) (scan_order schema xs) in
        if satisfies (ui_ConditionExpression u) (ui_Names u) (ui_Values u)
             (case old of Some it \<Rightarrow> it | None \<Rightarrow> Map.empty)
        then (case apply_update (ui_UpdateExpression u) (ui_Names u) (ui_Values u)
                    (case old of Some it \<Rightarrow> it | None \<Rightarrow> ui_Key u) of
                None \<Rightarrow> (Some (ValidationException ''Invalid UpdateExpression''), xs)
              | Some it' \<Rightarrow>
                  if key_of schema it' = ui_Key u then (None, replace_item schema (ui_Key u) it' xs)
                  else (Some (ValidationException ''This attribute is part of the key''), xs))
        else (Some (Typed ''ConditionalCheckFailedException'' ''The conditional request failed''), xs))"

definition page_size :: "nat \<Rightarrow> ScanInput \<Rightarrow> nat" where
  "page_size page q = Suc (min page (nat (sc_Limit q) - 1))"

definition table_Scan ::
  "string \<Rightarrow> string list \<Rightarrow> nat \<Rightarrow> ScanInput \<Rightarrow> item list \<Rightarrow> ScanOutput result \<times> item list" where
  "table_Scan tbl schema page q xs =
     (if sc_TableName q \<noteq> tbl then (Inl (Typed ''ResourceNotFoundException'' ''no such table''), xs)
      else
        let rest = after schema (scan_order schema xs) (sc_ExclusiveStartKey q);
            n = page_size page q;
            found = (case sc_FilterExpression q of
                       None \<Rightarrow> take n rest
                     | Some f \<Rightarrow> filter (satisfies f (sc_Names q) (sc_Values q)) (take n rest))
        in (Inr \<lparr>so_Items = found,
                so_LastEvaluatedKey = (if n < length rest then Some (key_of schema (last (take n rest))) else None)\<rparr>, xs))"

definition table_sdk :: "string \<Rightarrow> string list \<Rightarrow> nat \<Rightarrow> item list dynamo_api" where
  "table_sdk tbl schema page =
     \<lparr>PutItem = table_PutItem tbl schema, UpdateItem = table_UpdateItem tbl schema, Scan = table_Scan tbl schema page\<rparr>"

definition table_store :: "string list \<Rightarrow> nat \<Rightarrow> item list dynamoStore" where
  "table_store schema page =
     \<lparr>ds_table = ''deploy-gateway-operations'',
      ds_client = table_sdk ''deploy-gateway-operations'' schema page\<rparr>"

definition table_items :: "string list \<Rightarrow> item list \<Rightarrow> item set" where
  "table_items schema xs = set (scan_order schema xs)"

definition table_ahead :: "string list \<Rightarrow> item list \<Rightarrow> item option \<Rightarrow> nat" where
  "table_ahead schema xs start = length (after schema (scan_order schema xs) start)"

lemma scan_order_distinct: "distinct (map (key_of schema) (scan_order schema xs))"
proof (induction xs)
  case (Cons x xs)
  then have "distinct (map (key_of schema) (filter P (scan_order schema xs)))" for P
    by (simp add: distinct_map_filter)
  then show ?case by auto
qed simp

lemma scan_order_id: "distinct (map (key_of schema) xs) \<Longrightarrow> scan_order schema xs = xs"
proof (induction xs)
  case (Cons x xs)
  have "filter (\<lambda>y. key_of schema y \<noteq> key_of schema x) xs = xs"
    using Cons.prems by (intro filter_True) (metis distinct.simps(2) image_eqI list.set_map list.simps(9))
  with Cons show ?case by simp
qed simp

lemma replace_item_order:
  assumes "key_of schema it = key"
  shows "scan_order schema (replace_item schema key it xs) = replace_item schema key it xs"
  unfolding replace_item_def using assms scan_order_distinct [of schema xs]
  by (intro scan_order_id) (auto simp: distinct_map_filter)

lemma replace_item_set:
  assumes "key_of schema it = key"
  shows "table_items schema (replace_item schema key it xs) = insert it {x \<in> table_items schema xs. key_of schema x \<noteq> key}"
  unfolding table_items_def replace_item_order [OF assms] by (auto simp: replace_item_def)

lemma table_update_effect:
  assumes "table_UpdateItem tbl schema u xs = (r, xs')" and "ui_TableName u = tbl"
  shows "if r = None then updated schema u (table_items schema xs) (table_items schema xs') else xs' = xs"
proof (cases r)
  case None
  let ?old = "find (\<lambda>x. key_of schema x = ui_Key u) (scan_order schema xs)"
  obtain it' where it': "apply_update (ui_UpdateExpression u) (ui_Names u) (ui_Values u)
      (case ?old of Some it \<Rightarrow> it | None \<Rightarrow> ui_Key u) = Some it'" "key_of schema it' = ui_Key u"
    "xs' = replace_item schema (ui_Key u) it' xs"
    "satisfies (ui_ConditionExpression u) (ui_Names u) (ui_Values u) (case ?old of Some it \<Rightarrow> it | None \<Rightarrow> Map.empty)"
    using assms None unfolding table_UpdateItem_def Let_def by (auto split: if_splits option.splits)
  have old: "case ?old of Some it \<Rightarrow> it \<in> table_items schema xs \<and> key_of schema it = ui_Key u
      | None \<Rightarrow> ui_Key u \<notin> key_of schema ` table_items schema xs"
    by (auto simp: table_items_def find_None_iff find_Some_iff split: option.splits)
  show ?thesis
    using None old it'(1,4) replace_item_set [OF it'(2), of xs] it'(3)
    unfolding updated_def by auto
next
  case (Some e)
  then show ?thesis using assms unfolding table_UpdateItem_def Let_def by (auto split: if_splits option.splits)
qed

lemma table_scan_page:
  assumes "table_Scan tbl schema page q xs = (Inr out, xs')"
  shows "xs' = xs" and "\<exists>seen rest. after schema (scan_order schema xs) (sc_ExclusiveStartKey q) = seen @ rest \<and>
    so_Items out = (case sc_FilterExpression q of None \<Rightarrow> seen | Some f \<Rightarrow> filter (satisfies f (sc_Names q) (sc_Values q)) seen) \<and>
    (case so_LastEvaluatedKey out of None \<Rightarrow> rest = [] | Some k \<Rightarrow> seen \<noteq> [] \<and> key_of schema (last seen) = k)"
proof -
  let ?rest = "after schema (scan_order schema xs) (sc_ExclusiveStartKey q)"
  let ?n = "page_size page q"
  have out: "so_Items out = (case sc_FilterExpression q of None \<Rightarrow> take ?n ?rest
      | Some f \<Rightarrow> filter (satisfies f (sc_Names q) (sc_Values q)) (take ?n ?rest))"
    "so_LastEvaluatedKey out = (if ?n < length ?rest then Some (key_of schema (last (take ?n ?rest))) else None)"
    "xs' = xs"
    using assms by (auto simp: table_Scan_def Let_def split: if_splits)
  show "xs' = xs" by (rule out)
  have "0 < ?n" by (simp add: page_size_def)
  then show "\<exists>seen rest. ?rest = seen @ rest \<and>
    so_Items out = (case sc_FilterExpression q of None \<Rightarrow> seen | Some f \<Rightarrow> filter (satisfies f (sc_Names q) (sc_Values q)) seen) \<and>
    (case so_LastEvaluatedKey out of None \<Rightarrow> rest = [] | Some k \<Rightarrow> seen \<noteq> [] \<and> key_of schema (last seen) = k)"
    using out by - (rule exI [of _ "take ?n ?rest"], rule exI [of _ "drop ?n ?rest"], auto)
qed

lemma table_scan_same: "table_Scan tbl schema page q xs = (r, xs') \<Longrightarrow> xs' = xs"
  by (auto simp: table_Scan_def Let_def split: if_splits)

lemma table_consistent:
  assumes "schema = [''operation_id''] \<or> schema = [''operation_id'', ''requested_at'']"
  shows "dynamo_consistent (table_store schema page) schema (table_items schema) (table_ahead schema) table_codec
    (scan_order schema)"
proof
  fix d d' :: "item list" and e :: go_error and r :: "ScanOutput result" and out :: ScanOutput
    and f :: string and it :: item and k :: item and op op' :: Operation and i :: string
  note defs = table_store_def table_sdk_def
  show "table_items schema d' = put_item schema (pi_Item p) (table_items schema d)"
    if "PutItem (ds_client (table_store schema page)) p d = (None, d')" "pi_TableName p = ds_table (table_store schema page)" for p
    using that replace_item_set [OF refl] by (auto simp: defs table_PutItem_def put_item_def)
  show "table_items schema d' = table_items schema d \<or> table_items schema d' = put_item schema (pi_Item p) (table_items schema d)"
    if "PutItem (ds_client (table_store schema page)) p d = (Some e, d')" for p
    using that by (auto simp: defs table_PutItem_def split: if_splits)
  show "updated schema u (table_items schema d) (table_items schema d')"
    if "UpdateItem (ds_client (table_store schema page)) u d = (None, d')" "ui_TableName u = ds_table (table_store schema page)" for u
    using that table_update_effect [of _ schema u d None d'] by (simp add: defs)
  show "table_items schema d' = table_items schema d \<or> updated schema u (table_items schema d) (table_items schema d')"
    if "UpdateItem (ds_client (table_store schema page)) u d = (Some e, d')" "ui_TableName u = ds_table (table_store schema page)" for u
    using that table_update_effect [of _ schema u d "Some e" d'] by (auto simp: defs)
  show "table_items schema d' = table_items schema d"
    if "UpdateItem (ds_client (table_store schema page)) u d = (Some e, d')" "ui_TableName u = ds_table (table_store schema page)" for u
    using that table_update_effect [of _ schema u d "Some e" d'] by (auto simp: defs)
  show "table_items schema d' = table_items schema d" if "Scan (ds_client (table_store schema page)) q d = (r, d')" for q
    using that by (auto simp: defs dest: table_scan_same)
  show "satisfies f (sc_Names q) (sc_Values q) it"
    if "Scan (ds_client (table_store schema page)) q d = (Inr out, d')" "sc_FilterExpression q = Some f" "it \<in> set (so_Items out)" for q
    using that table_scan_page(2) [of "''deploy-gateway-operations''" schema page q d out d'] by (auto simp: defs)
  show "table_ahead schema d' (Some k) < table_ahead schema d (sc_ExclusiveStartKey q)"
    if asm: "Scan (ds_client (table_store schema page)) q d = (Inr out, d')" "so_LastEvaluatedKey out = Some k" for q
  proof -
    have scan: "table_Scan ''deploy-gateway-operations'' schema page q d = (Inr out, d')" using asm by (simp add: defs)
    obtain seen rest where pg: "after schema (scan_order schema d) (sc_ExclusiveStartKey q) = seen @ rest"
      "seen \<noteq> []" "key_of schema (last seen) = k"
      using table_scan_page(2) [OF scan] asm(2) by auto
    from after_page [OF scan_order_distinct pg(1,2)] pg table_scan_same [OF scan] show ?thesis
      by (simp add: table_ahead_def)
  qed
  show "encodes op it" if "MarshalMap table_codec op = Inr it" using that encodes_op_item by (auto simp: table_codec_def)
  show "Op_OperationID op = i" if "UnmarshalMap table_codec it = Inr op" "it ''operation_id'' = Some (AV_S i)"
    using that by (auto simp: table_codec_def Let_def dest!: encodes_id split: if_splits)
  show "op = op'" if "UnmarshalMap table_codec it = Inr op" "encodes op' it"
    using that encodes_inject by (auto simp: table_codec_def Let_def split: if_splits)
  show "schema = [''operation_id''] \<or> schema = [''operation_id'', ''requested_at'']" by (rule assms)
  show "set (scan_order schema d) = table_items schema d" by (simp add: table_items_def)
  show "distinct (map (key_of schema) (scan_order schema d))" by (rule scan_order_distinct)
  show "scan_order schema d' = scan_order schema d" if "Scan (ds_client (table_store schema page)) q d = (r, d')" for q
    using that by (auto simp: defs dest: table_scan_same)
  show "\<exists>seen rest. after schema (scan_order schema d) (sc_ExclusiveStartKey q) = seen @ rest \<and>
      so_Items out = filter (satisfies f (sc_Names q) (sc_Values q)) seen \<and>
      (case so_LastEvaluatedKey out of None \<Rightarrow> rest = [] | Some k \<Rightarrow> seen \<noteq> [] \<and> key_of schema (last seen) = k)"
    if "Scan (ds_client (table_store schema page)) q d = (Inr out, d')" "sc_FilterExpression q = Some f" for q
    using that table_scan_page(2) [of "''deploy-gateway-operations''" schema page q d out d'] by (simp add: defs)
qed

interpretation hash_table: dynamo_consistent "table_store [''operation_id''] page" "[''operation_id'']"
    "table_items [''operation_id'']" "table_ahead [''operation_id'']" table_codec "scan_order [''operation_id'']" for page
  by (rule table_consistent) simp

interpretation sorted_table: dynamo_consistent "table_store [''operation_id'', ''requested_at''] page"
    "[''operation_id'', ''requested_at'']" "table_items [''operation_id'', ''requested_at'']"
    "table_ahead [''operation_id'', ''requested_at'']" table_codec "scan_order [''operation_id'', ''requested_at'']" for page
  by (rule table_consistent) simp

section \<open>The store over the table\<close>

text \<open>The table never fails a scan, so a search returns the row or says that there is none.\<close>

lemma table_no_scan_failure: "\<not> scan_failed (table_store schema page) e"
  by (auto simp: scan_failed_def table_store_def table_sdk_def table_Scan_def Let_def split: if_splits)

definition known_schema :: "string list \<Rightarrow> bool" where
  "known_schema schema \<longleftrightarrow> schema = [''operation_id''] \<or> schema = [''operation_id'', ''requested_at'']"

abbreviation table_rows :: "string list \<Rightarrow> item list \<Rightarrow> rows" where
  "table_rows schema xs \<equiv> item_rows (table_items schema xs)"

text \<open>What the table holds can be read back and updated.\<close>

definition usable :: "Operation \<Rightarrow> bool" where
  "usable op \<longleftrightarrow> readable op \<and> \<not> IsZero (Op_RequestedAt op)"

definition table_good :: "string list \<Rightarrow> item list \<Rightarrow> bool" where
  "table_good schema xs \<longleftrightarrow> known_schema schema \<and> table_inv (table_items schema xs) \<and>
     (\<forall>i op. table_rows schema xs i = Some op \<longrightarrow> usable op)"

lemma table_find:
  assumes "table_good schema xs"
  shows "findOperation (table_store schema page) table_codec i xs =
    (case table_rows schema xs i of None \<Rightarrow> Inl ErrNotFound | Some op \<Rightarrow> Inr op, xs)"
proof -
  obtain r xs' where find: "findOperation (table_store schema page) table_codec i xs = (r, xs')" by (rule prod.exhaust)
  have still: "Scan (ds_client (table_store schema page)) q d = (r, d') \<Longrightarrow> d' = d" for q d r d'
    by (auto simp: table_store_def table_sdk_def dest: table_scan_same)
  have "xs' = xs"
    using find find_loop_state [OF _ still] by (fastforce simp: findOperation_def until_done_def split: option.splits)
  moreover have "r = (case table_rows schema xs i of None \<Rightarrow> Inl ErrNotFound | Some op \<Rightarrow> Inr op)"
    using dynamo_consistent.find_outcome [OF table_consistent _ find] assms
      table_no_scan_failure [of schema page] table_codec_reads
    by (auto simp: table_good_def known_schema_def usable_def split: option.splits)
  ultimately show ?thesis using find by simp
qed

lemma table_update_item:
  assumes "table_inv (table_items schema xs)" and "it \<in> table_items schema xs" and "encodes op it"
    and "set schema \<subseteq> {''operation_id'', ''requested_at''}" and "set schema \<subseteq> dom it"
  shows "UpdateItem (ds_client (table_store schema page)) (update_input (table_store schema page) upd (key_of schema it)) xs =
    (if Terminal op then (Some (Typed ''ConditionalCheckFailedException'' ''The conditional request failed''), xs)
     else (None, replace_item schema (key_of schema it) (terminal_item it (map event_attr (Op_Events op)) upd) xs))"
proof -
  let ?new = "terminal_item it (map event_attr (Op_Events op)) upd"
  have dom: "dom (key_of schema it) = set schema" using assms(5) by (auto simp: key_of_def)
  have "find (\<lambda>x. key_of schema x = key_of schema it) (scan_order schema xs) = Some it"
  proof -
    obtain x where x: "find (\<lambda>x. key_of schema x = key_of schema it) (scan_order schema xs) = Some x"
      using assms(2) by (cases "find (\<lambda>x. key_of schema x = key_of schema it) (scan_order schema xs)")
        (auto simp: find_None_iff table_items_def)
    then have "x \<in> set (scan_order schema xs)" "key_of schema x = key_of schema it"
      by (auto simp: find_Some_iff)
    then have "x = it"
      using scan_order_distinct [of schema xs] assms(2) by (auto simp: table_items_def distinct_map inj_on_def)
    with x show ?thesis by simp
  qed
  moreover have "apply_update update_expr [(''#st'', ''status'')] (update_values upd) it = Some ?new"
    using assms(3) by (intro update_apply) (simp add: encodes_def)
  moreover have "key_of schema ?new = key_of schema it"
  proof
    fix tag
    have "?new tag = it tag" if "tag \<in> {''operation_id'', ''requested_at''}"
      using that by (elim insertE emptyE) (simp_all add: terminal_item_def)
    with assms(4) show "key_of schema ?new tag = key_of schema it tag" unfolding key_of_def restrict_map_def by auto
  qed
  moreover have "it ''status'' = Some (AV_S StatusRunning) \<longleftrightarrow> \<not> Terminal op"
    using encodes_status [OF assms(3)] by (simp add: Terminal_def)
  ultimately show ?thesis
    by (simp add: table_store_def table_sdk_def table_UpdateItem_def update_input_def dom update_condition)
qed

lemma key_of_encoded:
  assumes "encodes op it"
  shows "key_of [''operation_id''] it = [''operation_id'' \<mapsto> AV_S (Op_OperationID op)]"
    and "key_of [''operation_id'', ''requested_at''] it =
      [''operation_id'' \<mapsto> AV_S (Op_OperationID op), ''requested_at'' \<mapsto> AV_S (RFC3339Nano (Op_RequestedAt op))]"
  using encodes_id [OF assms] encodes_requested [OF assms]
  by (auto simp: key_of_def restrict_map_def fun_eq_iff)

lemma mismatch_detected:
  "isKeySchemaMismatch (Some (ValidationException ''The provided key element does not match the schema''))"
  by (simp add: isKeySchemaMismatch_def ValidationException_def HasPrefix_def)

lemma conditional_failure:
  "\<not> isKeySchemaMismatch (Some (Typed ''ConditionalCheckFailedException'' ''The conditional request failed''))"
  "update_error (Some (Typed ''ConditionalCheckFailedException'' ''The conditional request failed'')) = ErrAlreadyTerminal"
  by (simp_all add: isKeySchemaMismatch_def HasPrefix_def update_error_def)

lemma table_update_mismatch:
  "UpdateItem (ds_client (table_store [''operation_id''] page)) (update_input (table_store [''operation_id''] page) upd
      [''operation_id'' \<mapsto> a, ''requested_at'' \<mapsto> b]) xs =
    (Some (ValidationException ''The provided key element does not match the schema''), xs)"
  by (simp add: table_store_def table_sdk_def table_UpdateItem_def update_input_def)

text \<open>With a table that has a sort key the first key is accepted, with a hash key only the second.\<close>

lemma table_update_loop:
  assumes "table_good schema xs" and "it \<in> table_items schema xs" and "encodes op it"
  shows "update_loop (table_store schema page) upd (updateKeysFor op) None xs =
    (if Terminal op then (Inl (Some (Typed ''ConditionalCheckFailedException'' ''The conditional request failed'')), xs)
     else (Inr (), replace_item schema (key_of schema it) (terminal_item it (map event_attr (Op_Events op)) upd) xs))"
proof -
  have inv: "table_inv (table_items schema xs)" using assms(1) by (simp add: table_good_def)
  have row: "table_rows schema xs (Op_OperationID op) = Some op" using item_rows_iff [OF inv] assms(2,3) by blast
  then have nz: "\<not> IsZero (Op_RequestedAt op)" using assms(1) by (auto simp: table_good_def usable_def)
  have dom: "''operation_id'' \<in> dom it" "''requested_at'' \<in> dom it"
    using encodes_id [OF assms(3)] encodes_requested [OF assms(3)] by auto
  consider "schema = [''operation_id'']" | "schema = [''operation_id'', ''requested_at'']"
    using assms(1) by (auto simp: table_good_def known_schema_def)
  then show ?thesis
  proof cases
    case 1
    have upd: "UpdateItem (ds_client (table_store schema page)) (update_input (table_store schema page) upd
        [''operation_id'' \<mapsto> AV_S (Op_OperationID op)]) xs =
      (if Terminal op then (Some (Typed ''ConditionalCheckFailedException'' ''The conditional request failed''), xs)
       else (None, replace_item schema (key_of schema it) (terminal_item it (map event_attr (Op_Events op)) upd) xs))"
      using table_update_item [OF inv assms(2,3), of page upd] 1 dom by (simp add: key_of_encoded(1) [OF assms(3)])
    have mis: "UpdateItem (ds_client (table_store schema page)) (update_input (table_store schema page) upd
        [''operation_id'' \<mapsto> AV_S (Op_OperationID op), ''requested_at'' \<mapsto> AV_S (RFC3339Nano (Op_RequestedAt op))]) xs =
      (Some (ValidationException ''The provided key element does not match the schema''), xs)"
      unfolding 1 by (rule table_update_mismatch)
    show ?thesis
      unfolding updateKeysFor_def Let_def using nz
      by (simp add: mis mismatch_detected upd conditional_failure)
  next
    case 2
    have upd: "UpdateItem (ds_client (table_store schema page)) (update_input (table_store schema page) upd
        [''operation_id'' \<mapsto> AV_S (Op_OperationID op), ''requested_at'' \<mapsto> AV_S (RFC3339Nano (Op_RequestedAt op))]) xs =
      (if Terminal op then (Some (Typed ''ConditionalCheckFailedException'' ''The conditional request failed''), xs)
       else (None, replace_item schema (key_of schema it) (terminal_item it (map event_attr (Op_Events op)) upd) xs))"
      using table_update_item [OF inv assms(2,3), of page upd] 2 dom by (simp add: key_of_encoded(2) [OF assms(3)])
    show ?thesis
      unfolding updateKeysFor_def Let_def using nz by (simp add: upd conditional_failure)
  qed
qed

lemma table_UpdateTerminal:
  assumes "table_good schema xs"
    and "dynamo_UpdateTerminal (table_store schema page) table_codec i upd xs = (r, xs')"
  shows "case table_rows schema xs i of
      None \<Rightarrow> r = Some ErrNotFound \<and> xs' = xs
    | Some op \<Rightarrow>
        if Terminal op then r = Some ErrAlreadyTerminal \<and> xs' = xs
        else r = None \<and> table_rows schema xs' = (table_rows schema xs)(i \<mapsto> terminal_row op upd (Upd_CompletedAt upd))"
proof (cases "table_rows schema xs i")
  case None
  then show ?thesis using assms(2) table_find [OF assms(1), of page i] by (simp add: dynamo_UpdateTerminal_def)
next
  case (Some op)
  have inv: "table_inv (table_items schema xs)" and sch: "schema = [''operation_id''] \<or> schema = [''operation_id'', ''requested_at'']"
    using assms(1) by (simp_all add: table_good_def known_schema_def)
  obtain it where it: "it \<in> table_items schema xs" "encodes op it" using Some item_rows_iff [OF inv] by blast
  note loop = table_update_loop [OF assms(1) it, of page upd]
  have res: "r = (if Terminal op then Some ErrAlreadyTerminal else None)" "Terminal op \<Longrightarrow> xs' = xs"
    using assms(2) table_find [OF assms(1), of page i] Some loop
    by (auto simp: dynamo_UpdateTerminal_def conditional_failure split: if_splits)
  have "\<not> Terminal op \<Longrightarrow> stamped_write (table_rows schema xs) i upd (table_rows schema xs')"
    using dynamo_backend.UpdateTerminal_rows [OF dynamo_consistent.axioms(1) [OF table_consistent [OF sch, of page]] assms(2) inv] res
    by simp
  with res Some show ?thesis by (auto simp: stamped_write_def)
qed

end
