(* ===== verification/Dynamo_Properties.thy ===== *)
theory Dynamo_Properties
  imports Dynamo_Table Store_InMem
begin

text \<open>
  The properties of the DynamoDB store. Those about safety and termination hold over every client with the
  documented behaviour (\<open>dynamo_backend\<close>), stale scans and lost responses included; those about what a
  read returns ask for consistent scans (\<open>dynamo_consistent\<close>). They are applied to the table of
  \<open>Dynamo_Table\<close> with pages of three items.
\<close>

section \<open>A sample table\<close>

abbreviation sort_schema :: "string list" where
  "sort_schema \<equiv> [''operation_id'', ''requested_at'']"

definition sample_table :: "item list" where
  "sample_table = [op_item sample_operation]"

abbreviation sample_dynamo :: "item list dynamoStore" where
  "sample_dynamo \<equiv> table_store sort_schema 2"

lemma four_digit_small:
  assumes "0 \<le> t" and "t < 86400 * Second"
  shows "four_digit_year t"
proof -
  have "time_Unix t div 86400 = 0"
    using assms by (simp add: time_Unix_def div_pos_pos_trivial zdiv_zmult2_eq [symmetric] Second_def)
  then show ?thesis by (simp add: four_digit_year_def sec_year_def epoch_day)
qed

lemma sample_usable: "usable sample_operation"
  using four_digit_small [of 0]
  by (simp add: usable_def readable_def sample_operation_def IsZero_def time_zero_def Second_def)

lemma sample_table_items: "table_items sort_schema sample_table = {op_item sample_operation}"
  by (simp add: table_items_def sample_table_def)

lemma single_table:
  assumes "usable op"
  shows "table_inv {op_item op}" and "item_rows {op_item op} = [Op_OperationID op \<mapsto> op]"
  using table_replace [of "{}" op "op_item op" "Op_OperationID op" "{}"] encodes_op_item
  by (auto simp: table_inv_def item_rows_def)

lemma sample_table_good: "table_good sort_schema sample_table"
  using single_table [OF sample_usable] sample_usable
  by (auto simp: table_good_def known_schema_def sample_table_items split: if_splits)

lemma sample_consistent:
  "dynamo_consistent sample_dynamo sort_schema (table_items sort_schema) (table_ahead sort_schema) table_codec
     (scan_order sort_schema)"
  by (rule table_consistent) simp

lemmas sample_backend = dynamo_consistent.axioms(1) [OF sample_consistent]

section \<open>Properties\<close>

text \<open>C3. The DynamoDB store keeps the contract of a store over every client with the documented behaviour
  of the service, even when scans are stale and responses are lost: a put under a new id stores
  exactly that row, a terminal update that succeeds has turned a running row into the terminal row
  and touched no other, a failed one has done that or nothing, and reads change nothing.\<close>

theorem dynamo_refines_contract:
  assumes "dynamo_backend ds schema items ahead cd"
  shows "store_contract (dynamo_store ds cd) (\<lambda>d. item_rows (items d)) (\<lambda>d. table_inv (items d))"
  using assms by (rule dynamo_backend.keeps_contract)

lemma sample_update_runs:
  "\<exists>xs'. UpdateTerminal (dynamo_store sample_dynamo table_codec) ''op_1'' (sample_update StatusSucceeded) now sample_table = (None, xs')"
proof -
  obtain r xs' where run: "dynamo_UpdateTerminal sample_dynamo table_codec ''op_1'' (sample_update StatusSucceeded) sample_table = (r, xs')"
    by (rule prod.exhaust)
  have "item_rows {op_item sample_operation} ''op_1'' = Some sample_operation"
    using single_table(2) [OF sample_usable] by (simp add: sample_operation_def)
  with table_UpdateTerminal [OF sample_table_good run] sample_operation_running run show ?thesis
    by (simp add: sample_table_items dynamo_store_def)
qed

theorem dynamo_refines_contract_witness:
  "\<exists>xs'. UpdateTerminal (dynamo_store sample_dynamo table_codec) ''op_1'' (sample_update StatusSucceeded) 9 sample_table =
       (None, xs') \<and>
     terminal_write (table_rows sort_schema sample_table) ''op_1'' (sample_update StatusSucceeded) (table_rows sort_schema xs')"
proof -
  obtain xs' where run: "UpdateTerminal (dynamo_store sample_dynamo table_codec) ''op_1'' (sample_update StatusSucceeded) 9
      sample_table = (None, xs')"
    using sample_update_runs by blast
  have "table_inv (table_items sort_schema sample_table)" using sample_table_good by (simp add: table_good_def)
  from store_contract.update_ok [OF dynamo_refines_contract [OF sample_backend] this run] run show ?thesis by blast
qed

text \<open>C12. No call of the store scans forever: over every client whose continuation keys advance through
  the table, the search for an operation and the sweep query return, whatever the pages hold and
  from wherever they start, with a result or an error.\<close>

theorem dynamo_loops_return:
  assumes "dynamo_backend ds schema items ahead cd"
  shows "(\<exists>r d'. find_loop ds cd i start None d = Some (r, d')) \<and>
    (\<exists>r d'. list_loop ds cd t start [] d = Some (r, d'))"
  using dynamo_backend.find_loop_returns [OF assms, of None i start d]
    dynamo_backend.list_loop_returns [OF assms, of t start "[]" d] by auto

theorem dynamo_loops_return_witness:
  "\<exists>r d'. find_loop sample_dynamo table_codec ''op_1'' None None sample_table = Some (r, d')"
  using dynamo_loops_return [OF sample_backend, of "''op_1''" None sample_table] by blast

text \<open>C18. What a read by id returns over consistent scans: the row that is stored, and not found exactly when
  there is none. Any other answer is an error of a failed scan or of decoding that row, under its own
  message; in particular the search never reports a duplicate.\<close>

theorem dynamo_get_outcomes:
  assumes "dynamo_consistent ds schema items ahead cd order" and "table_inv (items d)"
    and "GetOperation (dynamo_store ds cd) i d = (r, d')"
  shows "(\<exists>e. scan_failed ds e \<and> r = Inl (Wrapf ''scan by operation_id: '' e '''')) \<or>
    (case item_rows (items d) i of
       None \<Rightarrow> r = Inl ErrNotFound
     | Some op \<Rightarrow> r = Inr op \<or>
         (\<exists>it e. encodes op it \<and> UnmarshalMap cd it = Inl e \<and> r = Inl (Wrapf ''unmarshal operation: '' e '''')))"
  using dynamo_consistent.find_outcome [OF assms(1,2)] assms(3) by (simp add: dynamo_store_def dynamo_GetOperation_def)

theorem dynamo_get_outcomes_witness:
  "fst (GetOperation (dynamo_store sample_dynamo table_codec) ''op_1'' sample_table) = Inr sample_operation"
proof -
  obtain r d' where get: "GetOperation (dynamo_store sample_dynamo table_codec) ''op_1'' sample_table = (r, d')"
    by (rule prod.exhaust)
  have "table_inv (table_items sort_schema sample_table)" using sample_table_good by (simp add: table_good_def)
  moreover have "table_rows sort_schema sample_table ''op_1'' = Some sample_operation"
    using single_table(2) [OF sample_usable] by (simp add: sample_table_items sample_operation_def)
  moreover have "encodes sample_operation it \<Longrightarrow> UnmarshalMap table_codec it = Inr sample_operation" for it
    using table_codec_reads sample_usable by (simp add: usable_def)
  ultimately show ?thesis
    using dynamo_get_outcomes [OF sample_consistent _ get] table_no_scan_failure [of sort_schema 2] get by auto
qed

text \<open>C19. The sweep query is exact to the second, over consistent scans and in years with four digits: it returns
  every running operation that was requested in an earlier second than the cutoff, and only running
  operations that were requested no later than in the second of the cutoff.\<close>

theorem dynamo_sweep_to_the_second:
  assumes "dynamo_consistent ds schema items ahead cd order" and "table_inv (items d)"
    and "ListRunningPastDeadline (dynamo_store ds cd) t d = (Inr found, d')" and "four_digit_year t"
    and "\<And>i op. item_rows (items d) i = Some op \<Longrightarrow> four_digit_year (Op_RequestedAt op)"
  shows "{op. item_rows (items d) (Op_OperationID op) = Some op \<and> \<not> Terminal op \<and>
      time_Unix (Op_RequestedAt op) < time_Unix t} \<subseteq> set found \<and>
    set found \<subseteq> {op. item_rows (items d) (Op_OperationID op) = Some op \<and> \<not> Terminal op \<and>
      time_Unix (Op_RequestedAt op) \<le> time_Unix t}"
proof -
  have "set found = {op. item_rows (items d) (Op_OperationID op) = Some op \<and> \<not> Terminal op \<and>
      RFC3339Nano (Op_RequestedAt op) < RFC3339Nano t}"
    using dynamo_consistent.list_exact [OF assms(1,2)] assms(3) by (simp add: dynamo_store_def)
  then show ?thesis
    using RFC3339Nano_less_sec [OF _ assms(4)] RFC3339Nano_less_imp [OF _ assms(4)] assms(5) by auto
qed

text \<open>Over the table the query never fails on rows that can be read.\<close>

lemma sample_list:
  assumes "usable op" and "\<not> Terminal op"
  shows "ListRunningPastDeadline (dynamo_store sample_dynamo table_codec) t [op_item op] =
    (Inr (if RFC3339Nano (Op_RequestedAt op) < RFC3339Nano t then [op] else []), [op_item op])"
proof -
  have enc: "encodes op (op_item op)" by (rule encodes_op_item)
  have filter: "satisfies ''#st = :running AND requested_at < :t'' [(''#st'', ''status'')]
      [('':running'', AV_S StatusRunning), ('':t'', AV_S (RFC3339Nano t))] (op_item op) \<longleftrightarrow>
    RFC3339Nano (Op_RequestedAt op) < RFC3339Nano t"
    unfolding list_filter using encodes_status [OF enc] encodes_requested [OF enc] assms(2) by (simp add: Terminal_def)
  have read: "UnmarshalMap table_codec (op_item op) = Inr op"
    using table_codec_reads [OF enc] assms(1) by (simp add: usable_def)
  have scan: "Scan (ds_client sample_dynamo) (list_input sample_dynamo t None) [op_item op] =
      (Inr \<lparr>so_Items = if RFC3339Nano (Op_RequestedAt op) < RFC3339Nano t then [op_item op] else [],
            so_LastEvaluatedKey = None\<rparr>, [op_item op])"
    by (simp add: table_store_def table_sdk_def table_Scan_def list_input_def page_size_def filter)
  show ?thesis
    unfolding dynamo_store_def dynamo_ListRunningPastDeadline_def until_done_def
    by (simp add: list_loop.simps [of sample_dynamo] scan read)
qed

theorem dynamo_sweep_to_the_second_witness:
  "{op. table_rows sort_schema sample_table (Op_OperationID op) = Some op \<and> \<not> Terminal op \<and>
      time_Unix (Op_RequestedAt op) < time_Unix (2 * Second)} \<subseteq> {sample_operation}"
proof -
  have t: "four_digit_year (2 * Second)" by (rule four_digit_small) (simp_all add: Second_def)
  have "RFC3339Nano (Op_RequestedAt sample_operation) < RFC3339Nano (2 * Second)"
    using four_digit_small [of 0] t
    by (intro RFC3339Nano_less_sec) (simp_all add: sample_operation_def time_Unix_def Second_def)
  then have run: "ListRunningPastDeadline (dynamo_store sample_dynamo table_codec) (2 * Second) sample_table =
      (Inr [sample_operation], sample_table)"
    using sample_list [OF sample_usable sample_operation_running] by (simp add: sample_table_def)
  have inv: "table_inv (table_items sort_schema sample_table)" using sample_table_good by (simp add: table_good_def)
  have years: "four_digit_year (Op_RequestedAt op)" if "table_rows sort_schema sample_table i = Some op" for i op
    using sample_table_good that by (auto simp: table_good_def usable_def readable_def)
  from dynamo_sweep_to_the_second [OF sample_consistent inv run t years] show ?thesis by simp
qed

text \<open>
  Within a second it is not exact: an operation requested half a second after the epoch is not returned for a
  cutoff one nanosecond later, because the text of the cutoff sorts first.
\<close>

lemma sweep_misses_within_second:
  "let op = sample_operation\<lparr>Op_RequestedAt := 500000000\<rparr> in
   Op_RequestedAt op < 500000001 \<and>
   ListRunningPastDeadline (dynamo_store sample_dynamo table_codec) 500000001 [op_item op] = (Inr [], [op_item op])"
proof -
  let ?op = "sample_operation\<lparr>Op_RequestedAt := 500000000\<rparr>"
  have "usable ?op"
    using four_digit_small [of 500000000]
    by (simp add: usable_def readable_def sample_operation_def IsZero_def time_zero_def Second_def)
  moreover have "\<not> Terminal ?op" using sample_operation_running by (simp add: Terminal_def)
  moreover have "\<not> RFC3339Nano (Op_RequestedAt ?op) < RFC3339Nano 500000001"
    using byte_order_not_time_order by simp
  ultimately show ?thesis using sample_list [of ?op 500000001] by (simp add: Let_def)
qed

text \<open>C25. What the terminal update writes has the type of an operation: applied to the item of an operation, the
  update expression with its hand-built values succeeds, and the result is the item of that operation
  with the status, error fields, completion time and appended audit event of the update.\<close>

theorem dynamo_update_well_typed:
  assumes "encodes op it"
  shows "\<exists>it'. apply_update (ui_UpdateExpression (update_input ds upd key)) (ui_Names (update_input ds upd key))
      (ui_Values (update_input ds upd key)) it = Some it' \<and>
    encodes (terminal_row op upd (Upd_CompletedAt upd)) it'"
proof -
  have events: "it ''events'' = Some (AV_L (map event_attr (Op_Events op)))" using assms by (simp add: encodes_def)
  from update_apply [of it, OF events, of upd] encodes_terminal [OF assms events, of upd] show ?thesis
    by (simp add: update_input_def)
qed

theorem dynamo_update_well_typed_witness:
  "\<exists>it'. apply_update (ui_UpdateExpression (update_input sample_dynamo (sample_update StatusFailed) Map.empty))
      (ui_Names (update_input sample_dynamo (sample_update StatusFailed) Map.empty))
      (ui_Values (update_input sample_dynamo (sample_update StatusFailed) Map.empty)) (op_item sample_operation) = Some it' \<and>
    encodes (terminal_row sample_operation (sample_update StatusFailed) 5) it'"
  using dynamo_update_well_typed [OF encodes_op_item, of sample_dynamo "sample_update StatusFailed" Map.empty sample_operation]
  by (simp add: sample_update_def)

section \<open>The two stores\<close>

abbreviation dynamo_over :: "string list \<Rightarrow> nat \<Rightarrow> item list store_api" where
  "dynamo_over schema page \<equiv> dynamo_store (table_store schema page) table_codec"

text \<open>A table and an in-memory store that hold the same rows\<close>

definition same_rows :: "string list \<Rightarrow> item list \<Rightarrow> inMemory \<Rightarrow> bool" where
  "same_rows schema xs s \<longleftrightarrow> table_good schema xs \<and> inmem_inv s \<and> table_rows schema xs = inmem_rows s"

lemma usable_terminal: "usable op \<Longrightarrow> four_digit_year (Upd_CompletedAt upd) \<Longrightarrow> usable (terminal_row op upd (Upd_CompletedAt upd))"
  by (auto simp: usable_def readable_def terminal_row_def)

lemma table_good_update:
  assumes "table_good schema xs" and "table_inv (table_items schema xs')"
    and "table_rows schema xs' = (table_rows schema xs)(i \<mapsto> op)" and "usable op"
  shows "table_good schema xs'"
  using assms by (auto simp: table_good_def split: if_splits)

lemma table_put:
  assumes "table_good schema xs" and "usable op" and "table_rows schema xs (Op_OperationID op) = None"
  shows "\<exists>xs'. dynamo_PutOperation (table_store schema page) table_codec op xs = (None, xs') \<and>
    table_rows schema xs' = (table_rows schema xs)(Op_OperationID op \<mapsto> op) \<and> table_good schema xs'"
proof -
  have sch: "schema = [''operation_id''] \<or> schema = [''operation_id'', ''requested_at'']" and inv: "table_inv (table_items schema xs)"
    using assms(1) by (simp_all add: table_good_def known_schema_def)
  obtain xs' where put: "dynamo_PutOperation (table_store schema page) table_codec op xs = (None, xs')"
    by (simp add: dynamo_PutOperation_def table_codec_def table_store_def table_sdk_def table_PutItem_def)
  note rows = dynamo_backend.put_rows_of [OF dynamo_consistent.axioms(1) [OF table_consistent [OF sch, of page]] put inv assms(3)]
  with put table_good_update [OF assms(1) _ _ assms(2)] show ?thesis by auto
qed

lemma same_put:
  assumes "same_rows schema xs s" and "usable op" and "inmem_rows s (Op_OperationID op) = None"
  shows "\<exists>xs' s'. PutOperation (dynamo_store (table_store schema page) table_codec) op xs = (None, xs') \<and>
    PutOperation inmem_store op s = (None, s') \<and> same_rows schema xs' s'"
proof -
  obtain xs' where xs': "dynamo_PutOperation (table_store schema page) table_codec op xs = (None, xs')"
    "table_rows schema xs' = (table_rows schema xs)(Op_OperationID op \<mapsto> op)" "table_good schema xs'"
    using table_put [of schema xs op page] assms by (auto simp: same_rows_def)
  obtain s' where s': "PutOperation inmem_store op s = (None, s')" by (simp add: inmem_store_def inmem_PutOperation_def)
  have "inmem_inv s' \<and> inmem_rows s' = (inmem_rows s)(Op_OperationID op \<mapsto> op)"
    using inmem.put_ok [OF _ s'] assms by (simp add: same_rows_def)
  with xs' s' assms(1) show ?thesis by (auto simp: same_rows_def dynamo_store_def)
qed

lemma same_get:
  assumes "same_rows schema xs s"
  shows "\<exists>r. GetOperation (dynamo_store (table_store schema page) table_codec) i xs = (r, xs) \<and>
    GetOperation inmem_store i s = (r, s)"
  using table_find [of schema xs page i] assms
  by (auto simp: same_rows_def dynamo_store_def dynamo_GetOperation_def inmem_store_def inmem_GetOperation_def
      inmem_rows_def split: option.splits)

lemma same_update:
  assumes "same_rows schema xs s" and "four_digit_year (Upd_CompletedAt upd)"
  shows "\<exists>r xs' s'. UpdateTerminal (dynamo_store (table_store schema page) table_codec) i upd now xs = (r, xs') \<and>
    UpdateTerminal inmem_store i upd (Upd_CompletedAt upd) s = (r, s') \<and> same_rows schema xs' s'"
proof -
  have good: "table_good schema xs" and inv: "inmem_inv s" and eq: "table_rows schema xs = inmem_rows s"
    using assms(1) by (simp_all add: same_rows_def)
  obtain r xs' where run: "dynamo_UpdateTerminal (table_store schema page) table_codec i upd xs = (r, xs')" by (rule prod.exhaust)
  note out = table_UpdateTerminal [OF good run, unfolded eq]
  have sch: "schema = [''operation_id''] \<or> schema = [''operation_id'', ''requested_at'']" and tinv: "table_inv (table_items schema xs)"
    using good by (simp_all add: table_good_def known_schema_def)
  have inv': "table_inv (table_items schema xs')"
    using dynamo_backend.UpdateTerminal_rows [OF dynamo_consistent.axioms(1) [OF table_consistent [OF sch, of page]] run tinv] by simp
  obtain r' s' where mem: "UpdateTerminal inmem_store i upd (Upd_CompletedAt upd) s = (r', s')" by (rule prod.exhaust)
  note mem' = mem [unfolded inmem_store_def store_api.simps inmem_update_cases]
  show ?thesis
  proof (cases "\<exists>op. inmem_rows s i = Some op \<and> \<not> Terminal op")
    case False
    then have "r = r'" "xs' = xs" "s' = s" using out mem' by (auto split: option.splits if_splits)
    then show ?thesis using run mem assms(1) by (simp add: dynamo_store_def)
  next
    case True
    then obtain op where op: "inmem_rows s i = Some op" "\<not> Terminal op" by blast
    have r: "r = None" "table_rows schema xs' = (table_rows schema xs)(i \<mapsto> terminal_row op upd (Upd_CompletedAt upd))"
      "r' = None" "inmem_rows s' = (inmem_rows s)(i \<mapsto> terminal_row op upd (Upd_CompletedAt upd))"
      using out mem' op eq by auto
    have "inmem_inv s'" using inmem.update_ok [OF inv mem [unfolded r(3)]] by blast
    moreover have "usable op" using good op(1) eq by (auto simp: table_good_def)
    then have "table_good schema xs'"
      using table_good_update [OF good inv' r(2)] usable_terminal assms(2) by blast
    ultimately show ?thesis using run mem r eq by (simp add: same_rows_def dynamo_store_def)
  qed
qed


lemma sample_same_rows: "same_rows sort_schema sample_table sample_store"
proof -
  have "table_rows sort_schema sample_table = inmem_rows sample_store"
    using single_table(2) [OF sample_usable]
    by (simp add: sample_table_items inmem_rows_def sample_store_def sample_operation_def)
  then show ?thesis using sample_table_good sample_store_inv by (simp add: same_rows_def)
qed

lemma usable_renamed: "usable (sample_operation\<lparr>Op_OperationID := i\<rparr>)"
  using sample_usable by (simp add: usable_def readable_def)




end
