(* ===== verification/Dynamo_Shared.thy ===== *)
theory Dynamo_Shared
  imports Dynamo_Correct Store_Shared
begin

text \<open>
  The DynamoDB store under several goroutines, and several processes. One request to the service is one
  step, so a call of the store is several: the pages of a scan, then the updates under one key and the other.
  Between any two of them others write to the table, so what a search has found may be out of date when
  the update is made. The store still keeps the contract \<open>concurrent_store\<close>.
\<close>

section \<open>Requests as steps\<close>

definition shared_sdk :: "'d dynamo_api \<Rightarrow> 'd thread dynamo_api" where
  "shared_sdk sdk =
     \<lparr>PutItem = (\<lambda>p. one_step (PutItem sdk p)), UpdateItem = (\<lambda>u. one_step (UpdateItem sdk u)),
      Scan = (\<lambda>q. one_step (Scan sdk q))\<rparr>"

definition shared_client :: "'d dynamoStore \<Rightarrow> 'd thread dynamoStore" where
  "shared_client ds = \<lparr>ds_table = ds_table ds, ds_client = shared_sdk (ds_client ds)\<rparr>"

lemma shared_client_simps [simp]:
  "ds_table (shared_client ds) = ds_table ds" "ds_client (shared_client ds) = shared_sdk (ds_client ds)"
  "find_input (shared_client ds) = find_input ds" "list_input (shared_client ds) = list_input ds"
  "update_input (shared_client ds) = update_input ds"
  by (simp_all add: shared_client_def find_input_def list_input_def update_input_def fun_eq_iff)

lemma shared_sdk_simps [simp]:
  "PutItem (shared_sdk sdk) p = one_step (PutItem sdk p)" "UpdateItem (shared_sdk sdk) u = one_step (UpdateItem sdk u)"
  "Scan (shared_sdk sdk) q = one_step (Scan sdk q)"
  by (simp_all add: shared_sdk_def)

lemma one_step_result: "one_step f v = (r, v') \<Longrightarrow> f (th_found v) = (r, th_mem v')"
  by (auto simp: one_step_def split: prod.splits)

section \<open>Calls of several steps\<close>

text \<open>A call that adds no row so far\<close>

definition adds_none ::
  "('d \<Rightarrow> rows) \<Rightarrow> ('d \<Rightarrow> bool) \<Rightarrow> string set \<Rightarrow> 'd thread \<Rightarrow> 'd thread \<Rightarrow> bool" where
  "adds_none rows good ids v v' \<longleftrightarrow> (\<exists>tr. call_steps rows good {} v tr v' \<and> primed rows good ids v')"

lemma adds_none_refl: "primed rows good ids v \<Longrightarrow> adds_none rows good ids v v"
  by (auto simp: adds_none_def call_steps_def intro!: exI [of _ "[]"])

lemma call_steps_trans:
  "call_steps rows good ids v tr v' \<Longrightarrow> call_steps rows good ids v' tr' v'' \<Longrightarrow> call_steps rows good ids v (tr @ tr') v''"
  by (auto simp: call_steps_def)

lemma adds_none_trans:
  "adds_none rows good ids v v' \<Longrightarrow> (primed rows good ids v' \<Longrightarrow> adds_none rows good ids v' v'') \<Longrightarrow>
     adds_none rows good ids v v''"
  unfolding adds_none_def by (blast intro: call_steps_trans)

lemma adds_none_primed: "adds_none rows good ids v v' \<Longrightarrow> primed rows good ids v'"
  by (auto simp: adds_none_def)

lemma writes_append: "writes rows i upd (tr @ tr') \<longleftrightarrow> writes rows i upd tr \<or> writes rows i upd tr'"
  by (auto simp: writes_def)

section \<open>The contract\<close>

context dynamo_backend
begin

abbreviation (input) stored where "stored \<equiv> \<lambda>d. item_rows (items d)"
abbreviation (input) intact where "intact \<equiv> \<lambda>d. table_inv (items d)"

lemma scan_step:
  assumes "primed stored intact ids v" and "one_step (Scan (ds_client ds) q) v = (r, v')"
  shows "adds_none stored intact ids v v'"
  unfolding adds_none_def by (rule shared_call [OF assms]) (auto dest!: Scan_items)

lemma find_page:
  assumes "one_step (Scan (ds_client ds) (find_input ds i start)) v = (Inr out, v')"
    and "find_items cd i (so_Items out) found = Inr (Some op)" and "\<And>op. found = Some op \<Longrightarrow> Op_OperationID op = i"
  shows "Op_OperationID op = i"
proof -
  have "it ''operation_id'' = Some (AV_S i)" if "it \<in> set (so_Items out)" for it
    using Scan_filter [OF one_step_result [OF assms(1)], of "''#op = :op''" it] that
    by (simp add: find_input_def find_filter)
  then show ?thesis using find_items_id [OF assms(2)] assms(3) by blast
qed

lemma find_loop_steps:
  assumes "find_loop (shared_client ds) cd i start found v = Some y" and "primed stored intact ids v"
    and "\<And>op. found = Some op \<Longrightarrow> Op_OperationID op = i"
  shows "adds_none stored intact ids v (snd y) \<and> (\<forall>op. fst y = Inr op \<longrightarrow> Op_OperationID op = i)"
proof (rule find_loop.raw_induct [where P = "\<lambda>ds' cd' i' start found v y. ds' = shared_client ds \<longrightarrow> cd' = cd \<longrightarrow> i' = i \<longrightarrow>
      primed stored intact ids v \<longrightarrow> (\<forall>op. found = Some op \<longrightarrow> Op_OperationID op = i) \<longrightarrow>
      adds_none stored intact ids v (snd y) \<and> (\<forall>op. fst y = Inr op \<longrightarrow> Op_OperationID op = i)",
      rule_format, OF _ assms(1) refl refl refl assms(2)])
  fix loop ds' cd' i' start found v y op
  assume IH: "\<And>ds' cd' i' start found v y. loop ds' cd' i' start found v = Some y \<Longrightarrow> ds' = shared_client ds \<Longrightarrow>
      cd' = cd \<Longrightarrow> i' = i \<Longrightarrow> primed stored intact ids v \<Longrightarrow> (\<And>op. found = Some op \<Longrightarrow> Op_OperationID op = i) \<Longrightarrow>
      adds_none stored intact ids v (snd y) \<and> (\<forall>op. fst y = Inr op \<longrightarrow> Op_OperationID op = i)"
    and body: "(case Scan (ds_client ds') (find_input ds' i' start) v of
        (Inl e, d1) \<Rightarrow> Some (Inl (Wrapf ''scan by operation_id: '' e ''''), d1)
      | (Inr out, d1) \<Rightarrow>
          (case find_items cd' i' (so_Items out) found of
             Inl e \<Rightarrow> Some (Inl e, d1)
           | Inr found1 \<Rightarrow>
               (case so_LastEvaluatedKey out of
                  None \<Rightarrow> Some (case found1 of None \<Rightarrow> Inl ErrNotFound | Some op \<Rightarrow> Inr op, d1)
                | Some k \<Rightarrow> loop ds' cd' i' (Some k) found1 d1))) = Some y"
    and eq: "ds' = shared_client ds" "cd' = cd" "i' = i" and ready: "primed stored intact ids v"
    and found: "\<And>op. found = Some op \<Longrightarrow> Op_OperationID op = i"
  let ?q = "find_input ds i start"
  obtain r1 v1 where scan: "one_step (Scan (ds_client ds) ?q) v = (r1, v1)" by (rule prod.exhaust)
  note step = scan_step [OF ready scan]
  note page = find_page [OF _ _ found]
  show "adds_none stored intact ids v (snd y) \<and> (\<forall>op. fst y = Inr op \<longrightarrow> Op_OperationID op = i)"
  proof (cases "\<exists>out k. r1 = Inr out \<and> so_LastEvaluatedKey out = Some k \<and> (\<exists>f. find_items cd i (so_Items out) found = Inr f)")
    case True
    then obtain out k f where more: "r1 = Inr out" "so_LastEvaluatedKey out = Some k" "find_items cd i (so_Items out) found = Inr f"
      by blast
    with body scan eq have "loop (shared_client ds) cd i (Some k) f v1 = Some y" by simp
    from IH [OF this refl refl refl adds_none_primed [OF step]] page [OF scan [unfolded more(1)]] more(3)
    show ?thesis using adds_none_trans [OF step] by blast
  next
    case False
    with body scan eq have "snd y = v1" by (auto split: sum.splits option.splits)
    moreover have "Op_OperationID op = i" if "fst y = Inr op" for op
      using body scan eq False that page by (auto split: sum.splits option.splits)
    ultimately show ?thesis using step by blast
  qed
qed (rule assms(3))

lemma findOperation_steps:
  assumes "findOperation (shared_client ds) cd i v = (r, v')" and "primed stored intact ids v"
  shows "adds_none stored intact ids v v' \<and> (\<forall>op. r = Inr op \<longrightarrow> Op_OperationID op = i)"
proof (cases "find_loop (shared_client ds) cd i None None v")
  case None
  with assms adds_none_refl show ?thesis by (auto simp: findOperation_def until_done_def)
next
  case (Some y)
  with find_loop_steps [OF Some assms(2)] assms(1) show ?thesis by (simp add: findOperation_def until_done_def)
qed

lemma list_loop_steps:
  assumes "list_loop (shared_client ds) cd t start found v = Some y" and "primed stored intact ids v"
  shows "adds_none stored intact ids v (snd y)"
proof (rule list_loop.raw_induct [where P = "\<lambda>ds' cd' t start found v y. ds' = shared_client ds \<longrightarrow>
      primed stored intact ids v \<longrightarrow> adds_none stored intact ids v (snd y)", rule_format, OF _ assms(1) refl assms(2)])
  fix loop ds' cd' t start found v y
  assume IH: "\<And>ds' cd' t start found v y. loop ds' cd' t start found v = Some y \<Longrightarrow> ds' = shared_client ds \<Longrightarrow>
      primed stored intact ids v \<Longrightarrow> adds_none stored intact ids v (snd y)"
    and body: "(case Scan (ds_client ds') (list_input ds' t start) v of
        (Inl e, d1) \<Rightarrow> Some (Inl (Wrapf ''scan: '' e ''''), d1)
      | (Inr out, d1) \<Rightarrow>
          (case list_items cd' (so_Items out) found of
             Inl e \<Rightarrow> Some (Inl e, d1)
           | Inr found1 \<Rightarrow>
               (case so_LastEvaluatedKey out of
                  None \<Rightarrow> Some (Inr found1, d1)
                | Some k \<Rightarrow> loop ds' cd' t (Some k) found1 d1))) = Some y"
    and eq: "ds' = shared_client ds" and ready: "primed stored intact ids v"
  obtain r1 v1 where scan: "one_step (Scan (ds_client ds) (list_input ds t start)) v = (r1, v1)" by (rule prod.exhaust)
  note step = scan_step [OF ready scan]
  have "snd y = v1 \<or> (\<exists>k found1. loop (shared_client ds) cd' t (Some k) found1 v1 = Some y)"
    using body scan eq by (auto split: sum.splits option.splits)
  then show "adds_none stored intact ids v (snd y)"
    using step IH adds_none_trans [OF step] by blast
qed

lemma update_item_steps:
  assumes "one_step (UpdateItem (ds_client ds) (update_input ds upd key)) v = (r, v')" and "primed stored intact ids v"
    and "Upd_Status upd \<noteq> StatusRunning" and "key ''operation_id'' = Some (AV_S i)"
  shows "\<exists>tr. call_steps stored intact {} v tr v' \<and> primed stored intact ids v' \<and> (r = None \<longrightarrow> writes stored i upd tr)"
proof (rule shared_update [OF assms(2,3,1)])
  fix d d'
  assume inv: "intact d" and upd: "UpdateItem (ds_client ds) (update_input ds upd key) d = (r, d')"
  have tbl: "ui_TableName (update_input ds upd key) = ds_table ds" by (simp add: update_input_def)
  have "updated schema (update_input ds upd key) (items d) (items d') \<or> r \<noteq> None \<and> items d' = items d"
    using UpdateItem_ok [OF _ tbl, of d d'] UpdateItem_err [OF _ tbl, of d _ d'] upd by (cases r) blast+
  then show "intact d' \<and> (terminal_write (stored d) i upd (stored d') \<or> r \<noteq> None \<and> stored d' = stored d)"
    using updated_row [of "items d" key i upd "items d'", OF inv assms(4)] inv stamped_terminal by auto
qed

lemma update_loop_steps:
  assumes "update_loop (shared_client ds) upd keys err v = (r, v')" and "primed stored intact ids v"
    and "Upd_Status upd \<noteq> StatusRunning" and "\<And>key. key \<in> set keys \<Longrightarrow> key ''operation_id'' = Some (AV_S i)"
  shows "\<exists>tr. call_steps stored intact {} v tr v' \<and> primed stored intact ids v' \<and> (r = Inr () \<longrightarrow> writes stored i upd tr)"
  using assms(1,2,4)
proof (induction keys arbitrary: err v)
  case Nil
  then show ?case by (auto simp: call_steps_def intro!: exI [of _ "[]"])
next
  case (Cons key keys)
  obtain r1 v1 where upd: "one_step (UpdateItem (ds_client ds) (update_input ds upd key)) v = (r1, v1)" by (rule prod.exhaust)
  obtain tr where tr: "call_steps stored intact {} v tr v1" "primed stored intact ids v1" "r1 = None \<longrightarrow> writes stored i upd tr"
    using update_item_steps [OF upd Cons.prems(2) assms(3)] Cons.prems(3) by (meson list.set_intros(1))
  consider "r1 = None" "r = Inr ()" "v' = v1" | e where "r = Inl e" "v' = v1"
    | e where "update_loop (shared_client ds) upd keys e v1 = (r, v')"
    using Cons.prems(1) upd by (cases r1) (auto split: if_split_asm)
  then show ?case
  proof cases
    case (3 e)
    then obtain tr' where "call_steps stored intact {} v1 tr' v'" "primed stored intact ids v'"
      "r = Inr () \<longrightarrow> writes stored i upd tr'"
      using Cons.IH [OF 3 tr(2)] Cons.prems(3) by auto
    with tr(1) show ?thesis by (blast intro: call_steps_trans writes_append [THEN iffD2])
  qed (use tr in auto)
qed

lemma shared_put_steps:
  assumes "dynamo_PutOperation (shared_client ds) cd op v = (r, v')" and "primed stored intact ids v" and "Op_OperationID op \<in> ids"
  shows "\<exists>tr. call_steps stored intact {Op_OperationID op} v tr v' \<and> primed stored intact (ids - {Op_OperationID op}) v'"
proof (cases "MarshalMap cd op")
  case (Inl e)
  with assms have "v' = v" by (simp add: dynamo_PutOperation_def)
  with assms(2) show ?thesis
    by (auto simp: call_steps_def intro: primed_subset intro!: exI [of _ "[]"])
next
  case (Inr av)
  show ?thesis
  proof (rule shared_put [OF assms(2,3)])
    show "one_step (dynamo_PutOperation ds cd op) v = (r, v')"
      using assms(1) Inr by (auto simp: dynamo_PutOperation_def one_step_def split: prod.splits option.splits)
    show "intact d' \<and> (stored d' = stored d \<or> stored d' = (stored d)(Op_OperationID op \<mapsto> op))"
      if "intact d" and "stored d (Op_OperationID op) = None" and "dynamo_PutOperation ds cd op d = (r, d')" for d d'
      using put_rows_of [OF that(3,1,2)] by (auto split: if_splits)
  qed
qed

lemma shared_terminal_steps:
  assumes "dynamo_UpdateTerminal (shared_client ds) cd i upd v = (r, v')" and "primed stored intact ids v"
    and "Upd_Status upd \<noteq> StatusRunning"
  shows "\<exists>tr. call_steps stored intact {} v tr v' \<and> primed stored intact ids v' \<and> (r = None \<longrightarrow> writes stored i upd tr)"
proof -
  obtain r1 v1 where find: "findOperation (shared_client ds) cd i v = (r1, v1)" by (rule prod.exhaust)
  note found = findOperation_steps [OF find assms(2)]
  obtain tr where tr: "call_steps stored intact {} v tr v1" "primed stored intact ids v1"
    using found by (auto simp: adds_none_def)
  show ?thesis
  proof (cases r1)
    case (Inl e)
    with assms(1) find tr show ?thesis by (auto simp: dynamo_UpdateTerminal_def)
  next
    case (Inr op)
    obtain r2 v2 where loop: "update_loop (shared_client ds) upd (updateKeysFor op) None v1 = (r2, v2)" by (rule prod.exhaust)
    have "Op_OperationID op = i" using found Inr by simp
    from update_loop_steps [OF loop tr(2) assms(3)] update_keys_id [OF this] obtain tr'
      where tr': "call_steps stored intact {} v1 tr' v2" "primed stored intact ids v2" "r2 = Inr () \<longrightarrow> writes stored i upd tr'"
      by blast
    have "v' = v2" "r = None \<longleftrightarrow> r2 = Inr ()"
      using assms(1) find Inr loop by (auto simp: dynamo_UpdateTerminal_def split: sum.splits)
    with tr'(2,3) call_steps_trans [OF tr(1) tr'(1)] show ?thesis by (auto simp: writes_append)
  qed
qed

lemma concurrent_contract: "concurrent_store (dynamo_store (shared_client ds) cd) stored intact"
proof
  fix ids v v' op i t upd now rp rg rl ru rn
  assume ready: "primed stored intact ids v"
  show "\<exists>tr. call_steps stored intact {Op_OperationID op} v tr v' \<and> primed stored intact (ids - {Op_OperationID op}) v'"
    if "Op_OperationID op \<in> ids" and "PutOperation (dynamo_store (shared_client ds) cd) op v = (rp, v')"
    using shared_put_steps [OF _ ready that(1)] that(2) by (simp add: dynamo_store_def)
  show "\<exists>tr. call_steps stored intact {} v tr v' \<and> primed stored intact ids v'"
    if "GetOperation (dynamo_store (shared_client ds) cd) i v = (rg, v')"
    using findOperation_steps [OF _ ready] that by (auto simp: dynamo_store_def dynamo_GetOperation_def adds_none_def)
  show "\<exists>tr. call_steps stored intact {} v tr v' \<and> primed stored intact ids v'"
    if "ListRunningPastDeadline (dynamo_store (shared_client ds) cd) t v = (rl, v')"
    using list_loop_steps [OF _ ready] adds_none_refl [OF ready] that
    by (auto simp: dynamo_store_def dynamo_ListRunningPastDeadline_def until_done_def adds_none_def split: option.splits)
  show "\<exists>tr. call_steps stored intact {} v tr v' \<and> primed stored intact ids v'"
    if "Ping (dynamo_store (shared_client ds) cd) v = (rn, v')"
    using scan_step [OF ready] that
    by (fastforce simp: dynamo_store_def dynamo_Ping_def adds_none_def split: prod.splits sum.splits)
  show "\<exists>tr. call_steps stored intact {} v tr v' \<and> primed stored intact ids v' \<and> (ru = None \<longrightarrow> writes stored i upd tr)"
    if "Upd_Status upd \<noteq> StatusRunning" and "UpdateTerminal (dynamo_store (shared_client ds) cd) i upd now v = (ru, v')"
    using shared_terminal_steps [OF _ ready that(1)] that(2) by (simp add: dynamo_store_def)
qed

end

end
