(* ===== verification/Kc_Correct.thy ===== *)
theory Kc_Correct
  imports Kc_Authorizer
begin

text \<open>
  What the calls of the Keycloak client can do to the state and where its answers come from, while
  other requests change the state between any two of its steps. \<open>client_invariant\<close> reduces an invariant of
  a goroutine's view to its elementary steps, and \<open>authorizer_invariant\<close> adds those of the authorizer; they are
  interpreted for the steps a request makes and the clock, and for the deadline of the context.
\<close>

section \<open>Invariants of the client\<close>

text \<open>The steps of the client other than the two of an HTTP call\<close>

inductive client_move :: "('h, 'z) Client_scheme \<Rightarrow> ('h, 'z) Client_scheme \<Rightarrow> bool" where
  stay: "client_move s s"
| tick: "client_move s (s\<lparr>ts_clock := elapse (ts_clock s)\<rparr>)"
| token: "client_move s (s\<lparr>ts_token := tok, ts_expiresAt := t\<rparr>)"
| drop: "client_move s (s\<lparr>ts_token := ''''\<rparr>)"
| uuid: "client_move s (s\<lparr>cl_uuid := u\<rparr>)"
| users: "client_move s (s\<lparr>ts_clock := elapse (ts_clock s),
    cl_userIDs := fst (cache_Put (cl_userIDs s) key v (ts_clock s))\<rparr>)"
| refs: "client_move s (s\<lparr>ts_clock := elapse (ts_clock s),
    cl_refs := fst (cache_Put (cl_refs s) key rs (ts_clock s))\<rparr>)"
| warn: "client_move s (s\<lparr>cl_log := cl_log s @ [l]\<rparr>)"

lemma aged_move:
  "get = cache_Get \<or> get = cache_GetStale \<Longrightarrow>
     client_move s (snd (case get c key (ts_clock s) of (v, clk) \<Rightarrow> (v, s\<lparr>ts_clock := clk\<rparr>)))"
  using client_move.stay [of s] client_move.tick [of s]
  by (auto simp: cache_Get_def cache_GetStale_def cache_get_def Now_def split: option.splits)

text \<open>
  An invariant of a request's view of the client, given that it survives these steps, and those of an
  HTTP call: \<open>due\<close> holds of the instants at which results arrive.
\<close>

locale client_invariant =
  fixes I :: "('h, 'z) Client_scheme thread \<Rightarrow> bool" and due :: "time \<Rightarrow> bool"
    and env :: "'h http_env" and cfg :: kc_Config and ctx :: go_context
  assumes i_move: "I w \<Longrightarrow> client_move (th_found w) s \<Longrightarrow> I (moved w s)"
    and i_send: "I w \<Longrightarrow>
      http_exchange (he_server env) (kc_Timeout cfg) ctx req (clk_now (ts_clock (th_found w))) (ts_http (th_found w)) =
        (r, t, h) \<Longrightarrow> I (moved w ((th_found w)\<lparr>ts_http := h\<rparr>)) \<and> due t"
    and i_receive: "I w \<Longrightarrow> due t \<Longrightarrow>
      I (moved w ((th_found w)\<lparr>ts_clock := advance_to t (ts_clock (th_found w))\<rparr>))"
begin

lemma i_peek: "keeps I (peek f) any"
  by (auto intro!: keeps_atomic i_move client_move.intros)

lemma i_aged: "get = cache_Get \<or> get = cache_GetStale \<Longrightarrow> keeps I (kc_aged get c key) any"
  unfolding kc_aged_def by (intro keeps_atomic) (use i_move aged_move in blast)

lemma i_receive_step:
  "due t \<Longrightarrow> keeps I (change (\<lambda>s. s\<lparr>ts_clock := advance_to t (ts_clock s)\<rparr>)) any"
  by (rule keeps_atomic) (simp add: i_receive)

lemma i_kc_http: "keeps I (kc_http env (kc_Timeout cfg) ctx req) any"
proof -
  have "keeps I (atomic (\<lambda>s.
      case http_exchange (he_server env) (kc_Timeout cfg) ctx req (clk_now (ts_clock s)) (ts_http s) of
        (r, t, h) \<Rightarrow> ((r, t), s\<lparr>ts_http := h\<rparr>))) (\<lambda>(r, t). due t)"
    by (rule keeps_atomic) (auto split: prod.splits dest: i_send)
  then show ?thesis
    unfolding kc_http_def
    by (rule keeps_bind) (auto intro: keeps_bind [OF i_receive_step] keeps_pure)
qed

lemma i_actions:
  "keeps I kc_now any" "keeps I (kc_http env (kc_Timeout cfg) ctx req) any"
  "keeps I (set_token tok t) any" "keeps I Invalidate any" "keeps I (set_uuid u) any"
  "keeps I (userIDs_Get key) any" "keeps I (userIDs_Put key v) any"
  "keeps I (refs_Get key) any" "keeps I (refs_Put key rs) any" "keeps I (cl_warn msg) any"
proof -
  show "keeps I (kc_http env (kc_Timeout cfg) ctx req) any" by (rule i_kc_http)
  show "keeps I (userIDs_Get key) any" "keeps I (refs_Get key) any"
    unfolding userIDs_Get_def refs_Get_def by (auto intro!: keeps_bind [OF i_peek] i_aged)
  show "keeps I (userIDs_Put key v) any" "keeps I (refs_Put key rs) any"
    unfolding userIDs_Put_def refs_Put_def
    using client_move.users [of _ key v] client_move.refs [of _ key rs]
    by (auto intro!: keeps_atomic i_move simp: cache_Put_def Now_def)
qed (auto simp: kc_now_def set_token_def Invalidate_def set_uuid_def cl_warn_def Now_def
    intro!: keeps_atomic i_move client_move.intros)

lemmas i_rules = keeps_bind [OF i_actions(1)] keeps_bind [OF i_actions(2)] keeps_bind [OF i_actions(3)]
  keeps_bind [OF i_actions(4)] keeps_bind [OF i_actions(5)] keeps_bind [OF i_actions(6)]
  keeps_bind [OF i_actions(7)] keeps_bind [OF i_actions(8)] keeps_bind [OF i_actions(9)]
  keeps_bind [OF i_actions(10)] keeps_bind [OF i_peek] keeps_if keeps_sum keeps_option keeps_prod

lemma i_fetch_token: "keeps I (fetch_token env cfg ctx) any"
  unfolding fetch_token_def by (intro i_rules keeps_pure; simp)

lemma i_Token: "keeps I (Token env cfg ctx) any"
  unfolding Token_def by (intro i_rules keeps_pure i_fetch_token; simp)

lemma i_do_loop: "keeps I (do_loop env cfg ctx verb url body n e) any"
proof (induction n arbitrary: e)
  case 0
  then show ?case by (simp add: keeps_pure)
next
  case (Suc n)
  show ?case unfolding do_loop.simps
    by (intro keeps_bind [OF i_Token] i_rules keeps_pure Suc; simp)
qed

lemma i_do: "keeps I (kc_do env cfg ctx verb url body) any"
  unfolding kc_do_def by (rule i_do_loop)

lemma i_ResourceServerUUID: "keeps I (ResourceServerUUID env cfg ctx) any"
  unfolding ResourceServerUUID_def by (intro keeps_bind [OF i_do] i_rules keeps_pure; simp)

lemma i_UserID: "keeps I (UserID env cfg ctx username) any"
  unfolding UserID_def by (intro keeps_bind [OF i_do] i_rules keeps_pure; simp)

lemma i_Evaluate: "keeps I (Evaluate env cfg ctx userID resource scope) any"
  unfolding Evaluate_def
  by (intro keeps_bind [OF i_ResourceServerUUID] keeps_bind [OF i_do] i_rules keeps_pure; simp)

lemma i_AllowedRefs: "keeps I (AllowedRefs env cfg ctx resource action) any"
  unfolding AllowedRefs_def
  by (intro keeps_bind [OF i_ResourceServerUUID] keeps_bind [OF i_do] i_rules keeps_pure; simp)

end
text \<open>The authorizer's own steps are those of the client and the write of a permit.\<close>

locale authorizer_invariant = client_invariant I due env cfg ctx
  for I :: "'h Authorizer thread \<Rightarrow> bool" and due :: "time \<Rightarrow> bool"
    and env :: "'h http_env" and cfg :: kc_Config and ctx :: go_context +
  assumes i_store: "I w \<Longrightarrow> I (moved w ((th_found w)\<lparr>ts_clock := elapse (ts_clock (th_found w)),
      au_decisions := fst (cache_Put (au_decisions (th_found w)) key True (ts_clock (th_found w)))\<rparr>))"
begin

lemma i_decisions:
  "keeps I (decisions_Get key) any" "keeps I (decisions_GetStale key) any" "keeps I (decisions_Put key True) any"
proof -
  show "keeps I (decisions_Get key) any" "keeps I (decisions_GetStale key) any"
    unfolding decisions_Get_def decisions_GetStale_def by (auto intro!: keeps_bind [OF i_peek] i_aged)
  show "keeps I (decisions_Put key True) any"
    unfolding decisions_Put_def
  proof (rule keeps_atomic)
    fix w
    assume "I w"
    from i_store [OF this, of key]
    show "I (moved w (snd (case cache_Put (au_decisions (th_found w)) key True (ts_clock (th_found w)) of
        (ca, c) \<Rightarrow> ((), (th_found w)\<lparr>ts_clock := c, au_decisions := ca\<rparr>)))) \<and> True"
      by (simp add: cache_Put_def Now_def)
  qed
qed

lemma i_evaluate: "keeps I (evaluate env cfg ctx req) any"
  unfolding evaluate_def
  by (intro keeps_bind [OF i_UserID] keeps_bind [OF i_Evaluate] keeps_bind [OF i_AllowedRefs] i_rules keeps_pure; simp)

lemmas i_more = keeps_bind [OF i_decisions(1)] keeps_bind [OF i_decisions(2)] keeps_bind [OF i_decisions(3)]
  keeps_bind [OF i_evaluate] i_rules

lemma i_kc_Authorize: "keeps I (kc_Authorize env cfg ctx req) any"
  unfolding kc_Authorize_def by (intro i_more keeps_pure; simp)

end

section \<open>Steps of a request\<close>

text \<open>
  What every goroutine guarantees of each of its steps and relies on between its own: time does not
  run backwards, and the maximal ages of the caches stay as they are.
\<close>

definition settings :: "'h Authorizer \<Rightarrow> (duration \<times> duration) list" where
  "settings s =
     [(ttl (cl_userIDs s), staleFor (cl_userIDs s)), (ttl (cl_refs s), staleFor (cl_refs s)),
      (ttl (au_decisions s), staleFor (au_decisions s))]"

definition settings_ok :: "'h Authorizer \<Rightarrow> bool" where
  "settings_ok s \<longleftrightarrow> settings s = [(userIDTTL, 0), (refsTTL, 0), (decisionTTL, decisionStaleFor)]"

definition later :: "'h Authorizer \<Rightarrow> 'h Authorizer \<Rightarrow> bool" where
  "later s s' \<longleftrightarrow> clk_now (ts_clock s) \<le> clk_now (ts_clock s') \<and> settings s' = settings s"

lemma later_refl [simp]: "later s s"
  by (simp add: later_def)

lemma later_trans: "later s s' \<Longrightarrow> later s' s'' \<Longrightarrow> later s s''"
  by (auto simp: later_def)

text \<open>A step of the client, and one that stores a permit\<close>

definition quiet :: "'h Authorizer \<Rightarrow> 'h Authorizer \<Rightarrow> bool" where
  "quiet u v \<longleftrightarrow> later u v \<and> au_decisions v = au_decisions u"

definition stores :: "Request \<Rightarrow> 'h Authorizer \<Rightarrow> 'h Authorizer \<Rightarrow> bool" where
  "stores req u v \<longleftrightarrow> later u v \<and>
     au_decisions v = fst (cache_Put (au_decisions u) (decisionKey req) True (ts_clock u))"

lemma client_move_quiet: "client_move u v \<Longrightarrow> quiet u v"
  by (cases rule: client_move.cases) (auto simp: quiet_def later_def settings_def cache_Put_laws)

lemma http_quiet:
  "quiet s (s\<lparr>ts_http := h\<rparr>)" "quiet s (s\<lparr>ts_clock := advance_to t (ts_clock s)\<rparr>)"
  by (simp_all add: quiet_def later_def settings_def)

text \<open>
  The view of a request from instant \<open>t0\<close> on: since it made those in \<open>base\<close>, its steps were quiet.
\<close>

definition from_then :: "time \<Rightarrow> 'h Authorizer \<Rightarrow> bool" where
  "from_then t0 s \<longleftrightarrow> t0 \<le> clk_now (ts_clock s) \<and> settings_ok s"

lemma from_then_later: "from_then t0 s \<Longrightarrow> later s s' \<Longrightarrow> from_then t0 s'"
  by (auto simp: from_then_def later_def settings_ok_def)

definition since ::
  "time \<Rightarrow> ('h Authorizer \<times> 'h Authorizer) list \<Rightarrow> 'h Authorizer thread \<Rightarrow> bool" where
  "since t0 base w \<longleftrightarrow> obeys later w \<and> from_then t0 (th_found w) \<and>
     (\<exists>steps. th_own w = base @ steps \<and> (\<forall>(u, v) \<in> set steps. from_then t0 u \<and> quiet u v))"

lemma since_moved:
  assumes "since t0 base w" and "quiet (th_found w) s"
  shows "since t0 base (moved w s)"
proof -
  have "from_then t0 (th_found w)" and "obeys later (moved w s)" using assms(1) by (auto simp: since_def)
  moreover have "from_then t0 (th_found (moved w s))"
    using from_then_later [OF \<open>from_then t0 (th_found w)\<close>] assms(2) obeys_found [OF \<open>obeys later (moved w s)\<close>]
    by (auto simp: quiet_def intro: later_trans)
  ultimately show ?thesis using assms by (fastforce simp: since_def)
qed

interpretation since: client_invariant "since t0 base" "\<lambda>_. True" env cfg ctx for t0 base env cfg ctx
  by unfold_locales (auto intro: since_moved client_move_quiet http_quiet)

section \<open>Where answers come from\<close>

text \<open>
  \<open>answered env t0 req b\<close>: at some instant from \<open>t0\<close> on, in some state, the server answers the
  request with the body \<open>b\<close> and a status below 400.
\<close>

definition answered ::
  "'h http_env \<Rightarrow> time \<Rightarrow> string \<Rightarrow> string \<Rightarrow> json option \<Rightarrow> json option \<Rightarrow> bool" where
  "answered env t0 verb url body b \<longleftrightarrow>
     (\<exists>now tok h status hdr len. t0 \<le> now \<and> status < 400 \<and>
        fst (he_server env now (admin_request tok verb url body) h) = Answer status hdr b len None)"

lemma http_answer:
  assumes "http_exchange srv timeout ctx req now h = (r, t, h')"
  shows "case r of
      Inl e \<Rightarrow> \<not> errors_Is e ErrNoSubject
    | Inr resp \<Rightarrow> (case resp_readErr resp of
        Some e \<Rightarrow> \<not> errors_Is e ErrNoSubject
      | None \<Rightarrow> \<exists>hdr len. fst (srv now req h) = Answer (resp_status resp) hdr (resp_body resp) len None)"
  using assms
  by (auto simp: http_exchange_def Let_def ErrNoSubject_def context_DeadlineExceeded_def
      split: if_splits prod.splits http_answer.splits option.splits)

lemma since_exchange:
  assumes "\<And>now h r t h'. t0 \<le> now \<Longrightarrow>
    http_exchange (he_server env) (kc_Timeout cfg) ctx req now h = (r, t, h') \<Longrightarrow> R r"
  shows "keeps (since t0 base) (kc_http env (kc_Timeout cfg) ctx req) R"
proof -
  have "keeps (since t0 base) (atomic (\<lambda>s.
      case http_exchange (he_server env) (kc_Timeout cfg) ctx req (clk_now (ts_clock s)) (ts_http s) of
        (r, t, h) \<Rightarrow> ((r, t), s\<lparr>ts_http := h\<rparr>))) (\<lambda>(r, t). R r)"
  proof (rule keeps_atomic)
    fix w
    assume w: "since t0 base w"
    then have "t0 \<le> clk_now (ts_clock (th_found w))" by (simp add: since_def from_then_def)
    moreover have "since t0 base (moved w ((th_found w)\<lparr>ts_http := h\<rparr>))" for h
      by (rule since_moved [OF w http_quiet(1)])
    ultimately show "since t0 base (moved w (snd (case http_exchange (he_server env) (kc_Timeout cfg) ctx req
          (clk_now (ts_clock (th_found w))) (ts_http (th_found w)) of (r, t, h) \<Rightarrow> ((r, t), (th_found w)\<lparr>ts_http := h\<rparr>)))) \<and>
        (case fst (case http_exchange (he_server env) (kc_Timeout cfg) ctx req (clk_now (ts_clock (th_found w)))
          (ts_http (th_found w)) of (r, t, h) \<Rightarrow> ((r, t), (th_found w)\<lparr>ts_http := h\<rparr>)) of (r, t) \<Rightarrow> R r)"
      using assms by (auto split: prod.splits)
  qed
  then show ?thesis
    unfolding kc_http_def
    by (rule keeps_bind) (auto intro!: keeps_bind [OF since.i_receive_step] keeps_pure)
qed

abbreviation plain :: "go_error \<Rightarrow> bool" where
  "plain e \<equiv> \<not> errors_Is e ErrNoSubject"

lemma since_http:
  "keeps (since t0 base) (kc_http env (kc_Timeout cfg) ctx (admin_request tok verb url body))
     (\<lambda>r. case r of
        Inl e \<Rightarrow> plain e
      | Inr resp \<Rightarrow> (case resp_readErr resp of
          Some e \<Rightarrow> plain e
        | None \<Rightarrow> resp_status resp < 400 \<longrightarrow> answered env t0 verb url body (resp_body resp)))"
  by (rule since_exchange)
    (drule http_answer, fastforce simp: answered_def split: sum.splits option.splits)

lemma since_http_plain:
  "keeps (since t0 base) (kc_http env (kc_Timeout cfg) ctx req)
     (\<lambda>r. case r of Inl e \<Rightarrow> plain e | Inr resp \<Rightarrow> \<forall>e. resp_readErr resp = Some e \<longrightarrow> plain e)"
  by (rule since_exchange) (drule http_answer, auto split: sum.splits option.splits)

lemma NoSubject_distinct [simp]: "ErrNoSubject \<noteq> Errorf m" "ErrNoSubject \<noteq> Wrapf a e b"
  by (simp_all add: ErrNoSubject_def)

lemma json_plain [simp]: "plain json_error" "plain json_syntax_error"
  by (simp_all add: json_error_def json_syntax_error_def ErrNoSubject_def)

lemma dec_members_error:
  "dec_members into f ms acc = Inl e \<Longrightarrow> acc = Inl e \<or> (\<exists>v j. into v j = Inl e)"
proof (induction ms arbitrary: acc)
  case (Cons m ms)
  obtain k j where m: "m = (k, j)" by (cases m)
  let ?acc = "if field_is f k then (case acc of Inl e \<Rightarrow> Inl e | Inr v \<Rightarrow> into v j) else acc"
  from Cons.prems m have "?acc = Inl e \<or> (\<exists>v j. into v j = Inl e)"
    using Cons.IH [of ?acc] by simp
  then show ?case by (cases acc) (auto split: if_splits)
qed simp

lemma dec_token_error: "dec_token j = Inl e \<Longrightarrow> e = json_error"
  by (auto simp: dec_token_def dec_field_def set_str_def set_int64_def split: sum.splits json.splits
      if_splits dest!: dec_members_error)

lemma unmarshal_token_plain: "unmarshal dec_token b = Inl e \<Longrightarrow> plain e"
  by (auto simp: unmarshal_def split: option.splits dest: dec_token_error)

lemma since_fetch_token:
  "keeps (since t0 base) (fetch_token env cfg ctx) (\<lambda>r. \<forall>e. r = Inl e \<longrightarrow> plain e)"
  unfolding fetch_token_def
  by (intro keeps_bind [OF since_http_plain] since.i_rules keeps_pure)
    (auto split: option.splits dest: unmarshal_token_plain)

lemma since_Token: "keeps (since t0 base) (Token env cfg ctx) (\<lambda>r. \<forall>e. r = Inl e \<longrightarrow> plain e)"
  unfolding Token_def by (intro since.i_rules keeps_pure since_fetch_token; simp)

abbreviation origin where
  "origin env t0 verb url body r \<equiv> (case r of Inl e \<Rightarrow> plain e | Inr b \<Rightarrow> answered env t0 verb url body b)"

lemma since_do_loop:
  "plain e \<Longrightarrow> keeps (since t0 base) (do_loop env cfg ctx verb url body n e) (origin env t0 verb url body)"
proof (induction n arbitrary: e)
  case 0
  then show ?case by (simp add: keeps_pure)
next
  case (Suc n)
  show ?case unfolding do_loop.simps
    by (intro keeps_bind [OF since_Token] keeps_bind [OF since_http] since.i_rules keeps_pure Suc.IH)
      (auto simp: readAllClose_def split: option.splits)
qed

lemma since_do: "keeps (since t0 base) (kc_do env cfg ctx verb url body) (origin env t0 verb url body)"
  unfolding kc_do_def by (rule since_do_loop) simp

definition evaluate_url :: "kc_Config \<Rightarrow> string \<Rightarrow> string" where
  "evaluate_url cfg uuid =
     adminURL cfg (''/clients/'' @ PathEscape uuid @ ''/authz/resource-server/policy/evaluate'')"

text \<open>Keycloak grants an action on a resource at some instant from \<open>t0\<close> on; it answers at all.\<close>

definition permits :: "'h http_env \<Rightarrow> kc_Config \<Rightarrow> time \<Rightarrow> string \<Rightarrow> string \<Rightarrow> bool" where
  "permits env cfg t0 resource action \<longleftrightarrow>
     (\<exists>userID uuid b. answered env t0 ''POST'' (evaluate_url cfg uuid)
        (Some (eval_body userID resource action)) b \<and>
        unmarshal (str_field ''status'') b = Inr ''PERMIT'')"

definition reachable :: "'h http_env \<Rightarrow> time \<Rightarrow> bool" where
  "reachable env t0 \<longleftrightarrow> (\<exists>verb url body b. answered env t0 verb url body b)"

lemma answered_mono: "answered env t1 verb url body b \<Longrightarrow> t0 \<le> t1 \<Longrightarrow> answered env t0 verb url body b"
  unfolding answered_def by (meson order_trans)

lemma permits_mono: "permits env cfg t1 resource action \<Longrightarrow> t0 \<le> t1 \<Longrightarrow> permits env cfg t0 resource action"
  unfolding permits_def by (meson answered_mono)

lemma answered_reachable: "answered env t0 verb url body b \<Longrightarrow> reachable env t0"
  unfolding reachable_def by blast

lemma since_Evaluate:
  "keeps (since t0 base) (Evaluate env cfg ctx userID resource scope)
     (\<lambda>r. (r = Inr True \<longrightarrow> permits env cfg t0 resource scope) \<and> (\<forall>g. r = Inr g \<longrightarrow> reachable env t0))"
  unfolding Evaluate_def
  by (intro keeps_bind [OF since.i_ResourceServerUUID] keeps_bind [OF since_do] since.i_rules keeps_pure)
    (auto simp: permits_def evaluate_url_def dest: answered_reachable split: option.splits)

lemma since_UserID:
  "keeps (since t0 base) (UserID env cfg ctx username)
     (\<lambda>r. \<forall>e. r = Inl e \<longrightarrow> errors_Is e ErrNoSubject \<longrightarrow> reachable env t0)"
  unfolding UserID_def
  by (intro keeps_bind [OF since_do] since.i_rules keeps_pure) (auto dest: answered_reachable)

lemma since_evaluate:
  "keeps (since t0 base) (evaluate env cfg ctx req)
     (\<lambda>r. \<forall>d. r = Inr d \<longrightarrow>
        (Allowed d \<longrightarrow> d = Permit \<and> permits env cfg t0 (resourceName req) (Req_Action req)) \<and>
        reachable env t0)"
  unfolding evaluate_def
  by (intro keeps_bind [OF since_UserID] keeps_bind [OF since_Evaluate] keeps_bind [OF since.i_AllowedRefs]
      since.i_rules keeps_pure)
    (auto simp: grantDenied_def refDenied_def)

section \<open>One authorization\<close>

lemma settings_good:
  assumes "settings_ok s"
  shows "cache_good (cl_userIDs s)" "cache_good (cl_refs s)" "cache_good (au_decisions s)"
    "ttl (cl_userIDs s) = 10 * Minute" "ttl (cl_refs s) = 30 * Second" "ttl (au_decisions s) = 30 * Second"
    "stale_window (au_decisions s) = 330 * Second"
  using assms
  by (simp_all add: settings_ok_def settings_def cache_good_def stale_window_def userIDTTL_def refsTTL_def
      decisionTTL_def decisionStaleFor_def durations)

text \<open>A read of a cache: the entry is the one of its first step, and young enough then.\<close>

lemma cached_read:
  fixes w :: "'h Authorizer thread"
  assumes "obeys later w" and "run_state (do { c \<leftarrow> peek sel; kc_aged get c key }) w = (v, w1)"
  obtains s1 s2 where "th_own w1 = th_own w @ [(th_found w, th_found w), (s1, s2)]"
    and "clk_now (ts_clock (th_found w)) \<le> clk_now (ts_clock s1)" and "v = fst (get (sel (th_found w)) key (ts_clock s1))"
proof -
  let ?w = "moved w (th_found w)"
  let ?s = "th_found ?w"
  have "later (th_found w) ?s" using obeys_found [of later ?w] assms(1) by simp
  moreover have "w1 = moved ?w (?s\<lparr>ts_clock := snd (get (sel (th_found w)) key (ts_clock ?s))\<rparr>)"
    "v = fst (get (sel (th_found w)) key (ts_clock ?s))"
    using assms(2) by (auto simp: kc_aged_def run_atomic split: prod.splits)
  ultimately show thesis by (intro that) (auto simp: later_def)
qed

text \<open>The steps of an execution in which a permit of some age was found, or the stale-permit warning given\<close>

definition held_within :: "duration \<Rightarrow> Request \<Rightarrow> ('h Authorizer \<times> 'h Authorizer) list \<Rightarrow> bool" where
  "held_within d req tr \<longleftrightarrow> (\<exists>(u, v) \<in> set tr. \<exists>t.
     cache_holds (au_decisions u) (decisionKey req) = Some (True, t) \<and> clk_now (ts_clock u) - t \<le> d)"

definition warned_stale :: "('h Authorizer \<times> 'h Authorizer) list \<Rightarrow> bool" where
  "warned_stale tr \<longleftrightarrow> (\<exists>(u, v) \<in> set tr. cl_log v = cl_log u @ [(LWarn, stale_warning)])"

lemma permit_read:
  assumes "since t0 base w" and "run_state (do { c \<leftarrow> peek au_decisions; kc_aged get c (decisionKey req) }) w = (Some True, w1)"
    and "\<And>clk. settings_ok (th_found w) \<Longrightarrow> fst (get (au_decisions (th_found w)) (decisionKey req) clk) = Some True \<Longrightarrow>
      \<exists>t. cache_holds (au_decisions (th_found w)) (decisionKey req) = Some (True, t) \<and> clk_now clk - t \<le> d"
  shows "held_within d req (th_own w1)"
proof -
  have "obeys later w" and ok: "settings_ok (th_found w)" using assms(1) by (auto simp: since_def from_then_def)
  from cached_read [OF this(1) assms(2)] obtain s1 s2
    where own: "th_own w1 = th_own w @ [(th_found w, th_found w), (s1, s2)]"
      and "clk_now (ts_clock (th_found w)) \<le> clk_now (ts_clock s1)"
      and "fst (get (au_decisions (th_found w)) (decisionKey req) (ts_clock s1)) = Some True" by metis
  with assms(3) [OF ok] have "\<exists>t. cache_holds (au_decisions (th_found w)) (decisionKey req) = Some (True, t) \<and>
    clk_now (ts_clock (th_found w)) - t \<le> d" by (meson diff_right_mono order_trans)
  with own show ?thesis by (auto simp: held_within_def)
qed

lemma decisions_read:
  assumes "since t0 base w"
  shows "run_state (decisions_Get (decisionKey req)) w = (Some True, w1) \<Longrightarrow> held_within (30 * Second) req (th_own w1)"
    and "run_state (decisions_GetStale (decisionKey req)) w = (Some True, w1) \<Longrightarrow>
      held_within (330 * Second) req (th_own w1)"
  unfolding decisions_Get_def decisions_GetStale_def
  by (auto intro!: permit_read [OF assms]
      simp: fresh_cache.hit_iff stale_cache.hit_iff settings_good)

lemma since_decisions_Get:
  "keeps (since t0 base) (decisions_Get key) any" "keeps (since t0 base) (decisions_GetStale key) any"
  unfolding decisions_Get_def decisions_GetStale_def
  by (auto intro!: keeps_bind [OF since.i_peek] since.i_aged)

lemma held_within_more: "held_within d req tr \<Longrightarrow> set tr \<subseteq> set tr' \<Longrightarrow> held_within d req tr'"
  by (auto simp: held_within_def)

text \<open>
  The steps of an authorization are quiet, but for the one that stores a permit Keycloak gave; and a
  permit was found in the cache, or given by Keycloak.
\<close>

definition authorized_step :: "'h http_env \<Rightarrow> kc_Config \<Rightarrow> time \<Rightarrow> Request \<Rightarrow> Decision result \<Rightarrow>
    'h Authorizer \<times> 'h Authorizer \<Rightarrow> bool" where
  "authorized_step env cfg t0 req r = (\<lambda>(u, v). from_then t0 u \<and>
     (quiet u v \<or> r = Inr Permit \<and> permits env cfg t0 (resourceName req) (Req_Action req) \<and> stores req u v))"

definition outcome :: "'h http_env \<Rightarrow> kc_Config \<Rightarrow> time \<Rightarrow> Request \<Rightarrow> Decision result \<Rightarrow>
    ('h Authorizer \<times> 'h Authorizer) list \<Rightarrow> bool" where
  "outcome env cfg t0 req r tr \<longleftrightarrow>
     r = Inr Permit \<and>
       (held_within (30 * Second) req tr \<or> held_within (330 * Second) req tr \<and> warned_stale tr \<or>
        permits env cfg t0 (resourceName req) (Req_Action req) \<and> reachable env t0) \<or>
     (\<forall>d. r = Inr d \<longrightarrow> \<not> Allowed d \<and> reachable env t0)"

lemma since_quiet: "since t0 [] w \<Longrightarrow> \<forall>x \<in> set (th_own w). authorized_step env cfg t0 req r x"
  by (auto simp: since_def authorized_step_def)

lemma decisions_Put_stores:
  assumes "run_state (decisions_Put (decisionKey req) True) w = ((), w')"
  shows "th_own w' = th_own w @ [(th_found w, th_mem w')]" and "stores req (th_found w) (th_mem w')"
  using assms
  by (auto simp: decisions_Put_def run_atomic stores_def later_def settings_def cache_Put_def Now_def)

lemma kc_Authorize_view:
  assumes "since t0 [] w" and "run_state (kc_Authorize env cfg ctx req) w = (r, w')"
  shows "(\<forall>x \<in> set (th_own w'). authorized_step env cfg t0 req r x) \<and> outcome env cfg t0 req r (th_own w')"
proof -
  obtain v w1 where get: "run_state (decisions_Get (decisionKey req)) w = (v, w1)" by (rule prod.exhaust)
  have w1: "since t0 [] w1" using keepsD [OF since_decisions_Get(1) assms(1) get] ..
  show ?thesis
  proof (cases "v = Some True")
    case True
    with assms(2) get have "r = Inr Permit" "w' = w1" by (simp_all add: kc_Authorize_def)
    with decisions_read(1) [OF assms(1)] get True since_quiet [OF w1] show ?thesis by (simp add: outcome_def)
  next
    case miss: False
    obtain r1 w2 where ev: "run_state (evaluate env cfg ctx req) w1 = (r1, w2)" by (rule prod.exhaust)
    note w2 = keepsD [OF since_evaluate w1 ev]
    show ?thesis
    proof (cases r1)
      case (Inl e)
      obtain u w3 where st: "run_state (decisions_GetStale (decisionKey req)) w2 = (u, w3)" by (rule prod.exhaust)
      have w3: "since t0 [] w3" using keepsD [OF since_decisions_Get(2) _ st] w2 by blast
      show ?thesis
      proof (cases "u = Some True")
        case True
        have warn: "run_state (cl_warn stale_warning) w3 = ((), w')" and r: "r = Inr Permit"
          using assms(2) get miss ev Inl st True by (auto simp: kc_Authorize_def split: prod.splits)
        have w': "since t0 [] w'" using keepsD [OF since.i_actions(10) w3 warn] ..
        have "warned_stale (th_own w')" and more: "set (th_own w3) \<subseteq> set (th_own w')"
          using warn by (auto simp: cl_warn_def run_atomic warned_stale_def)
        moreover have "held_within (330 * Second) req (th_own w3)"
          using decisions_read(2) [of t0 "[]" w2 req w3] w2 st True by blast
        ultimately show ?thesis
          using since_quiet [OF w'] held_within_more [OF _ more] by (simp add: outcome_def r)
      next
        case False
        then have "r = Inl e" "w' = w3" using assms(2) get miss ev Inl st by (auto simp: kc_Authorize_def)
        with since_quiet [OF w3] show ?thesis by (simp add: outcome_def)
      qed
    next
      case (Inr d)
      show ?thesis
      proof (cases "Allowed d")
        case True
        with w2 Inr have d: "d = Permit" and p: "permits env cfg t0 (resourceName req) (Req_Action req)"
          and reach: "reachable env t0" by auto
        from assms(2) get miss ev Inr True d have r: "r = Inr Permit"
          and put: "run_state (decisions_Put (decisionKey req) True) w2 = ((), w')"
          by (auto simp: kc_Authorize_def split: prod.splits)
        have "from_then t0 (th_found w2)" and quiet: "since t0 [] w2" using w2 by (auto simp: since_def)
        then have "authorized_step env cfg t0 req r (th_found w2, th_mem w')"
          using decisions_Put_stores(2) [OF put] p r by (simp add: authorized_step_def)
        then show ?thesis
          using since_quiet [OF quiet] r p reach by (simp add: decisions_Put_stores(1) [OF put] outcome_def)
      next
        case False
        then have "r = Inr d" "w' = w2" using assms(2) get miss ev Inr by (auto simp: kc_Authorize_def)
        moreover have "since t0 [] w2" "reachable env t0" using w2 Inr by auto
        ultimately show ?thesis using False since_quiet [of t0 w2] by (simp add: outcome_def)
      qed
    qed
  qed
qed

section \<open>Whole executions\<close>

text \<open>
  Every step of every request keeps to what the others rely on, whatever they do; and a request begins
  with the first step it makes.
\<close>

definition orderly :: "'h Authorizer thread \<Rightarrow> bool" where
  "orderly w \<longleftrightarrow> (\<forall>(u, v) \<in> set (th_own w). later u v)"

lemma store_later:
  "later s (s\<lparr>ts_clock := elapse (ts_clock s),
     au_decisions := fst (cache_Put (au_decisions s) key v (ts_clock s))\<rparr>)"
  by (simp add: later_def settings_def cache_Put_laws)

interpretation orderly: authorizer_invariant orderly "\<lambda>_. True" env cfg ctx for env cfg ctx
  using client_move_quiet http_quiet
  by unfold_locales (auto simp: orderly_def quiet_def store_later)

definition begun :: "'s \<Rightarrow> 's thread \<Rightarrow> bool" where
  "begun s w \<longleftrightarrow> (\<exists>v tr. th_own w = (s, v) # tr)"

interpretation begun: authorizer_invariant "begun s" "\<lambda>_. True" env cfg ctx for s env cfg ctx
  by unfold_locales (auto simp: begun_def)

lemma begins_with_read:
  fixes w :: "'h Authorizer thread"
  assumes "th_own w = []" and "run_state (do { c \<leftarrow> peek sel; kc_aged get c key } \<bind> k) w = (r, w')"
    and "\<And>v. keeps (begun (th_found w)) (k v) any"
  shows "begun (th_found w) w'"
proof -
  obtain v w1 where read: "run_state (do { c \<leftarrow> peek sel; kc_aged get c key }) w = (v, w1)" by (rule prod.exhaust)
  then have "begun (th_found w) w1" using assms(1) by (auto simp: begun_def kc_aged_def run_atomic split: prod.splits)
  moreover have "run_state (k v) w1 = (r, w')" using assms(2) read by (auto split: prod.splits)
  ultimately show ?thesis using keepsD [OF assms(3)] by blast
qed

text \<open>The memory and the instant at which a goroutine makes its first step\<close>

abbreviation first :: "('s \<times> 's) list \<Rightarrow> 's" where
  "first tr \<equiv> fst (hd tr)"

definition start :: "('h Authorizer \<times> 'h Authorizer) list \<Rightarrow> time" where
  "start tr = clk_now (ts_clock (first tr))"

lemma behaves_since:
  assumes "behaves later m r tr" and "settings_ok (first tr)"
    and "\<And>w w'. th_own w = [] \<Longrightarrow> run_state m w = (r, w') \<Longrightarrow> begun (th_found w) w'"
  obtains w w' where "since (start tr) [] w" and "run_state m w = (r, w')" and "th_own w' = tr"
    and "th_own w = []" and "tr \<noteq> []" and "first tr = th_found w"
proof -
  obtain w w' where w: "th_own w = []" "obeys later w" and run: "run_state m w = (r, w')" "th_own w' = tr"
    using assms(1) by (auto simp: behaves_def)
  with assms(3) [OF w(1) run(1)] obtain v tr' where "tr = (th_found w, v) # tr'" by (auto simp: begun_def)
  with assms(2) w run that show thesis by (auto simp: since_def from_then_def start_def)
qed

lemma kc_Authorize_begins:
  "th_own w = [] \<Longrightarrow> run_state (kc_Authorize env cfg ctx req) w = (r, w') \<Longrightarrow> begun (th_found w) w'"
proof -
  assume w: "th_own w = []" and run: "run_state (kc_Authorize env cfg ctx req) w = (r, w')"
  show ?thesis
    by (rule begins_with_read [OF w run [unfolded kc_Authorize_def decisions_Get_def]])
      (intro begun.i_more keeps_pure; simp)
qed

lemma kc_Authorize_behaves:
  assumes "behaves later (kc_Authorize env cfg ctx req) r tr" and "settings_ok (first tr)"
  shows "tr \<noteq> []" and "x \<in> set tr \<Longrightarrow> authorized_step env cfg (start tr) req r x"
    and "outcome env cfg (start tr) req r tr"
proof -
  from assms obtain w w' where "since (start tr) [] w" and "run_state (kc_Authorize env cfg ctx req) w = (r, w')"
    and "th_own w' = tr" and "tr \<noteq> []"
    by (rule behaves_since) (rule kc_Authorize_begins)
  with kc_Authorize_view show "tr \<noteq> []" and "x \<in> set tr \<Longrightarrow> authorized_step env cfg (start tr) req r x"
    and "outcome env cfg (start tr) req r tr" by blast+
qed

lemma kc_Authorize_orderly:
  assumes "behaves later (kc_Authorize env cfg ctx req) r tr" and "(u, v) \<in> set tr"
  shows "later u v"
proof -
  obtain w w' where "th_own w = []" and run: "run_state (kc_Authorize env cfg ctx req) w = (r, w')" "th_own w' = tr"
    using assms(1) by (auto simp: behaves_def)
  then have "orderly w" by (simp add: orderly_def)
  from keepsD [OF orderly.i_kc_Authorize this run(1)] run(2) assms(2) show ?thesis by (auto simp: orderly_def)
qed

end
