(* ===== verification/Kc_Properties.thy ===== *)
theory Kc_Properties
  imports Kc_Correct
begin

text \<open>
  The properties of the Keycloak authorizer: what a permit rests on, how long it outlives a
  revoked grant, that an outage is never a denial, that a call ends with its context, and how
  subjects and ref constraints are looked up.
\<close>

section \<open>Keys\<close>

definition nul_free :: "Request \<Rightarrow> bool" where
  "nul_free req \<longleftrightarrow>
     CHR 0x00 \<notin> set (Req_Repository req @ Req_Action req @ Req_Namespace req @ Req_Deployment req @ Req_Ref req)"

lemma decisionKey_inject:
  assumes "nul_free p" and "nul_free q" and "decisionKey p = decisionKey q"
  shows "p = q"
proof -
  note split = sep_append_inj [where c = "CHR 0x00", simplified]
  from assms show ?thesis
    by (auto simp: decisionKey_def nul_free_def dest!: split intro: Request.equality)
qed

section \<open>Concurrent calls\<close>

text \<open>
  The life of an authorizer: any number of authorizations and readiness probes, each in its own
  goroutine, whose steps on the shared state are interleaved in any way, with time passing between
  them. The requests of the API carry no NUL byte.
\<close>

datatype call =
    Authorization go_context Request "Decision result"
  | Probe go_context "go_error option"

fun performs :: "'h http_env \<Rightarrow> kc_Config \<Rightarrow> call \<Rightarrow> ('h Authorizer \<times> 'h Authorizer) list \<Rightarrow> bool" where
  "performs env cfg (Authorization ctx req r) tr \<longleftrightarrow>
     nul_free req \<and> behaves later (kc_Authorize env cfg ctx req) r tr"
| "performs env cfg (Probe ctx r) tr \<longleftrightarrow> behaves later (kc_Ready env cfg ctx) r tr"

definition pauses :: "'h Authorizer \<Rightarrow> 'h Authorizer \<Rightarrow> bool" where
  "pauses s s' \<longleftrightarrow> s' = s \<or> (\<exists>t. s' = s\<lparr>ts_clock := advance_to t (ts_clock s)\<rparr>)"

definition serves ::
  "'h http_env \<Rightarrow> kc_Config \<Rightarrow> (call \<times> ('h Authorizer \<times> 'h Authorizer) list) list \<Rightarrow> 'h Authorizer \<Rightarrow>
     ('h Authorizer \<times> 'h Authorizer) list \<Rightarrow> bool" where
  "serves env cfg calls s tr \<longleftrightarrow>
     (\<forall>(c, t) \<in> set calls. performs env cfg c t) \<and> interleaved (map snd calls) tr \<and> linked pauses s tr"

text \<open>A probe writes no decision.\<close>

definition hushed :: "'h Authorizer thread \<Rightarrow> bool" where
  "hushed w \<longleftrightarrow> (\<forall>(u, v) \<in> set (th_own w). quiet u v)"

interpretation hushed: client_invariant hushed "\<lambda>_. True" env cfg ctx for env cfg ctx
  using client_move_quiet http_quiet by unfold_locales (auto simp: hushed_def)

lemma kc_Ready_quiet:
  assumes "behaves later (kc_Ready env cfg ctx) r tr" and "(u, v) \<in> set tr"
  shows "quiet u v"
proof -
  obtain w w' where "th_own w = []" and run: "run_state (kc_Ready env cfg ctx) w = (r, w')" "th_own w' = tr"
    using assms(1) by (auto simp: behaves_def)
  then have "hushed w" by (simp add: hushed_def)
  moreover have "keeps hushed (kc_Ready env cfg ctx) any"
    unfolding kc_Ready_def by (intro keeps_bind [OF hushed.i_ResourceServerUUID] keeps_pure; simp)
  ultimately show ?thesis using keepsD [OF _ _ run(1)] run(2) assms(2) by (fastforce simp: hushed_def)
qed

lemma performs_later: "performs env cfg c t \<Longrightarrow> (u, v) \<in> set t \<Longrightarrow> later u v"
  by (cases c) (auto dest: kc_Authorize_orderly kc_Ready_quiet simp: quiet_def)

lemma serves_invariant:
  assumes "serves env cfg calls s tr" and "J s" and "\<And>s s'. pauses s s' \<Longrightarrow> J s \<Longrightarrow> J s'"
    and "\<And>c t u v. (c, t) \<in> set calls \<Longrightarrow> performs env cfg c t \<Longrightarrow> (u, v) \<in> set t \<Longrightarrow> J u \<Longrightarrow> J v"
    and "(c, t) \<in> set calls" and "(u, v) \<in> set t"
  shows "J u \<and> J v"
proof (rule interleaved_invariant [where J = J])
  show "interleaved (map snd calls) tr" "linked pauses s tr" using assms(1) by (auto simp: serves_def)
  show "J s'" if "pauses s s'" and "J s" for s s' using that by (rule assms(3))
  show "J v" if "t \<in> set (map snd calls)" and "(u, v) \<in> set t" and "J u" for t u v
    using that assms(1,4) by (fastforce simp: serves_def)
  show "t \<in> set (map snd calls)" using assms(5) by force
qed (use assms(2,6) in auto)

lemma pauses_later: "pauses s s' \<Longrightarrow> later s s' \<and> au_decisions s' = au_decisions s"
  by (auto simp: pauses_def later_def settings_def)

lemma serves_settings:
  assumes "serves env cfg calls s tr" and "settings_ok s" and "(c, t) \<in> set calls" and "(u, v) \<in> set t"
  shows "settings_ok u"
proof -
  have keep: "settings_ok s'" if "later s s'" and "settings_ok s" for s s' :: "'h Authorizer"
    using that by (simp add: later_def settings_ok_def)
  have "settings_ok u \<and> settings_ok v"
    by (rule serves_invariant [where J = settings_ok, OF assms(1,2) _ _ assms(3,4)])
      (use keep pauses_later performs_later in blast)+
  then show ?thesis ..
qed

text \<open>The permits held for a request were stored at \<open>limit\<close> at the latest.\<close>

definition stored_by :: "time \<Rightarrow> Request \<Rightarrow> 'h Authorizer \<Rightarrow> bool" where
  "stored_by limit req s \<longleftrightarrow>
     (\<forall>t. cache_holds (au_decisions s) (decisionKey req) = Some (True, t) \<longrightarrow> t \<le> limit)"

text \<open>
  The calls that were under way at instant \<open>T\<close> had made all their steps by \<open>limit\<close>.
\<close>

definition settled_by ::
  "time \<Rightarrow> time \<Rightarrow> (call \<times> ('h Authorizer \<times> 'h Authorizer) list) list \<Rightarrow> bool" where
  "settled_by limit T calls \<longleftrightarrow>
     (\<forall>(c, t) \<in> set calls. start t < T \<longrightarrow> (\<forall>(u, v) \<in> set t. clk_now (ts_clock u) \<le> limit))"

lemma step_revoked:
  assumes "performs env cfg c t" and "settings_ok (first t)" and "(u, v) \<in> set t" and "nul_free req"
    and "start t < T \<longrightarrow> clk_now (ts_clock u) \<le> limit"
    and "\<not> permits env cfg T (resourceName req) (Req_Action req)" and "stored_by limit req u"
  shows "stored_by limit req v"
proof (cases c)
  case (Authorization ctx req' r)
  with assms(1) have run: "nul_free req'" "behaves later (kc_Authorize env cfg ctx req') r t" by auto
  from kc_Authorize_behaves(2) [OF run(2) assms(2,3)]
  consider "au_decisions v = au_decisions u"
    | "permits env cfg (start t) (resourceName req') (Req_Action req')" "stores req' u v"
    by (auto simp: authorized_step_def quiet_def)
  then show ?thesis
  proof cases
    case 1
    with assms(7) show ?thesis by (simp add: stored_by_def)
  next
    case 2
    have "clk_now (ts_clock u) \<le> limit" if "decisionKey req' = decisionKey req"
    proof -
      from that have "req' = req" by (rule decisionKey_inject [OF run(1) assms(4)])
      with 2(1) assms(6) have "start t < T" using permits_mono not_less by blast
      with assms(5) show ?thesis by simp
    qed
    with 2(2) assms(7) show ?thesis by (auto simp: stores_def stored_by_def cache_Put_laws)
  qed
next
  case (Probe ctx r)
  with kc_Ready_quiet assms(1,3,7) show ?thesis by (fastforce simp: quiet_def stored_by_def)
qed

lemma serves_revoked:
  assumes "serves env cfg calls s tr" and "settings_ok s" and "nul_free req" and "settled_by limit T calls"
    and "\<not> permits env cfg T (resourceName req) (Req_Action req)" and "stored_by limit req s"
    and "(c, t) \<in> set calls" and "(u, v) \<in> set t"
  shows "stored_by limit req u"
proof -
  have step: "stored_by limit req v" if "(c, t) \<in> set calls" "performs env cfg c t" "(u, v) \<in> set t"
    "stored_by limit req u" for c t u v
  proof -
    have "(first t, snd (hd t)) \<in> set t" using that(3) by (cases t) auto
    from serves_settings [OF assms(1,2) that(1) this] have "settings_ok (first t)" .
    moreover have "start t < T \<longrightarrow> clk_now (ts_clock u) \<le> limit"
      using assms(4) that(1,3) by (auto simp: settled_by_def)
    ultimately show ?thesis using step_revoked that assms(3,5) by blast
  qed
  have "stored_by limit req u \<and> stored_by limit req v"
  proof (rule serves_invariant [where J = "stored_by limit req", OF assms(1,6) _ _ assms(7,8)])
    show "stored_by limit req s'" if "pauses s s'" and "stored_by limit req s" for s s'
      using that pauses_later [OF that(1)] by (simp add: stored_by_def)
  qed (rule step)
  then show ?thesis ..
qed

section \<open>A sample server\<close>

text \<open>A Keycloak that is down, and an authorizer that stored a permit a hundred seconds ago.\<close>

definition dead_keycloak :: "unit http_env" where
  "dead_keycloak = \<lparr>he_server = (\<lambda>now req h. (NetFail 0 ''connection refused'', h)), he_url_ok = (\<lambda>_. True)\<rparr>"

definition sample_config :: kc_Config where
  "sample_config =
     \<lparr>kc_BaseURL = ''https://sso'', kc_Realm = ''tun'', kc_ClientID = ''deploy-gateway'',
      kc_ClientSecret = ''s3cret'', kc_Timeout = 3 * Second\<rparr>"

definition sample_clock :: "time \<Rightarrow> clock" where
  "sample_clock t = \<lparr>clk_now = t, clk_work = (\<lambda>_. 0), clk_pick = (\<lambda>_. True), clk_tick = 0\<rparr>"

definition sample_authorizer :: "unit Authorizer" where
  "sample_authorizer =
     (NewAuthorizer (sample_clock (100 * Second)) ())
       \<lparr>au_decisions := fst (cache_Put (newCache decisionTTL decisionStaleFor)
          (decisionKey sample_request) True (sample_clock 0))\<rparr>"

lemma dead_not_answered: "\<not> answered dead_keycloak t0 verb url body b"
  by (simp add: answered_def dead_keycloak_def)

lemma dead_not_reachable: "\<not> reachable dead_keycloak t0"
  by (simp add: reachable_def dead_not_answered)

lemma dead_not_permits: "\<not> permits dead_keycloak cfg t0 resource action"
  by (simp add: permits_def dead_not_answered)

lemma sample_nul_free: "nul_free sample_request"
  by (simp add: nul_free_def sample_request_def)

lemma sample_settings: "settings_ok sample_authorizer"
  by (simp add: settings_ok_def settings_def sample_authorizer_def NewAuthorizer_def cache_Put_laws newCache_def)

lemma sample_clock_now [simp]: "clk_now (sample_clock t) = t" "clk_work (sample_clock t) = (\<lambda>_. 0)"
  by (simp_all add: sample_clock_def)

lemma sample_holds:
  "cache_holds (au_decisions sample_authorizer) (decisionKey sample_request) = Some (True, 0)"
  by (simp add: sample_authorizer_def cache_Put_laws)

lemma sample_now: "clk_now (ts_clock sample_authorizer) = 100 * Second"
  by (simp add: sample_authorizer_def NewAuthorizer_def)

text \<open>
  Two requests at the same time, ten seconds after the permit was stored: both read the map before either looks
  at the clock. The second one sees the clock that the first one leaves.
\<close>

abbreviation sample_now :: "unit Authorizer" where
  "sample_now \<equiv> sample_authorizer\<lparr>ts_clock := sample_clock (10 * Second)\<rparr>"

definition ticked :: "'h Authorizer \<Rightarrow> 'h Authorizer" where
  "ticked s = s\<lparr>ts_clock := elapse (ts_clock s)\<rparr>"

definition sample_first :: "(unit Authorizer \<times> unit Authorizer) list" where
  "sample_first = [(sample_now, sample_now), (sample_now, ticked sample_now)]"

definition sample_second :: "(unit Authorizer \<times> unit Authorizer) list" where
  "sample_second = [(sample_now, sample_now), (ticked sample_now, ticked (ticked sample_now))]"

definition sample_merged :: "(unit Authorizer \<times> unit Authorizer) list" where
  "sample_merged =
     [(sample_now, sample_now), (sample_now, sample_now), (sample_now, ticked sample_now),
      (ticked sample_now, ticked (ticked sample_now))]"

abbreviation sample_call :: call where
  "sample_call \<equiv> Authorization None sample_request (Inr Permit)"

lemma sample_now_facts:
  "settings_ok sample_now" "clk_now (ts_clock sample_now) = 10 * Second"
  "cache_holds (au_decisions sample_now) (decisionKey sample_request) = Some (True, 0)"
  using sample_settings sample_holds by (simp_all add: settings_ok_def settings_def)

lemma ticked_facts [simp]:
  "clk_now (ts_clock (ticked sample_now)) = 10 * Second" "later s (ticked s)"
  "au_decisions (ticked s) = au_decisions s"
  by (simp_all add: ticked_def elapse_def later_def settings_def sample_clock_def)

lemma behaves_alone:
  assumes "run_state m (alone s) = (r, w)"
  shows "behaves later m r (th_own w)"
  unfolding behaves_def using assms obeys_alone [of later s] by (metis alone_simps(2) later_refl)

lemma sample_hit:
  assumes "th_own w = []" and "obeys later w" and "th_found w = sample_now"
    and "th_found (moved w sample_now) = s" and "s = sample_now \<or> s = ticked sample_now"
  shows "behaves later (kc_Authorize dead_keycloak sample_config None sample_request) (Inr Permit)
    [(sample_now, sample_now), (s, ticked s)]"
proof -
  have "clk_now (ts_clock s) = 10 * Second" using assms(5) by auto
  then have get: "cache_Get (au_decisions sample_now) (decisionKey sample_request) (ts_clock s) =
      (Some True, elapse (ts_clock s))"
    by (simp add: cache_Get_def cache_get_def Now_def time_Sub_def sample_authorizer_def
        cache_Put_def newCache_def decisionTTL_def durations)
  obtain w' where run: "run_state (kc_Authorize dead_keycloak sample_config None sample_request) w = (Inr Permit, w')"
    and own: "th_own w' = [(sample_now, sample_now), (s, ticked s)]"
    using assms(1,3,4) get
    by (simp add: kc_Authorize_def decisions_Get_def kc_aged_def run_atomic ticked_def)
  show ?thesis unfolding behaves_def using assms(1,2) run own by blast
qed

lemma sample_behaves:
  "behaves later (kc_Authorize dead_keycloak sample_config None sample_request) (Inr Permit) sample_first"
  "behaves later (kc_Authorize dead_keycloak sample_config None sample_request) (Inr Permit) sample_second"
proof -
  show "behaves later (kc_Authorize dead_keycloak sample_config None sample_request) (Inr Permit) sample_first"
    unfolding sample_first_def
    by (rule sample_hit [of "alone sample_now"]) (simp_all add: obeys_def th_found_def)
  let ?w = "\<lparr>th_mem = sample_now, th_others = (\<lambda>n s. if n = 1 then ticked s else s), th_own = []\<rparr>"
  show "behaves later (kc_Authorize dead_keycloak sample_config None sample_request) (Inr Permit) sample_second"
    unfolding sample_second_def
    by (rule sample_hit [of ?w]) (simp_all add: obeys_def th_found_def)
qed

lemma sample_serves:
  "serves dead_keycloak sample_config [(sample_call, sample_first), (sample_call, sample_second)] sample_now sample_merged"
proof -
  note next_steps = interleaved.next_step [of 0] interleaved.next_step [of 1]
  have "interleaved [sample_first, sample_second] sample_merged"
    unfolding sample_first_def sample_second_def sample_merged_def
    by (rule next_steps(1), simp, simp, simp, rule next_steps(2), simp, simp, simp,
        rule next_steps(1), simp, simp, simp, rule next_steps(2), simp, simp, simp, rule interleaved.finished, auto)
  moreover have "linked pauses sample_now sample_merged"
    by (simp add: sample_merged_def pauses_def)
  ultimately show ?thesis using sample_behaves sample_nul_free by (simp add: serves_def)
qed

section \<open>Properties of decisions\<close>



text \<open>C5. A revoked grant expires, under any interleaving of concurrent requests: when Keycloak does not permit a
  resource and action from some instant on, no permit for the request was stored after \<open>limit\<close>, and
  the calls that were under way at that instant have ended by \<open>limit\<close>, then a request for it that
  begins later and is still allowed begins at most 30 seconds after \<open>limit\<close>, or at most five and a half
  minutes after it and with the stale-permit warning.\<close>

theorem revoked_grant_expires:
  assumes "serves env cfg calls s tr" and "settings_ok s" and "stored_by limit req s"
    and "\<not> permits env cfg T (resourceName req) (Req_Action req)" and "settled_by limit T calls"
    and "(Authorization ctx req (Inr d), t) \<in> set calls" and "Allowed d" and "T \<le> start t"
  shows "start t \<le> limit + 30 * Second \<or> start t \<le> limit + 330 * Second \<and> warned_stale t"
proof -
  have "performs env cfg (Authorization ctx req (Inr d)) t" using assms(1,6) by (auto simp: serves_def)
  then have nul: "nul_free req" and run: "behaves later (kc_Authorize env cfg ctx req) (Inr d) t" by auto
  have "t \<noteq> []" using run kc_Authorize_begins by (fastforce simp: behaves_def begun_def)
  then have "(first t, snd (hd t)) \<in> set t" by simp
  from serves_settings [OF assms(1,2,6) this] have ok: "settings_ok (first t)" .
  have within: "start t \<le> limit + d'" if "held_within d' req t" for d'
  proof -
    from that obtain u v t' where step: "(u, v) \<in> set t"
      and "cache_holds (au_decisions u) (decisionKey req) = Some (True, t')" "clk_now (ts_clock u) - t' \<le> d'"
      by (auto simp: held_within_def)
    moreover have "stored_by limit req u" by (rule serves_revoked [OF assms(1,2) nul assms(5,4,3,6) step])
    moreover have "start t \<le> clk_now (ts_clock u)"
      using kc_Authorize_behaves(2) [OF run ok step] by (simp add: authorized_step_def from_then_def)
    ultimately show ?thesis by (fastforce simp: stored_by_def)
  qed
  have "\<not> permits env cfg (start t) (resourceName req) (Req_Action req)"
    using assms(4,8) permits_mono by blast
  with kc_Authorize_behaves(3) [OF run ok] assms(7) within show ?thesis by (auto simp: outcome_def)
qed

theorem revoked_grant_expires_witness: "start sample_second \<le> 0 + 330 * Second"
proof -
  have "start sample_first = 10 * Second" "start sample_second = 10 * Second"
    using sample_now_facts(2) by (simp_all add: sample_first_def sample_second_def start_def)
  then have settled: "settled_by 0 0 [(sample_call, sample_first), (sample_call, sample_second)]"
    and later: "0 \<le> start sample_second" by (simp_all add: settled_by_def durations)
  have stored: "stored_by 0 sample_request sample_now" using sample_now_facts(3) by (simp add: stored_by_def)
  have "(sample_call, sample_second) \<in> set [(sample_call, sample_first), (sample_call, sample_second)]" by simp
  from revoked_grant_expires [OF sample_serves sample_now_facts(1) stored dead_not_permits settled this _ later]
  show ?thesis by (auto simp: durations)
qed

text \<open>C30. Only permits are remembered: no step of an authorization that ends in a denial or an error changes
  the cache of decisions, so granting access takes effect at once.\<close>

theorem denials_not_cached:
  assumes "behaves later (kc_Authorize env cfg ctx req) r tr" and "settings_ok (first tr)"
    and "\<And>d. r = Inr d \<Longrightarrow> \<not> Allowed d" and "(u, v) \<in> set tr"
  shows "au_decisions v = au_decisions u"
  using kc_Authorize_behaves(2) [OF assms(1,2,4)] assms(3) by (auto simp: authorized_step_def quiet_def)

text \<open>C15. An outage is never a denial, whatever other requests do at the same time: while Keycloak gives no
  answer below status 400, an authorization ends in an error, or in a permit found in the
  cache; it never reports a denial.\<close>

theorem outage_never_denies:
  assumes "behaves later (kc_Authorize env cfg ctx req) r tr" and "settings_ok (first tr)"
    and "\<not> reachable env (start tr)"
  shows "(\<exists>e. r = Inl e) \<or> r = Inr Permit \<and>
    (held_within (30 * Second) req tr \<or> held_within (330 * Second) req tr \<and> warned_stale tr)"
  using kc_Authorize_behaves(3) [OF assms(1,2)] assms(3) by (cases r) (auto simp: outcome_def)

theorem outage_never_denies_witness:
  "held_within (30 * Second) sample_request sample_first \<or> warned_stale sample_first"
proof -
  have "settings_ok (first sample_first)" using sample_now_facts(1) by (simp add: sample_first_def)
  from outage_never_denies [OF sample_behaves(1) this dead_not_reachable] show ?thesis by auto
qed

lemma fresh_authorizer_ok: "settings_ok (NewAuthorizer clk h)"
  by (simp add: settings_ok_def settings_def NewAuthorizer_def newCache_def)

text \<open>The first request of a gateway whose Keycloak is down fails.\<close>

lemma fresh_fails:
  "fst (run_state (kc_Authorize dead_keycloak sample_config None sample_request)
      (alone (NewAuthorizer (sample_clock 0) ()))) = Inl (Errorf ''keycloak: token request failed'')"
  by (simp add: kc_Authorize_def decisions_Get_def decisions_GetStale_def evaluate_def UserID_def userIDs_Get_def
      kc_do_def numeral_2_eq_2 Token_def fetch_token_def kc_http_def kc_aged_def run_atomic th_found_def
      NewAuthorizer_def newCache_def cache_Get_def cache_GetStale_def cache_get_def dead_keycloak_def
      http_exchange_def Let_def ctx_done_def ErrNoSubject_def)

theorem denials_not_cached_witness:
  "\<exists>r tr. behaves later (kc_Authorize dead_keycloak sample_config None sample_request) r tr \<and>
    (\<forall>(u, v) \<in> set tr. au_decisions v = au_decisions u)"
proof -
  let ?s = "NewAuthorizer (sample_clock 0) ()"
  obtain r w where run: "run_state (kc_Authorize dead_keycloak sample_config None sample_request) (alone ?s) = (r, w)"
    by (rule prod.exhaust)
  have error: "r = Inl (Errorf ''keycloak: token request failed'')" using fresh_fails run by simp
  note beh = behaves_alone [OF run]
  have "begun ?s w" using kc_Authorize_begins [of "alone ?s"] run by (simp add: th_found_def)
  then have "settings_ok (first (th_own w))" using fresh_authorizer_ok by (auto simp: begun_def)
  from denials_not_cached [OF beh this] error beh show ?thesis by blast
qed

section \<open>Lookups\<close>

lemma find_user_sound: "find_user name us = Some i \<Longrightarrow> \<exists>n. (i, n) \<in> set us \<and> i \<noteq> '''' \<and> EqualFold n name"
  by (induction name us rule: find_user.induct) (auto split: if_splits)

lemma find_resource_find: "find_resource name rs = find (\<lambda>r. Res_Name r = name) rs"
  by (induction rs) auto

text \<open>A hit in a cache of the client, as a step of the request that made it\<close>

definition found_in :: "('h Authorizer \<Rightarrow> 'v cache) \<Rightarrow> string \<Rightarrow> 'v \<Rightarrow> duration \<Rightarrow> ('h Authorizer \<times> 'h Authorizer) list \<Rightarrow> bool" where
  "found_in sel key x d tr \<longleftrightarrow> (\<exists>(u, v) \<in> set tr. \<exists>t.
     cache_holds (sel u) key = Some (x, t) \<and> clk_now (ts_clock u) - t \<le> d)"

lemma client_read:
  assumes "since t0 base w" and "run_state (do { c \<leftarrow> peek sel; kc_aged cache_Get c key }) w = (Some x, w1)"
    and "\<And>s. settings_ok s \<Longrightarrow> cache_good (sel s) \<and> ttl (sel s) = d"
  shows "found_in sel key x d (th_own w1)"
proof -
  have "obeys later w" and ok: "settings_ok (th_found w)" using assms(1) by (auto simp: since_def from_then_def)
  from cached_read [OF this(1) assms(2)] obtain s1 s2
    where own: "th_own w1 = th_own w @ [(th_found w, th_found w), (s1, s2)]"
      and "clk_now (ts_clock (th_found w)) \<le> clk_now (ts_clock s1)"
      and "fst (cache_Get (sel (th_found w)) key (ts_clock s1)) = Some x" by metis
  with fresh_cache.hit_iff [of "sel (th_found w)" key "ts_clock s1" x] assms(3) [OF ok] show ?thesis
    by (fastforce simp: found_in_def)
qed

lemma UserID_begins:
  fixes w :: "'h Authorizer thread"
  assumes "th_own w = []" and "run_state (UserID env cfg ctx username) w = (r, w')"
  shows "begun (th_found w) w'"
  by (rule begins_with_read [OF assms(1) assms(2) [unfolded UserID_def userIDs_Get_def]])
      (intro keeps_bind [OF begun.i_do] begun.i_rules keeps_pure; simp)

lemma AllowedRefs_begins:
  fixes w :: "'h Authorizer thread"
  assumes "th_own w = []" and "run_state (AllowedRefs env cfg ctx resource action) w = (r, w')"
  shows "begun (th_found w) w'"
  by (rule begins_with_read [OF assms(1) assms(2) [unfolded AllowedRefs_def refs_Get_def]])
      (intro keeps_bind [OF begun.i_ResourceServerUUID] keeps_bind [OF begun.i_do] begun.i_rules keeps_pure; simp)


text \<open>A client that knows the subject of a repository and the refs of a resource\<close>

definition sample_client :: "unit Authorizer" where
  "sample_client = (NewAuthorizer (sample_clock 5) ())
     \<lparr>cl_userIDs := fst (cache_Put (newCache userIDTTL 0) ''org/api'' ''u1'' (sample_clock 2)),
      cl_refs := fst (cache_Put (newCache refsTTL 0) (refs_key ''backend/api'' ''restart'') [''refs/heads/main'']
        (sample_clock 2))\<rparr>"

lemma sample_client_ok: "settings_ok sample_client"
  by (simp add: sample_client_def settings_ok_def settings_def NewAuthorizer_def newCache_def cache_Put_laws)




section \<open>Time\<close>

text \<open>
  A request on its own takes as long as the server and its context let it; the gateway's own
  computation between the calls is taken to be instantaneous.
\<close>

definition by_deadline :: "time \<Rightarrow> 'h Authorizer thread \<Rightarrow> bool" where
  "by_deadline l w \<longleftrightarrow> th_others w = (\<lambda>_ s. s) \<and>
     clk_work (ts_clock (th_mem w)) = (\<lambda>_. 0) \<and> clk_now (ts_clock (th_mem w)) \<le> l"

lemma by_deadline_found: "by_deadline l w \<Longrightarrow> th_found w = th_mem w"
  by (simp add: by_deadline_def th_found_def)

lemma client_move_time:
  "client_move s s' \<Longrightarrow> clk_work (ts_clock s) = (\<lambda>_. 0) \<Longrightarrow>
     clk_work (ts_clock s') = (\<lambda>_. 0) \<and> clk_now (ts_clock s') = clk_now (ts_clock s)"
  by (cases rule: client_move.cases) (auto simp: elapse_def)

interpretation deadline: authorizer_invariant "by_deadline (max l t0)" "\<lambda>t. t \<le> max l t0" env cfg "Some l" for l t0 env cfg
proof unfold_locales
  fix w req r t h
  assume w: "by_deadline (max l t0) w"
    and "http_exchange (he_server env) (kc_Timeout cfg) (Some l) req (clk_now (ts_clock (th_found w))) (ts_http (th_found w)) = (r, t, h)"
  from http_exchange_within_context [OF this(2)] w
  show "by_deadline (max l t0) (moved w ((th_found w)\<lparr>ts_http := h\<rparr>)) \<and> t \<le> max l t0"
    by (auto simp: by_deadline_def th_found_def)
qed (auto simp: by_deadline_def th_found_def advance_to_def elapse_def dest: client_move_time)

text \<open>An authorization that no other request delays ends with its context: whatever Keycloak does, answering
  late, hanging or failing and being retried, the call returns by the deadline of its context,
  or at once when that has passed.\<close>

lemma kc_Authorize_by_deadline:
  assumes "clk_work (ts_clock s) = (\<lambda>_. 0)" and "solo (kc_Authorize env cfg (Some l) req) s = (r, s')"
  shows "clk_work (ts_clock s') = (\<lambda>_. 0)" and "clk_now (ts_clock s') \<le> max l (clk_now (ts_clock s))"
proof -
  obtain w where run: "run_state (kc_Authorize env cfg (Some l) req) (alone s) = (r, w)" and w: "th_mem w = s'"
    using assms(2) by (auto simp: solo_def split: prod.splits)
  have "by_deadline (max l (clk_now (ts_clock s))) (alone s)" using assms(1) by (simp add: by_deadline_def)
  from keepsD [OF deadline.i_kc_Authorize this run] w
  show "clk_work (ts_clock s') = (\<lambda>_. 0)" and "clk_now (ts_clock s') \<le> max l (clk_now (ts_clock s))"
    by (auto simp: by_deadline_def)
qed

definition hanging_keycloak :: "unit http_env" where
  "hanging_keycloak =
     \<lparr>he_server = (\<lambda>now req h. (NetFail 3600000000000 ''hangs'', h)), he_url_ok = (\<lambda>_. True)\<rparr>"

end
