(* ===== verification/Gateway_Run.thy ===== *)
theory Gateway_Run
  imports Gateway_Boot Dynamo_Properties Dynamo_Shared Manager_Properties Kc_Properties
begin

text \<open>
  The life of the process, the rest of \<^verbatim>\<open>main\<close> in \<^verbatim>\<open>cmd/gateway/main.go\<close>: the goroutine that serves, the
  sweeper, the wait for a signal or a broken server, and shutting down. Its steps are a relation on the record
  \<open>process\<close>, because signals, requests and the scheduler decide which comes next. Of \<^verbatim>\<open>net/http\<close> the documented
  behaviour is used: \<^verbatim>\<open>ListenAndServe\<close> returns \<^verbatim>\<open>ErrServerClosed\<close> once \<^verbatim>\<open>Shutdown\<close> has been called and any other
  error at any time; \<^verbatim>\<open>Shutdown\<close> lets no further request in and returns when no request is in flight, or
  at the end of its context. Time passes only while \<^verbatim>\<open>main\<close> is blocked.
\<close>

section \<open>The process\<close>

definition ErrServerClosed :: go_error where
  "ErrServerClosed = Sentinel ''http: Server closed''"

datatype serving = NotListening | Listening | Returned

datatype main_state = Waiting | ShuttingDown time | Exited int

record process =
  pr_now :: time
  pr_signalled :: bool
  pr_done :: "time option"
  pr_server :: serving
  pr_active :: nat
  pr_sweeping :: bool
  pr_main :: main_state
  pr_log :: log

text \<open>The context of \<^verbatim>\<open>signal.NotifyContext\<close> is done at the first signal or call of \<^verbatim>\<open>stop\<close>, and stays so.\<close>

definition cancel :: "process \<Rightarrow> process" where
  "cancel p = p\<lparr>pr_done := (case pr_done p of None \<Rightarrow> Some (pr_now p) | Some t \<Rightarrow> Some t)\<rparr>"

definition proc_log :: "level \<Rightarrow> string \<Rightarrow> process \<Rightarrow> process" where
  "proc_log l msg p = p\<lparr>pr_log := pr_log p @ [(l, msg)]\<rparr>"

text \<open>What the serving goroutine does when \<^verbatim>\<open>ListenAndServe\<close> has returned \<open>err\<close>\<close>

definition server_returned :: "go_error option \<Rightarrow> process \<Rightarrow> process" where
  "server_returned err p =
     (let p1 = p\<lparr>pr_server := Returned\<rparr> in
      if err \<noteq> None \<and> err \<noteq> Some ErrServerClosed then cancel (proc_log LError ''server'' p1) else p1)"

definition shutdown_timeout :: duration where
  "shutdown_timeout = 15 * Second"

definition begin_shutdown :: "process \<Rightarrow> process" where
  "begin_shutdown p = p\<lparr>pr_main := ShuttingDown (pr_now p + shutdown_timeout)\<rparr>"

definition end_shutdown :: "process \<Rightarrow> process" where
  "end_shutdown p = (proc_log LInfo ''stopped'' p)\<lparr>pr_main := Exited 0\<rparr>"

text \<open>The process when \<^verbatim>\<open>main\<close> has started its goroutines and waits, or has given up\<close>

definition gateway_main ::
  "'h http_env \<Rightarrow> ('kcfg, 'k, 'prov, 'token, 'acfg, 'd) platform \<Rightarrow> time \<Rightarrow> process" where
  "gateway_main henv pf t =
     (let p = \<lparr>pr_now = t, pr_signalled = False, pr_done = None, pr_server = NotListening, pr_active = 0,
               pr_sweeping = False, pr_main = Waiting, pr_log = []\<rparr> in
      case main_boot henv pf of
        Inl (msg, e) \<Rightarrow> (proc_log LError msg p)\<lparr>pr_main := Exited 1\<rparr>
      | Inr g \<Rightarrow> p\<lparr>pr_sweeping := True\<rparr>)"

definition exited :: "process \<Rightarrow> bool" where
  "exited p = (case pr_main p of Exited n \<Rightarrow> True | _ \<Rightarrow> False)"

definition blocked :: "process \<Rightarrow> time \<Rightarrow> bool" where
  "blocked p t =
     (case pr_main p of Waiting \<Rightarrow> pr_done p = None | ShuttingDown l \<Rightarrow> t \<le> l | Exited n \<Rightarrow> False)"

section \<open>Its steps\<close>

inductive proc_step :: "process \<Rightarrow> process \<Rightarrow> bool" where
  clock: "pr_now p \<le> t \<Longrightarrow> blocked p t \<Longrightarrow> proc_step p (p\<lparr>pr_now := t\<rparr>)"
| signal: "\<not> exited p \<Longrightarrow> proc_step p (cancel (p\<lparr>pr_signalled := True\<rparr>))"
| listen: "pr_server p = NotListening \<Longrightarrow> \<not> exited p \<Longrightarrow> proc_step p ((proc_log LInfo ''listening'' p)\<lparr>pr_server := Listening\<rparr>)"
| accept: "pr_server p = Listening \<Longrightarrow> pr_main p = Waiting \<Longrightarrow> proc_step p (p\<lparr>pr_active := Suc (pr_active p)\<rparr>)"
| respond: "pr_active p > 0 \<Longrightarrow> \<not> exited p \<Longrightarrow> proc_step p (p\<lparr>pr_active := pr_active p - 1\<rparr>)"
| broken: "pr_server p = Listening \<Longrightarrow> \<not> exited p \<Longrightarrow> err \<noteq> ErrServerClosed \<Longrightarrow> proc_step p (server_returned (Some err) p)"
| closed: "pr_server p = Listening \<Longrightarrow> pr_main p = ShuttingDown l \<Longrightarrow> proc_step p (server_returned (Some ErrServerClosed) p)"
| sweeper_done: "pr_sweeping p \<Longrightarrow> pr_done p \<noteq> None \<Longrightarrow> \<not> exited p \<Longrightarrow> proc_step p (p\<lparr>pr_sweeping := False\<rparr>)"
| shutdown: "pr_main p = Waiting \<Longrightarrow> pr_done p \<noteq> None \<Longrightarrow> proc_step p (begin_shutdown p)"
| stopped: "pr_main p = ShuttingDown l \<Longrightarrow> pr_active p = 0 \<or> l \<le> pr_now p \<Longrightarrow> proc_step p (end_shutdown p)"

lemmas proc_defs = cancel_def proc_log_def server_returned_def begin_shutdown_def end_shutdown_def exited_def
  blocked_def shutdown_timeout_def Let_def

section \<open>Reasons and time\<close>

text \<open>
  The context is done exactly when there is a reason, shutting down begins at the instant it is, and time does not pass the
  end of the shutdown.
\<close>

definition has_reason :: "process \<Rightarrow> bool" where
  "has_reason p \<longleftrightarrow> pr_signalled p \<or> (LError, ''server'') \<in> set (pr_log p)"

definition proc_inv :: "process \<Rightarrow> bool" where
  "proc_inv p \<longleftrightarrow>
     (pr_done p \<noteq> None \<longleftrightarrow> has_reason p) \<and>
     (case pr_main p of
        Waiting \<Rightarrow> (case pr_done p of None \<Rightarrow> True | Some t \<Rightarrow> pr_now p = t)
      | ShuttingDown l \<Rightarrow> (\<exists>t. pr_done p = Some t \<and> l = t + shutdown_timeout \<and> pr_now p \<le> l)
      | Exited n \<Rightarrow> n = 0 \<and> (\<exists>t. pr_done p = Some t \<and> pr_now p \<le> t + shutdown_timeout) \<and>
          last (pr_log p) = (LInfo, ''stopped''))"

lemma proc_step_inv: "proc_step p q \<Longrightarrow> proc_inv p \<Longrightarrow> proc_inv q"
  by (induction rule: proc_step.induct)
    (auto simp: proc_inv_def has_reason_def proc_defs Second_def split: main_state.splits option.splits)

lemma proc_steps_inv: "proc_step\<^sup>*\<^sup>* p q \<Longrightarrow> proc_inv p \<Longrightarrow> proc_inv q"
  by (induction rule: rtranclp_induct) (auto intro: proc_step_inv)

lemma exited_final: "proc_step p q \<Longrightarrow> \<not> exited p"
  by (induction rule: proc_step.induct) (auto simp: proc_defs split: main_state.splits)

text \<open>Once the context is done the process can end by itself, whatever the requests in flight do.\<close>

lemma shutdown_ends:
  assumes "pr_main p = ShuttingDown l" and "pr_now p \<le> l"
  shows "\<exists>q. proc_step\<^sup>*\<^sup>* p q \<and> exited q \<and> pr_active q = pr_active p"
proof -
  let ?q = "p\<lparr>pr_now := l\<rparr>"
  have "proc_step p ?q" by (rule proc_step.clock) (use assms in \<open>simp_all add: blocked_def\<close>)
  moreover have "proc_step ?q (end_shutdown ?q)" by (rule proc_step.stopped [of _ l]) (use assms(1) in simp_all)
  moreover have "exited (end_shutdown ?q)" "pr_active (end_shutdown ?q) = pr_active p" by (simp_all add: proc_defs)
  ultimately show ?thesis by (meson converse_rtranclp_into_rtranclp rtranclp.rtrancl_refl)
qed

lemma cancelled_ends:
  assumes "proc_inv p" and "pr_done p \<noteq> None" and "\<not> exited p"
  shows "\<exists>q. proc_step\<^sup>*\<^sup>* p q \<and> exited q \<and> pr_active q = pr_active p"
proof (cases "pr_main p")
  case Waiting
  then have "proc_step p (begin_shutdown p)" using assms(2) by (rule proc_step.shutdown)
  moreover obtain q where "proc_step\<^sup>*\<^sup>* (begin_shutdown p) q" "exited q" "pr_active q = pr_active p"
    using shutdown_ends [of "begin_shutdown p"] by (auto simp: begin_shutdown_def shutdown_timeout_def Second_def)
  ultimately show ?thesis by (meson converse_rtranclp_into_rtranclp)
next
  case (ShuttingDown l)
  then show ?thesis using assms(1) by (intro shutdown_ends [of p l]) (auto simp: proc_inv_def)
qed (use assms(3) in \<open>simp add: exited_def\<close>)

section \<open>Properties\<close>


section \<open>A sample gateway\<close>

definition sample_getenv :: "string \<Rightarrow> string" where
  "sample_getenv v =
     (if v = ''AUTHZ_BACKEND'' then ''keycloak'' else if v = ''DYNAMO_TABLE'' \<or> v = ''PORT'' then '''' else ''value'')"

definition sample_platform :: "(unit, string list, unit, unit, unit, item list thread) platform" where
  "sample_platform =
     \<lparr>pf_getenv = sample_getenv, pf_readFile = (\<lambda>_. Inl ErrMalformedRefConstraint),
      pf_parsePolicy = (\<lambda>_. Inr empty_policy), pf_newProvider = (\<lambda>_. Inr ()),
      pf_verifierFor = (\<lambda>_ _ _. Inr ()), pf_claims = (\<lambda>_. Inr sample_identity),
      pf_inClusterConfig = Inr (), pf_newForConfig = (\<lambda>_. Inr sample_deployments),
      pf_retry = retry_at_once (\<lambda>_. False) 3, pf_loadDefaultConfig = Inr (),
      pf_newDynamo = (\<lambda>_. shared_sdk (table_sdk ''deploy-gateway-operations'' sort_schema 2)), pf_codec = table_codec\<rparr>"

lemma sample_boot:
  "\<exists>g. main_boot (hanging_keycloak :: unit http_env) sample_platform = Inr g \<and>
     mgr_kube (dp_Ops (gw_deps g)) = sample_kube_client \<and> dp_Verifier (gw_deps g) ''token'' = Inr sample_identity \<and>
     mgr_store (dp_Ops (gw_deps g)) = dynamo_store (shared_client sample_dynamo) table_codec"
  by (simp add: main_boot_def Let_def sample_platform_def sample_getenv_def buildAuthorizer_def require_of_env kc_vars_def
      NewVerifier_def NewInCluster_def NewFromConfig_def NewDynamo_def NewManager_def sample_kube_client_def envOr_def
      shared_client_def table_store_def Verifier_Verify_def sample_identity_def)


end
