(* ===== verification/Spec2Isabelle.thy ===== *)
theory Spec2Isabelle
  imports Api_Properties Api_Effects Gateway_Run
begin

text \<open>
  A verification library for the deploy gateway: the service that lets GitHub Actions workflows
  restart and roll out Kubernetes deployments without holding cluster credentials.

  \<^bold>\<open>The program.\<close> A request reaches the HTTP API (\<^verbatim>\<open>internal/api\<close>), which verifies its OIDC token
  (\<^verbatim>\<open>internal/authn\<close>), asks an authorizer whether the repository may act (\<^verbatim>\<open>internal/authz\<close> for the
  static policy and the shadow mode, \<^verbatim>\<open>internal/keycloak\<close> for Keycloak) and hands the action to the
  operation manager (\<^verbatim>\<open>internal/operation\<close>). The manager writes an audit row to the store
  (\<^verbatim>\<open>internal/store\<close>), patches the deployment (\<^verbatim>\<open>internal/kube\<close>), announces it (\<^verbatim>\<open>internal/notify\<close>) and
  starts a goroutine that follows the rollout until the operation can be resolved. A sweeper and
  lazy reads resolve operations whose watcher was lost. \<^verbatim>\<open>cmd/gateway\<close> wires these together.

  \<^bold>\<open>The theories.\<close>
  \<^item> \<open>Go_Prelude\<close>, \<open>Go_Time\<close>, \<open>Go_Date\<close>, \<open>Go_Rfc3339\<close>, \<open>Go_Escape\<close>, \<open>Go_Http\<close>, \<open>Go_Monad\<close>: what the program uses of Go. Error
    values with \<^verbatim>\<open>errors.Is\<close>; strings as byte lists; instants and durations as integers of nanoseconds,
    with the wrap-around of \<^verbatim>\<open>int64\<close> written out where a product could leave its range; the process clock
    with an arbitrary duration for every piece of work; contexts as the instant at which they end; JSON
    values and their decoding into structs; HTTP calls to a server that is a parameter and may answer,
    fail or hang; the state monad with a logic of invariants (\<open>keeps\<close>). The calendar equals a reference
    count of days, and the RFC 3339 text of an instant (the format of \<^verbatim>\<open>RFC3339Nano\<close>, in which both the
    store and the patches write times) reads back as that instant and orders by the second, not within it.
  \<^item> \<open>Go_Threads\<close>: goroutines that share memory. A program is a sequence of atomic steps in the state monad,
    over a view that says what the others do before each of them; \<open>obeys\<close> is what it relies on, its own steps are
    recorded, and an execution is an interleaving (\<open>interleaved\<close>) of the steps of all goroutines in which each starts
    where the one before it ended (\<open>linked\<close>).
  \<^item> \<open>Authz\<close>: requests, decisions, the \<^verbatim>\<open>Authorizer\<close> interface as a record of functions and its contract as
    the locale \<open>authorizer_contract\<close>; the policy, ref patterns, and the shadow pair. \<open>Authn\<close>: identities
    and verifiers.
  \<^item> \<open>Store\<close>: rows, the \<^verbatim>\<open>Store\<close> interface and its contract \<open>store_contract\<close>, in which an error may hide a
    write that took effect and a listing may lag behind; the extension \<open>fresh_store\<close>, whose reads are
    current; what any sequence of calls keeps (\<open>evolves\<close>, \<open>row_le\<close>). \<open>Store_InMem\<close>: the in-memory and
    recording stores, and that the former is a fresh store. \<open>Store_Shared\<close>: the contract of a store that several
    goroutines use at once, the locale \<open>concurrent_store\<close>, and that a store with atomic calls fulfils it.
  \<^item> \<open>Dynamo_Sdk\<close>: attribute values, the language of the update, condition and filter expressions, the
    inputs and outputs of the SDK's calls as records, the SDK itself as a record of functions, and the
    documented behaviour of the service as the locale \<open>dynamo_service\<close>. \<open>Store_Dynamo\<close>: every function of
    \<^verbatim>\<open>dynamo.go\<close> over that record. \<open>Dynamo_Correct\<close>: in \<open>dynamo_backend\<close> (the service and a codec for the
    struct tags) the store keeps \<open>store_contract\<close>, with scans as stale as DynamoDB allows.
    \<open>Dynamo_Fresh\<close>: in \<open>dynamo_consistent\<close>, where the scans are current, it is a \<open>fresh_store\<close>. \<open>Dynamo_Table\<close>:
    a paged table and a codec that evaluate the store's own expressions, on which these locales are
    interpreted. \<open>Dynamo_Shared\<close>: one request to
    the service is one step, others write between the requests of one call, and the store is a
    \<open>concurrent_store\<close> nevertheless. \<open>Dynamo_Properties\<close>: the properties.
  \<^item> \<open>Kube\<close>: the fields of a deployment the gateway reads, \<^verbatim>\<open>EvaluateRollout\<close> and the \<^verbatim>\<open>Kube\<close> interface.
    \<open>Kube_Client\<close>: the client of \<^verbatim>\<open>client.go\<close> with its patches, written as the JSON text the source prints,
    the retry on conflicts, and a reader of JSON in which the patches are understood.
  \<^item> \<open>Notify_Format\<close>, \<open>Notify\<close>: the text of a message, the Telegram transport with its retries, handles
    and the goroutines behind \<^verbatim>\<open>Started\<close> and \<^verbatim>\<open>Resolved\<close>.
  \<^item> \<open>Runtime\<close>: the process in which the manager runs, as a record of the states of its collaborators, the
    clock, the log and the started watchers; actions on it; preorders on process states.
  \<^item> \<open>Manager\<close>: every function of \<^verbatim>\<open>manager.go\<close> and \<^verbatim>\<open>reconcile.go\<close>. \<open>Manager_Effects\<close>: the locale
    \<open>manager_kernel\<close> reduces a preorder on process states to the elementary actions; it is interpreted
    for the clock and, in \<open>gateway_goroutine\<close>, for what a goroutine does to a shared store and to the
    notifications: its steps are lawful and balance what it announces.
    \<open>Manager_Correct\<close>: executions of any number of goroutines; termination of the watch and what its return means, sweeps, and the need to
    have seen a completion. \<open>Manager_Properties\<close>: the properties.
  \<^item> \<open>Kc_Cache\<close> (with the contract \<open>timed_cache\<close>, interpreted for fresh and for stale reads), \<open>Kc_Token\<close>,
    \<open>Kc_Client\<close>, \<open>Kc_Authorizer\<close>: the Keycloak package, whose states extend each other as the Go structs
    contain each other, as sequences of steps on a state shared by all requests. \<open>Kc_Correct\<close>: the locales
    \<open>client_invariant\<close> and \<open>authorizer_invariant\<close> reduce an invariant of a goroutine to its elementary steps;
    they are interpreted for the steps on the permit cache and for the deadline.
    \<open>Kc_Properties\<close>: the properties.
  \<^item> \<open>Api\<close>, \<open>Api_Properties\<close>: the handlers and what they guarantee. \<open>Api_Effects\<close>: the locale \<open>api_kernel\<close> extends
    the kernel of the manager to requests, and makes requests, watches and the sweeper goroutines of one
    execution (\<open>gateway_task\<close>). \<open>Gateway_Main\<close>: the checks of the configuration and the choice of the
    authorization backend. \<open>Gateway_Boot\<close>: what \<^verbatim>\<open>main\<close> builds from it. \<open>Gateway_Run\<close>: the life of the
    process, from the start of its goroutines to its exit, as the step relation \<open>proc_step\<close>.

  \<^bold>\<open>What is shown.\<close> Nobody acts without a verified token and a permission for exactly the requested
  action (\<open>no_action_without_permission\<close>). Over every store that keeps the contract, and however the
  goroutines are interleaved, a resolution is announced at most once and the audit trail only moves forward. A watch always ends and leaves its
  operation resolved, and records success only for a rollout it has seen complete; a sweep leaves no
  stale operation running. A permit from Keycloak has a cause, a revoked grant stops being honoured
  within 30 seconds, or five and a half minutes during an outage, and an outage is never reported as a
  denial, whatever other requests do to the caches meanwhile. The DynamoDB store keeps the contract that those properties assume, its scans return however
  the table is cut into pages, and over the table of \<open>Dynamo_Table\<close> it answers as the in-memory store
  does, the refusal of a second resolution included; what is shown of the audit trail therefore holds of
  the gateway as \<^verbatim>\<open>main\<close> puts it together (\<open>production_gateway_audit\<close>). A patch for ASCII names sets the requested
  container to the requested image and nothing else, or is not JSON at all, and two calls that the
  cluster accepts, one after the other, carry different annotations. The pure parts (policy, ref
  patterns, rollout evaluation, message text) equal abstract descriptions of what they compute. The
  process exits only for a reason and within fifteen seconds of it. In this theory stand the properties that
  span components.

  \<^bold>\<open>Bounds and loops.\<close> The watch loop is a partial function in the option monad; that it returns is proved,
  by the deadline that every sleep approaches. The retry loops of the transport and of the Keycloak
  client count down their attempts, as in the source. The scans of the DynamoDB store are partial
  functions too; that they return is proved from the order in which a table hands out its pages. Fuel
  occurs in two readers that are not loops of the program: the JSON reader has the length of its text,
  and the reader of expressions has the number of words; each step consumes one of them.

  \<^bold>\<open>Concurrency.\<close> The goroutines that share a store, and the requests that share a Keycloak authorizer, are
  interleaved step by step. A step is what a mutex or a request to DynamoDB makes atomic: a call of the
  in-memory store, a request of the DynamoDB store, one access to a cache or to the token, the sending of an
  HTTP request, the receiving of its answer. What a goroutine relies on is that time does not run backwards, that
  others keep the contract, and that no other uses the operation ids it will draw from the ULID generator. The
  mutexes that the token source and the lookup of the client hold across HTTP calls are left out: the model has
  every interleaving they allow and more, so what is shown of all executions holds with them; a request's
  time (\<open>authorization_budget\<close>) is that of one that waits for no other. The properties of single calls (what a
  watch or a sweep leaves behind, the responses of the handlers) are stated for one goroutine on a store that
  others do not touch meanwhile. The jobs of the notifier have their own order in \<open>Notify\<close>.

  \<^bold>\<open>Not modelled.\<close> The insides of the AWS, Kubernetes and OIDC libraries, which are parameters, and the
  contexts of the calls to DynamoDB and Kubernetes: an elapsed context is one of the errors those
  calls may return. DynamoDB's removal of expired items, which only ever touches rows kept past their
  retention. Chi's routing, the sockets behind the server of \<^verbatim>\<open>main\<close>, the test helper \<^verbatim>\<open>kubetest\<close>, which
  starts a cluster for the tests, and the attributes of log lines.
\<close>

section \<open>Authorization across components\<close>

definition idle :: "('s, 'k, 'n, 'a) rt \<Rightarrow> bool" where
  "idle w \<longleftrightarrow> clk_work (rt_clock w) = (\<lambda>_. 0)"


definition sample_kc_deps :: "(inMemory, unit, telegram, unit Authorizer) Deps" where
  "sample_kc_deps =
     \<lparr>dp_Verifier = (\<lambda>t. Inr sample_identity), dp_Authz = kc_authorizer hanging_keycloak sample_config,
      dp_Ops = sample_manager, dp_Store = inmem_store, dp_AuthzTimeout = 0\<rparr>"

definition sample_kc_rt :: "(inMemory, unit, telegram, unit Authorizer) rt" where
  "sample_kc_rt =
     \<lparr>rt_store = sample_store, rt_kube = (), rt_notify = \<lparr>tg_heap = [], tg_jobs = []\<rparr>,
      rt_authz = sample_authorizer, rt_clock = sample_clock 0, rt_ulid = (\<lambda>n. replicate n CHR ''A''),
      rt_ulids = 0, rt_log = [], rt_watchers = []\<rparr>"


text \<open>C20. In shadow mode the static policy alone answers: whatever the shadowed authorizer says and
  however it fails, the gateway goes on exactly when the policy allows the request, and
  otherwise answers 403 with a denied audit row; it never answers that authorization is
  unavailable.\<close>

theorem shadow_mode_follows_policy:
  assumes "dp_Authz d = Shadow (FileAuthorizer p) az"
    and "run_state (authorize d ctx i action ns dep container img) w = (r, w')"
  shows "(r = None \<longleftrightarrow> Policy_Authorize p (Id_Repository i) action ns dep) \<and>
    (\<forall>resp. r = Some resp \<longrightarrow> resp = writeError 403 ''FORBIDDEN'' ''not allowed'' \<and>
       (\<exists>now. rt_store w' = snd (PutOperation (dp_Store d) (denied_row i (op_id (rt_ulid w (rt_ulids w)))
          action ns dep container img (''policy does not allow '' @ action @ '' on '' @ ns @ ''/'' @ dep) now)
          (rt_store w))))"
proof -
  let ?req = "authz_request i action ns dep"
  let ?allowed = "Policy_Authorize p (Id_Repository i) action ns dep"
  obtain a b lg where st: "rt_authz w = (a, b, lg)" by (cases "rt_authz w")
  have "fst (Authorize (dp_Authz d) (authz_context d ctx (clk_now (rt_clock w))) ?req
      (rt_clock w, rt_authz w)) = Inr (if ?allowed then Permit else file_denied ?req)"
    using assms(1) st
    by (simp add: Shadow_def Shadow_Authorize_def FileAuthorizer_def FileAuthorizer_Authorize_def
        authz_request_def split: prod.splits)
  then obtain c st' where az: "Authorize (dp_Authz d) (authz_context d ctx (clk_now (rt_clock w))) ?req
      (rt_clock w, rt_authz w) = (Inr (if ?allowed then Permit else file_denied ?req), c, st')"
    by (metis prod.collapse)
  from authorize_runs [OF az assms(2)] show ?thesis
    by (auto simp: file_denied_def authz_request_def split: if_splits)
qed

definition sample_shadow_deps :: "(inMemory, unit, telegram, unit \<times> unit Authorizer \<times> log) Deps" where
  "sample_shadow_deps =
     \<lparr>dp_Verifier = (\<lambda>t. Inr sample_identity),
      dp_Authz = Shadow (FileAuthorizer empty_policy) (kc_authorizer hanging_keycloak sample_config),
      dp_Ops = sample_manager, dp_Store = inmem_store, dp_AuthzTimeout = 0\<rparr>"

definition sample_shadow_rt :: "(inMemory, unit, telegram, unit \<times> unit Authorizer \<times> log) rt" where
  "sample_shadow_rt =
     \<lparr>rt_store = sample_store, rt_kube = (), rt_notify = \<lparr>tg_heap = [], tg_jobs = []\<rparr>,
      rt_authz = ((), sample_authorizer, []), rt_clock = sample_clock 0,
      rt_ulid = (\<lambda>n. replicate n CHR ''A''), rt_ulids = 0, rt_log = [], rt_watchers = []\<rparr>"

theorem shadow_mode_follows_policy_witness:
  "fst (run_state (authorize sample_shadow_deps None sample_identity ActionRestart ''backend'' ''api'' '''' '''')
      sample_shadow_rt) = Some (writeError 403 ''FORBIDDEN'' ''not allowed'')"
proof -
  obtain r w' where run: "run_state (authorize sample_shadow_deps None sample_identity ActionRestart ''backend'' ''api''
      '''' '''') sample_shadow_rt = (r, w')" by (rule prod.exhaust)
  have "dp_Authz sample_shadow_deps = Shadow (FileAuthorizer empty_policy) (kc_authorizer hanging_keycloak sample_config)"
    by (simp add: sample_shadow_deps_def)
  from shadow_mode_follows_policy [OF this run] run show ?thesis
    by (cases r) (auto simp: Policy_Authorize_def empty_policy_def)
qed

section \<open>The production gateway\<close>

text \<open>C8. The gateway as \<^verbatim>\<open>main\<close> wires it keeps a sound audit trail: once it has started with notifications
  enabled, over every DynamoDB client with the documented behaviour, stale scans and lost responses
  included, and whatever HTTP requests it serves while it follows operations and sweeps, their requests to
  DynamoDB interleaved in any way, those of other replicas among them, it announces the resolution of an
  operation at most once, and only when its row has become terminal, and every audit row is left as it was
  or taken from running to terminal by one update.\<close>

theorem production_gateway_audit:
  assumes "main_boot henv pf = Inr g"
    and "pf_getenv pf ''TELEGRAM_BOT_TOKEN'' \<noteq> ''''" and "pf_getenv pf ''TELEGRAM_CHAT_ID'' \<noteq> ''''"
    and "pf_newDynamo pf = (\<lambda>cfg. shared_sdk (client cfg))"
    and "\<And>cfg. dynamo_backend \<lparr>ds_table = boot_table pf, ds_client = client cfg\<rparr> schema items ahead (pf_codec pf)"
    and "execution (gateway_task (\<lambda>d. item_rows (items d)) (\<lambda>d. table_inv (items d)) (gw_deps g)) gs d tr"
  shows "settled (item_rows (items d)) i + notices i gs \<le> settled (item_rows (items (final d tr))) i \<and>
    (\<forall>op. item_rows (items d) i = Some op \<longrightarrow>
       (\<exists>op'. item_rows (items (final d tr)) i = Some op' \<and> row_le op op'))"
proof -
  obtain cfg where st: "dp_Store (gw_deps g) = dynamo_store \<lparr>ds_table = boot_table pf, ds_client = pf_newDynamo pf cfg\<rparr> (pf_codec pf)"
    and mgr: "mgr_store (dp_Ops (gw_deps g)) = dp_Store (gw_deps g)"
      "mgr_notify (dp_Ops (gw_deps g)) = fst (notify_New (notifier_config (pf_getenv pf)))"
    by (rule main_boot_parts [OF assms(1)])
  have contract: "concurrent_store (dp_Store (gw_deps g)) (\<lambda>d. item_rows (items d)) (\<lambda>d. table_inv (items d))"
    using dynamo_backend.concurrent_contract [OF assms(5) [of cfg]] by (simp add: st assms(4) shared_client_def)
  have "mgr_notify (dp_Ops (gw_deps g)) = telegram_notifier"
    using mgr(2) notify_enabled [OF assms(2,3)] by simp
  then have honest: "honest (\<lambda>d. item_rows (items d)) (\<lambda>d. table_inv (items d)) t js"
    if "gateway_task (\<lambda>d. item_rows (items d)) (\<lambda>d. table_inv (items d)) (gw_deps g) x t js" for x t js
    using gateway_task_honest [OF contract mgr(1) _ that] by blast
  have "settled (item_rows (items d)) i + notices i gs \<le> settled (item_rows (items (final d tr))) i"
    by (rule execution_balanced(2) [OF _ assms(6)]) (rule honest)
  moreover have "evolves (item_rows (items d)) (item_rows (items (final d tr)))"
    by (rule execution_balanced(1) [OF _ assms(6)]) (rule honest)
  ultimately show ?thesis using evolves_le by blast
qed

text \<open>A replica that restarts a deployment while the sweeper of another reads the table\<close>

definition sample_replica :: "(item list thread, string list kclient, telegram, unit backend_state) rt" where
  "sample_replica =
     \<lparr>rt_store = alone [], rt_kube = sample_kclient 0, rt_notify = \<lparr>tg_heap = [], tg_jobs = []\<rparr>,
      rt_authz = ((), sample_authorizer, []), rt_clock = sample_clock 0, rt_ulid = (\<lambda>n. replicate n CHR ''A''),
      rt_ulids = 0, rt_log = [], rt_watchers = []\<rparr>"

definition sample_permitting :: "unit backend_state authorizer" where
  "sample_permitting = \<lparr>Authorize = (\<lambda>ctx req st. (Inr Permit, st)), Ready = None\<rparr>"

definition sample_restart_request :: api_request where
  "sample_restart_request =
     \<lparr>Rq_Authorization = ''Bearer token'',
      Rq_Body = Some (JObj [(''namespace'', JStr ''backend''), (''deployment'', JStr ''api'')]), Rq_Context = None\<rparr>"

abbreviation sample_task where
  "sample_task \<equiv> gateway_task (table_rows sort_schema) (\<lambda>d. table_inv (table_items sort_schema d))"

lemma sample_replica_in_order:
  "in_order (table_rows sort_schema) (\<lambda>d. table_inv (table_items sort_schema d)) sample_replica"
  using sample_ids_inj
  by (auto simp: in_order_def primed_def sample_replica_def table_items_def table_inv_def item_rows_def
      intro: inj_on_subset obeys_alone spares_refl)

lemma sample_put_step:
  "fst (PutOperation (dynamo_store (shared_client sample_dynamo) table_codec) op (alone [])) = None"
  "\<exists>d. th_own (snd (PutOperation (dynamo_store (shared_client sample_dynamo) table_codec) op (alone []))) = [([], d)]"
  by (simp_all add: dynamo_store_def dynamo_PutOperation_def table_codec_def table_store_def table_sdk_def table_PutItem_def
      one_step_def th_found_def)

lemma sample_list_step:
  "fst (ListRunningPastDeadline (dynamo_store (shared_client sample_dynamo) table_codec) t (alone [])) = Inr []"
  "th_own (snd (ListRunningPastDeadline (dynamo_store (shared_client sample_dynamo) table_codec) t (alone []))) = [([], [])]"
  by (simp_all add: dynamo_store_def dynamo_ListRunningPastDeadline_def until_done_def list_loop.simps table_store_def
      table_sdk_def table_Scan_def list_input_def one_step_def th_found_def Let_def)

lemma sample_tasks:
  fixes d :: "(item list thread, string list kclient, telegram, unit backend_state) Deps"
  assumes "mgr_kube (dp_Ops d) = sample_kube_client" and "dp_Verifier d ''token'' = Inr sample_identity"
    and "mgr_store (dp_Ops d) = dynamo_store (shared_client sample_dynamo) table_codec"
  shows "\<exists>t js. sample_task d (Serve RestartRoute sample_restart_request) [([], t)] js"
    and "\<exists>js. sample_task d (Sweeper Background [Tick]) [([], [])] js"
proof -
  have w: "rt_store sample_replica = alone []" "rt_kube sample_replica = sample_kclient 0" "tg_jobs (rt_notify sample_replica) = []"
    by (simp_all add: sample_replica_def)
  have run: "\<exists>js. sample_task d x tr js"
    if "run_task (d\<lparr>dp_Authz := sample_permitting\<rparr>) x sample_replica = Some w'" and "th_own (rt_store w') = tr" for x w' tr
    unfolding gateway_task_def using sample_replica_in_order that w alone_simps(2) by metis
  have patch: "fst (RestartDeployment sample_kube_client ns dep (sample_kclient t)) = None" for ns dep t
    using sample_restart [of ns dep t] by auto
  have "\<exists>t. th_own (rt_store (snd (run_state (serve (d\<lparr>dp_Authz := sample_permitting\<rparr>) RestartRoute sample_restart_request)
      sample_replica))) = [([], t)]"
    by (simp add: serve_def authenticate_def sample_restart_request_def assms HasPrefix_def TrimPrefix_def handleRestart_def
        unmarshal_def dec_restart_def dec_field_def field_is_def set_str_def authorize_def run_authz_call sample_permitting_def
        Restart_def persist_new_def NewOperationID_def Let_def w sample_put_step patch)
  then show "\<exists>t js. sample_task d (Serve RestartRoute sample_restart_request) [([], t)] js"
    using run [OF run_task.simps(1)] by blast
  have "th_own (rt_store (snd (run_state (StartSweeper (dp_Ops d) Background [Tick]) sample_replica))) = [([], [])]"
    by (simp add: ReconcileSweep_def w assms sample_list_step)
  then show "\<exists>js. sample_task d (Sweeper Background [Tick]) [([], [])] js"
    using run [OF run_task.simps(3), of Background "[Tick]"] by simp
qed

theorem production_gateway_audit_witness:
  "\<exists>g d gs. main_boot (hanging_keycloak :: unit http_env) sample_platform = Inr g \<and> length gs = 2 \<and>
     execution (sample_task (gw_deps g)) gs [] [([], []), ([], d)] \<and>
     notices ''op_1'' gs \<le> settled (table_rows sort_schema d) ''op_1''"
proof -
  obtain g where g: "main_boot (hanging_keycloak :: unit http_env) sample_platform = Inr g"
    "mgr_kube (dp_Ops (gw_deps g)) = sample_kube_client" "dp_Verifier (gw_deps g) ''token'' = Inr sample_identity"
    "mgr_store (dp_Ops (gw_deps g)) = dynamo_store (shared_client sample_dynamo) table_codec"
    using sample_boot by blast
  obtain d js js' where "sample_task (gw_deps g) (Serve RestartRoute sample_restart_request) [([], d)] js"
    "sample_task (gw_deps g) (Sweeper Background [Tick]) [([], [])] js'"
    using sample_tasks [OF g(2-4)] by blast
  moreover have "interleaved [[([], d)], [([], [])]] [([], []), ([], d)]"
    by (rule next_step [of 1], simp, simp, rule next_step [of 0], simp, simp, rule finished) auto
  ultimately have run: "execution (sample_task (gw_deps g))
      [(Serve RestartRoute sample_restart_request, [([], d)], js), (Sweeper Background [Tick], [([], [])], js')] []
      [([], []), ([], d)]" by (simp add: execution_def)
  have backend: "dynamo_backend \<lparr>ds_table = boot_table sample_platform,
      ds_client = table_sdk ''deploy-gateway-operations'' sort_schema 2\<rparr> sort_schema (table_items sort_schema)
      (table_ahead sort_schema) (pf_codec sample_platform)"
    using sample_backend
    by (simp add: table_store_def sample_platform_def boot_table_def envOr_def sample_getenv_def)
  from production_gateway_audit [OF g(1) _ _ _ backend run, of "''op_1''"] g(1) run show ?thesis
    by (force simp: sample_platform_def sample_getenv_def)
qed

end
